(* ===== verification/Prelude.thy ===== *)
theory Prelude
  imports Main "HOL-Library.Word"
begin

unbundle bit_operations_syntax

text \<open>
  Shared vocabulary of the development: machine integers at their width, the faults the C++
  code can run into (an access outside an object, a failed \<open>assert\<close>, signed overflow, an exception)
  as values, checked memory reads, network and host byte order, the conversion between
  \<open>char\<close> and \<open>std::uint8_t\<close>, and NUL-terminated strings. The target is the one the sources
  are written for (POSIX headers, x86-64): little-endian, 64-bit \<open>size_t\<close>, signed \<open>char\<close>.
\<close>

section \<open>Machine types\<close>

type_synonym u8 = "8 word"
type_synonym u16 = "16 word"
type_synonym u32 = "32 word"
type_synonym u64 = "64 word"
type_synonym bytes = "u8 list"

text \<open>
  \<open>resl_simps\<close> collects the rewriting of results (sums whose left side is a fault),
  \<open>codec_simps\<close> the facts on byte encodings.
\<close>

named_theorems resl_simps
named_theorems codec_simps

section \<open>Faults and results\<close>

datatype fault =
    Out_Of_Bounds        \<comment> \<open>a read or write outside the object: undefined behaviour in C++\<close>
  | Assert_Failed        \<comment> \<open>\<open>assert\<close> aborts the process\<close>
  | Signed_Overflow      \<comment> \<open>an \<open>int\<close> result out of range: undefined behaviour\<close>
  | Bad_Character        \<comment> \<open>a function of \<open><cctype>\<close> called outside its domain: undefined behaviour\<close>
  | Std_Exception string \<comment> \<open>a C++ exception, by its text\<close>

type_synonym 'a resl = "fault + 'a"

definition bind_res :: "'a resl \<Rightarrow> ('a \<Rightarrow> 'b resl) \<Rightarrow> 'b resl" where
  "bind_res m f = (case m of Inl e \<Rightarrow> Inl e | Inr x \<Rightarrow> f x)"

lemma bind_res_Inl [simp, resl_simps]: "bind_res (Inl e) f = Inl e"
  by (simp add: bind_res_def)

lemma bind_res_Inr [simp, resl_simps]: "bind_res (Inr x) f = f x"
  by (simp add: bind_res_def)

lemma bind_res_eq_Inr [resl_simps]:
  "bind_res m f = Inr y \<longleftrightarrow> (\<exists>x. m = Inr x \<and> f x = Inr y)"
  by (cases m) simp_all

lemma bind_res_cong [fundef_cong]:
  "m = m' \<Longrightarrow> (\<And>x. m' = Inr x \<Longrightarrow> f x = f' x) \<Longrightarrow> bind_res m f = bind_res m' f'"
  by (cases m') auto

text \<open>\<open>holds P m\<close>: whatever the computation \<open>m\<close> returns without a fault satisfies \<open>P\<close>.\<close>

definition holds :: "('a \<Rightarrow> bool) \<Rightarrow> 'a resl \<Rightarrow> bool" where
  "holds P m \<longleftrightarrow> (\<forall>x. m = Inr x \<longrightarrow> P x)"

lemma holds_simps [simp, resl_simps]:
  "holds P (Inl e)" "holds P (Inr x) = P x"
  "holds P (bind_res m f) = (\<forall>x. m = Inr x \<longrightarrow> holds P (f x))"
  by (auto simp: holds_def bind_res_eq_Inr)

lemma holds_mono: "holds P m \<Longrightarrow> (\<And>x. P x \<Longrightarrow> Q x) \<Longrightarrow> holds Q m"
  by (simp add: holds_def)

lemma holds_bind: "holds P m \<Longrightarrow> (\<And>x. P x \<Longrightarrow> holds Q (f x)) \<Longrightarrow> holds Q (bind_res m f)"
  by (auto simp: holds_def bind_res_eq_Inr)

lemma holds_conj: "holds P m \<Longrightarrow> holds Q m \<Longrightarrow> holds (\<lambda>x. P x \<and> Q x) m"
  by (simp add: holds_def)

lemma holdsD: "holds P m \<Longrightarrow> m = Inr x \<Longrightarrow> P x"
  by simp

text \<open>
  Code that contains a loop which may not end has the result type \<open>'a resl option\<close>:
  \<open>None\<close> is "does not return".
\<close>

type_synonym 'a outc = "'a resl option"

definition bind_out :: "'a outc \<Rightarrow> ('a \<Rightarrow> 'b outc) \<Rightarrow> 'b outc" where
  "bind_out m f = (case m of None \<Rightarrow> None | Some (Inl e) \<Rightarrow> Some (Inl e) | Some (Inr x) \<Rightarrow> f x)"

lemma bind_out_simps [simp, resl_simps]:
  "bind_out None f = None" "bind_out (Some (Inl e)) f = Some (Inl e)" "bind_out (Some (Inr x)) f = f x"
  by (simp_all add: bind_out_def)

lemma bind_out_eq_Inr [resl_simps]:
  "bind_out m f = Some (Inr y) \<longleftrightarrow> (\<exists>x. m = Some (Inr x) \<and> f x = Some (Inr y))"
  by (auto simp: bind_out_def split: option.splits sum.splits)

section \<open>Checked reads\<close>

definition rd :: "'a list \<Rightarrow> nat \<Rightarrow> 'a resl" where
  "rd xs i = (if i < length xs then Inr (xs ! i) else Inl Out_Of_Bounds)"

definition rd_range :: "'a list \<Rightarrow> nat \<Rightarrow> nat \<Rightarrow> 'a list resl" where
  "rd_range xs i n = (if i + n \<le> length xs then Inr (take n (drop i xs)) else Inl Out_Of_Bounds)"

lemma rd_in [simp]: "i < length xs \<Longrightarrow> rd xs i = Inr (xs ! i)"
  by (simp add: rd_def)

lemma rd_out [simp]: "length xs \<le> i \<Longrightarrow> rd xs i = Inl Out_Of_Bounds"
  by (simp add: rd_def)

lemma rd_eq_Inr [resl_simps]: "rd xs i = Inr x \<longleftrightarrow> i < length xs \<and> xs ! i = x"
  by (auto simp: rd_def)

lemma rd_range_eq_Inr [resl_simps]:
  "rd_range xs i n = Inr ys \<longleftrightarrow> i + n \<le> length xs \<and> ys = take n (drop i xs)"
  by (auto simp: rd_range_def)

lemma rd_prefix [simp]: "rd (xs @ y # ys) (length xs) = Inr y"
  by (simp add: rd_def nth_append)

lemma rd_append_left [simp]: "i < length xs \<Longrightarrow> rd (xs @ ys) i = Inr (xs ! i)"
  by (simp add: rd_def nth_append)

section \<open>Writing into a fixed-size array\<close>

text \<open>\<open>overwrite buf i ys\<close> is the array after \<open>memcpy(buf + i, ys, |ys|)\<close>.\<close>

definition overwrite :: "'a list \<Rightarrow> nat \<Rightarrow> 'a list \<Rightarrow> 'a list" where
  "overwrite buf i ys = take i buf @ ys @ drop (i + length ys) buf"

lemma length_overwrite [simp]:
  "i + length ys \<le> length buf \<Longrightarrow> length (overwrite buf i ys) = length buf"
  by (simp add: overwrite_def)

lemma take_overwrite_0 [simp]: "take (length ys) (overwrite buf 0 ys) = ys"
  by (simp add: overwrite_def)

lemma overwrite_0_append: "overwrite buf 0 ys = ys @ drop (length ys) buf"
  by (simp add: overwrite_def)

section \<open>Characters and bytes\<close>

definition u8_of_char :: "char \<Rightarrow> u8" where
  "u8_of_char c = of_nat (of_char c)"

definition char_of_u8 :: "u8 \<Rightarrow> char" where
  "char_of_u8 b = char_of (unat b)"

definition to_bytes :: "string \<Rightarrow> bytes" where
  "to_bytes s = map u8_of_char s"

definition of_bytes :: "bytes \<Rightarrow> string" where
  "of_bytes bs = map char_of_u8 bs"

lemma char_of_u8_of_char [simp, codec_simps]: "char_of_u8 (u8_of_char c) = c"
proof -
  have "of_char c mod 256 = (of_char c :: nat)"
    by (simp add: of_char_def)
  then show ?thesis
    by (simp add: char_of_u8_def u8_of_char_def unat_of_nat)
qed

lemma u8_of_char_of_u8 [simp, codec_simps]: "u8_of_char (char_of_u8 b) = b"
proof -
  have "unat b < 256" using unsigned_less [of b] by simp
  then show ?thesis by (simp add: char_of_u8_def u8_of_char_def of_char_of)
qed

lemma of_bytes_to_bytes [simp, codec_simps]: "of_bytes (to_bytes s) = s"
  by (simp add: of_bytes_def to_bytes_def comp_def)

lemma to_bytes_of_bytes [simp, codec_simps]: "to_bytes (of_bytes bs) = bs"
  by (simp add: of_bytes_def to_bytes_def comp_def)

lemma length_to_bytes [simp]: "length (to_bytes s) = length s"
  by (simp add: to_bytes_def)

lemma length_of_bytes [simp]: "length (of_bytes s) = length s"
  by (simp add: of_bytes_def)

lemma to_bytes_append [simp]: "to_bytes (s @ t) = to_bytes s @ to_bytes t"
  by (simp add: to_bytes_def)

lemma of_bytes_append [simp]: "of_bytes (s @ t) = of_bytes s @ of_bytes t"
  by (simp add: of_bytes_def)

lemma of_bytes_Nil [simp]: "of_bytes [] = []"
  by (simp add: of_bytes_def)

lemma to_bytes_Nil [simp]: "to_bytes [] = []"
  by (simp add: to_bytes_def)

lemma u8_of_char_inj [simp]: "u8_of_char c = u8_of_char d \<longleftrightarrow> c = d"
  by (metis char_of_u8_of_char)

lemma u8_of_char_NUL [simp]: "u8_of_char (CHR 0x00) = 0"
  by (simp add: u8_of_char_def)

lemma u8_of_char_eq_0 [simp]: "u8_of_char c = 0 \<longleftrightarrow> c = CHR 0x00"
  by (metis u8_of_char_NUL u8_of_char_inj)

lemma unat_u8_of_nat [simp]: "n < 256 \<Longrightarrow> unat (of_nat n :: u8) = n"
  by (simp add: unat_of_nat)

lemma u8_of_nat_eq_0 [simp]: "n < 256 \<Longrightarrow> (of_nat n :: u8) = 0 \<longleftrightarrow> n = 0"
  by (auto simp: word_of_nat_eq_0_iff dest: dvd_imp_le)

lemma unat_u16_of_nat [simp]: "n < 65536 \<Longrightarrow> unat (of_nat n :: u16) = n"
  by (simp add: unat_of_nat)

section \<open>Byte order\<close>

text \<open>Network byte order: what \<open>htons\<close>/\<open>htonl\<close> followed by a store leave in memory.\<close>

definition be16 :: "u16 \<Rightarrow> bytes" where
  "be16 w = [ucast (drop_bit 8 w), ucast w]"

definition be32 :: "u32 \<Rightarrow> bytes" where
  "be32 w = [ucast (drop_bit 24 w), ucast (drop_bit 16 w), ucast (drop_bit 8 w), ucast w]"

text \<open>Host byte order (little-endian): what a plain \<open>memcpy\<close> of a \<open>uint16_t\<close> leaves.\<close>

definition le16 :: "u16 \<Rightarrow> bytes" where
  "le16 w = [ucast w, ucast (drop_bit 8 w)]"

definition join16 :: "u8 \<Rightarrow> u8 \<Rightarrow> u16" where
  "join16 hi lo = push_bit 8 (ucast hi) OR ucast lo"

definition join32 :: "u8 \<Rightarrow> u8 \<Rightarrow> u8 \<Rightarrow> u8 \<Rightarrow> u32" where
  "join32 a b c d = push_bit 24 (ucast a) OR push_bit 16 (ucast b) OR push_bit 8 (ucast c) OR ucast d"

definition rd_be16 :: "bytes \<Rightarrow> nat \<Rightarrow> u16 resl" where
  "rd_be16 bs i = bind_res (rd bs i) (\<lambda>hi. bind_res (rd bs (i + 1)) (\<lambda>lo. Inr (join16 hi lo)))"

definition rd_be32 :: "bytes \<Rightarrow> nat \<Rightarrow> u32 resl" where
  "rd_be32 bs i = bind_res (rd bs i) (\<lambda>a. bind_res (rd bs (i + 1)) (\<lambda>b.
     bind_res (rd bs (i + 2)) (\<lambda>c. bind_res (rd bs (i + 3)) (\<lambda>d. Inr (join32 a b c d)))))"

definition rd_le16 :: "bytes \<Rightarrow> nat \<Rightarrow> u16 resl" where
  "rd_le16 bs i = bind_res (rd bs i) (\<lambda>lo. bind_res (rd bs (i + 1)) (\<lambda>hi. Inr (join16 hi lo)))"

lemma join16_split [simp, codec_simps]: "join16 (ucast (drop_bit 8 w)) (ucast w) = w"
  by (rule bit_word_eqI) (auto simp: join16_def bit_simps)

lemma join32_split [simp, codec_simps]:
  "join32 (ucast (drop_bit 24 w)) (ucast (drop_bit 16 w)) (ucast (drop_bit 8 w)) (ucast w) = w"
proof (rule bit_word_eqI)
  fix n
  show "bit (join32 (ucast (drop_bit 24 w)) (ucast (drop_bit 16 w)) (ucast (drop_bit 8 w)) (ucast w)) n
    \<longleftrightarrow> bit w n" if "n < LENGTH(32)"
    using that by (cases "n < 8"; cases "n < 16"; cases "n < 24") (auto simp: join32_def bit_simps)
qed

lemma be16_join16 [simp, codec_simps]: "be16 (join16 a b) = [a, b]"
proof -
  have "ucast (drop_bit 8 (join16 a b)) = a" "ucast (join16 a b) = b"
    by (rule bit_word_eqI; auto simp: join16_def bit_simps dest: bit_imp_le_length)+
  then show ?thesis by (simp add: be16_def)
qed

lemma length_be16 [simp]: "length (be16 w) = 2"
  by (simp add: be16_def)

lemma length_be32 [simp]: "length (be32 w) = 4"
  by (simp add: be32_def)

lemma length_le16 [simp]: "length (le16 w) = 2"
  by (simp add: le16_def)

lemma rd_be16_at [simp, codec_simps]: "rd_be16 (xs @ be16 w @ ys) (length xs) = Inr w"
  by (simp add: rd_be16_def be16_def rd_def nth_append)

lemma rd_be32_at [simp, codec_simps]: "rd_be32 (xs @ be32 w @ ys) (length xs) = Inr w"
  by (simp add: rd_be32_def be32_def rd_def nth_append)

lemma rd_le16_at [simp, codec_simps]: "rd_le16 (xs @ le16 w @ ys) (length xs) = Inr w"
  by (simp add: rd_le16_def le16_def rd_def nth_append)

lemma rd_be16_short: "length bs < i + 2 \<Longrightarrow> rd_be16 bs i = Inl Out_Of_Bounds"
  by (auto simp: rd_be16_def rd_def)

lemma rd_be16_ok [simp]:
  "i + 2 \<le> length bs \<Longrightarrow> rd_be16 bs i = Inr (join16 (bs ! i) (bs ! (i + 1)))"
  by (simp add: rd_be16_def)

lemma rd_le16_ok [simp]:
  "i + 2 \<le> length bs \<Longrightarrow> rd_le16 bs i = Inr (join16 (bs ! (i + 1)) (bs ! i))"
  by (simp add: rd_le16_def)

lemma rd_le16_0 [simp, codec_simps]: "rd_le16 (le16 w @ ys) 0 = Inr w"
  using rd_le16_at [of "[]"] by simp

end
