(* ===== verification/Std_String.thy ===== *)
theory Std_String
  imports Prelude
begin

text \<open>
  The part of \<open>std::string\<close> and of \<open><cctype>\<close> the sources use: \<open>find\<close>, \<open>rfind\<close>,
  \<open>std::getline\<close> with a delimiter as a splitter, the "C" locale's \<open>isspace\<close>, \<open>isprint\<close> and
  \<open>toupper\<close>, decimal output, and \<open>std::stoi\<close>. Positions are \<open>nat\<close>, \<open>npos\<close> is \<open>None\<close>.
\<close>

text \<open>The end of a line in the SMTP, FTP and Telnet dialogues.\<close>

abbreviation CRLF :: string where
  "CRLF \<equiv> [CHR 0x0D, CHR 0x0A]"

section \<open>Searching\<close>

definition find_char :: "char \<Rightarrow> string \<Rightarrow> nat option" where
  "find_char c s = (if c \<in> set s then Some (length (takeWhile (\<lambda>x. x \<noteq> c) s)) else None)"

definition find_char_from :: "char \<Rightarrow> string \<Rightarrow> nat \<Rightarrow> nat option" where
  "find_char_from c s i = map_option (\<lambda>k. i + k) (find_char c (drop i s))"

definition rfind_char :: "char \<Rightarrow> string \<Rightarrow> nat option" where
  "rfind_char c s = map_option (\<lambda>k. length s - 1 - k) (find_char c (rev s))"

fun find_sub :: "string \<Rightarrow> string \<Rightarrow> nat option" where
  "find_sub pat [] = (if pat = [] then Some 0 else None)"
| "find_sub pat (c # s) =
     (if take (length pat) (c # s) = pat then Some 0 else map_option Suc (find_sub pat s))"

lemma length_takeWhile_less: "x \<in> set xs \<Longrightarrow> \<not> P x \<Longrightarrow> length (takeWhile P xs) < length xs"
  by (induction xs) auto

lemma find_char_notin [simp]: "c \<notin> set s \<Longrightarrow> find_char c s = None"
  by (simp add: find_char_def)

lemma find_char_Some_lt: "find_char c s = Some p \<Longrightarrow> p < length s"
  by (auto simp: find_char_def length_takeWhile_less split: if_splits)

lemma find_char_Some_nth: "find_char c s = Some p \<Longrightarrow> s ! p = c"
  using nth_length_takeWhile [of "\<lambda>x. x \<noteq> c" s] length_takeWhile_less [of c s "\<lambda>x. x \<noteq> c"]
  by (auto simp: find_char_def split: if_splits)

lemma find_char_Some_notin: "find_char c s = Some p \<Longrightarrow> c \<notin> set (take p s)"
  by (auto simp: find_char_def takeWhile_eq_take [symmetric] split: if_splits dest: set_takeWhileD)

lemma find_char_None: "find_char c s = None \<longleftrightarrow> c \<notin> set s"
  by (simp add: find_char_def)

lemma find_char_Some_split:
  "find_char c s = Some p \<Longrightarrow> s = take p s @ c # drop (p + 1) s"
  by (metis Suc_eq_plus1 find_char_Some_lt find_char_Some_nth id_take_nth_drop)

lemma find_char_append [simp]: "c \<notin> set s \<Longrightarrow> find_char c (s @ c # t) = Some (length s)"
  by (auto simp: find_char_def takeWhile_append)

lemma find_char_from_Some:
  assumes "find_char_from c s i = Some p"
  shows "i \<le> p" "p < length s" "s ! p = c"
  using assms find_char_Some_lt [of c "drop i s"] find_char_Some_nth [of c "drop i s"]
  by (fastforce simp: find_char_from_def)+

lemma rfind_char_None: "rfind_char c s = None \<longleftrightarrow> c \<notin> set s"
  by (simp add: rfind_char_def find_char_None)

lemma rfind_char_append [simp]: "c \<notin> set t \<Longrightarrow> rfind_char c (s @ c # t) = Some (length s)"
  by (simp add: rfind_char_def)

lemma rfind_char_Some_lt: "rfind_char c s = Some p \<Longrightarrow> p < length s"
  by (cases s) (auto simp: rfind_char_def dest: find_char_Some_lt)

lemma find_sub_Some:
  "find_sub pat s = Some p \<Longrightarrow> p + length pat \<le> length s \<and> take (length pat) (drop p s) = pat"
proof (induction s arbitrary: p)
  case (Cons c s)
  show ?case
  proof (cases "take (length pat) (c # s) = pat")
    case True
    moreover from this have "length pat \<le> length (c # s)"
      by (metis length_take min.cobounded1 nat_le_linear take_all_iff)
    ultimately show ?thesis using Cons.prems by simp
  next
    case False
    with Cons.prems obtain q where "find_sub pat s = Some q" "p = Suc q"
      by (auto split: if_splits)
    with Cons.IH [of q] show ?thesis by simp
  qed
qed (auto split: if_splits)

lemma find_sub_prefix [simp]: "pat \<noteq> [] \<Longrightarrow> find_sub pat (pat @ t) = Some 0"
proof -
  have "take (length pat) (pat @ t) = pat" by simp
  moreover assume "pat \<noteq> []"
  ultimately show ?thesis by (cases "pat @ t") (auto simp del: take_append)
qed

section \<open>Joining and splitting\<close>

fun join_with :: "char \<Rightarrow> string list \<Rightarrow> string" where
  "join_with d [] = []"
| "join_with d [x] = x"
| "join_with d (x # y # ys) = x @ d # join_with d (y # ys)"

lemma join_with_Cons: "xs \<noteq> [] \<Longrightarrow> join_with d (x # xs) = x @ d # join_with d xs"
  by (cases xs) simp_all

lemma join_with_snoc: "xs \<noteq> [] \<Longrightarrow> join_with d (xs @ [y]) = join_with d xs @ d # y"
  by (induction xs rule: join_with.induct [of _ d]) (auto simp: join_with_Cons)

lemma join_with_append:
  "xs \<noteq> [] \<Longrightarrow> ys \<noteq> [] \<Longrightarrow> join_with d (xs @ ys) = join_with d xs @ d # join_with d ys"
proof (induction xs)
  case (Cons x xs)
  then show ?case by (cases "xs = []") (simp_all add: join_with_Cons)
qed simp

lemma join_with_eq_Nil: "join_with d xs = [] \<longleftrightarrow> xs = [] \<or> xs = [[]]"
  by (induction d xs rule: join_with.induct) auto

text \<open>Repeated \<open>std::getline(stream, item, d)\<close> until the stream is exhausted.\<close>

function getline_split :: "char \<Rightarrow> string \<Rightarrow> string list" where
  "getline_split d s =
     (if s = [] then []
      else case find_char d s of
             None \<Rightarrow> [s]
           | Some p \<Rightarrow> take p s # getline_split d (drop (p + 1) s))"
  by pat_completeness auto
termination
  by (relation "measure (\<lambda>(d, s). length s)") (auto dest: find_char_Some_lt)

declare getline_split.simps [simp del]

lemma getline_split_Nil [simp]: "getline_split d [] = []"
  by (simp add: getline_split.simps)

lemma getline_split_one [simp]: "s \<noteq> [] \<Longrightarrow> d \<notin> set s \<Longrightarrow> getline_split d s = [s]"
  by (simp add: getline_split.simps)

lemma getline_split_step [simp]:
  "d \<notin> set s \<Longrightarrow> getline_split d (s @ d # t) = s # getline_split d t"
  by (subst getline_split.simps) simp

lemma getline_split_join:
  assumes "xs \<noteq> []" "last xs \<noteq> []" "\<forall>x \<in> set xs. d \<notin> set x"
  shows "getline_split d (join_with d xs) = xs"
  using assms
proof (induction xs)
  case (Cons x xs)
  then show ?case by (cases "xs = []") (auto simp: join_with_Cons)
qed simp

section \<open>Character classes\<close>

definition isspace :: "char \<Rightarrow> bool" where
  "isspace c \<longleftrightarrow> c \<in> {CHR '' '', CHR 0x09, CHR 0x0A, CHR 0x0B, CHR 0x0C, CHR 0x0D}"

definition isprint_u8 :: "u8 \<Rightarrow> bool" where
  "isprint_u8 b \<longleftrightarrow> 32 \<le> b \<and> b \<le> 126"

definition toupper :: "char \<Rightarrow> char" where
  "toupper c = (let n = of_char c :: nat in if 97 \<le> n \<and> n \<le> 122 then char_of (n - 32) else c)"

text \<open>
  The argument of \<open>std::toupper\<close> is an \<open>int\<close> that must be an \<open>unsigned char\<close> or \<open>EOF\<close>, which is -1. A
  \<open>char\<close> is signed here, so the characters from 128 on are negative, and of those only 255 is \<open>EOF\<close>.
\<close>

definition toupper_ok :: "char \<Rightarrow> bool" where
  "toupper_ok c \<longleftrightarrow> of_char c < (128 :: nat) \<or> of_char c = (255 :: nat)"

definition std_toupper :: "char \<Rightarrow> char resl" where
  "std_toupper c = (if toupper_ok c then Inr (toupper c) else Inl Bad_Character)"

lemmas upper_defs = toupper_def std_toupper_def toupper_ok_def

text \<open>Every character of a string in turn.\<close>

fun uppercase :: "string \<Rightarrow> string resl" where
  "uppercase [] = Inr []"
| "uppercase (c # s) = bind_res (std_toupper c) (\<lambda>d. bind_res (uppercase s) (\<lambda>t. Inr (d # t)))"

lemma uppercase_eq: "uppercase s = (if \<forall>c \<in> set s. toupper_ok c then Inr (map toupper s) else Inl Bad_Character)"
  by (induction s) (auto simp: std_toupper_def)

primrec ascii :: "string \<Rightarrow> bool" where
  "ascii [] \<longleftrightarrow> True"
| "ascii (c # s) \<longleftrightarrow> of_char c < (128 :: nat) \<and> ascii s"

lemma toupper_ascii: "of_char (toupper c) < (128 :: nat) \<Longrightarrow> of_char c < (128 :: nat)"
  by (auto simp: toupper_def Let_def split: if_splits)

text \<open>A word whose capitals are ASCII letters has no character outside the domain.\<close>

lemma uppercase_ascii: "ascii (map toupper s) \<Longrightarrow> uppercase s = Inr (map toupper s)"
  by (induction s) (auto simp: std_toupper_def toupper_ok_def dest: toupper_ascii)

section \<open>C strings\<close>

text \<open>\<open>strncmp(s, t, n) == 0\<close>; a string ends at its first NUL (a literal's is implicit).\<close>

definition strncmp_eq :: "string \<Rightarrow> string \<Rightarrow> nat \<Rightarrow> bool" where
  "strncmp_eq s t n \<longleftrightarrow> takeWhile (\<lambda>c. c \<noteq> CHR 0x00) (take n s) = takeWhile (\<lambda>c. c \<noteq> CHR 0x00) (take n t)"

lemma strncmp_eq_literal:
  assumes "length t = n" "n \<le> length s" "CHR 0x00 \<notin> set t"
  shows "strncmp_eq s t n \<longleftrightarrow> take n s = t"
proof -
  have t: "takeWhile (\<lambda>c. c \<noteq> CHR 0x00) t = t"
    using assms(3) by (auto intro: takeWhile_eq_all_conv [THEN iffD2])
  have "takeWhile (\<lambda>c. c \<noteq> CHR 0x00) u = t \<longleftrightarrow> u = t" if "length u = length t" for u
    using that t by (metis length_takeWhile_le takeWhile_eq_take take_all)
  moreover have "take n t = t" "length (take n s) = length t" using assms(1,2) by simp_all
  ultimately show ?thesis by (metis strncmp_eq_def t)
qed

section \<open>Decimal numbers\<close>

text \<open>\<open>std::setw(n) << std::setfill('0')\<close>.\<close>

definition zero_pad :: "nat \<Rightarrow> string \<Rightarrow> string" where
  "zero_pad n s = replicate (n - length s) (CHR ''0'') @ s"

definition digit_char :: "nat \<Rightarrow> char" where
  "digit_char d = char_of (48 + d)"

fun dec_of_nat :: "nat \<Rightarrow> string" where
  "dec_of_nat n = (if n < 10 then [digit_char n] else dec_of_nat (n div 10) @ [digit_char (n mod 10)])"

declare dec_of_nat.simps [simp del]

definition digit_val :: "char \<Rightarrow> nat option" where
  "digit_val c = (let n = of_char c :: nat in if 48 \<le> n \<and> n \<le> 57 then Some (n - 48) else None)"

lemma digit_val_digit_char [simp]: "d < 10 \<Longrightarrow> digit_val (digit_char d) = Some d"
  by (simp add: digit_val_def digit_char_def)

lemma digit_char_simps [simp]:
  "digit_char 0 = CHR ''0''" "digit_char 1 = CHR ''1''" "digit_char (Suc 0) = CHR ''1''" "digit_char 2 = CHR ''2''"
  "digit_char 3 = CHR ''3''" "digit_char 4 = CHR ''4''" "digit_char 5 = CHR ''5''" "digit_char 6 = CHR ''6''"
  "digit_char 7 = CHR ''7''" "digit_char 8 = CHR ''8''" "digit_char 9 = CHR ''9''"
  by (simp_all add: digit_char_def char_of_def bit_simps)

lemma dec_of_nat_nonempty [simp]: "dec_of_nat n \<noteq> []"
  by (subst dec_of_nat.simps) simp

lemma dec_of_nat_digits: "c \<in> set (dec_of_nat n) \<Longrightarrow> digit_val c \<noteq> None"
proof (induction n arbitrary: c rule: dec_of_nat.induct)
  case (1 n)
  show ?case
  proof (cases "n < 10")
    case True
    with 1 show ?thesis by (auto simp: dec_of_nat.simps [of n])
  next
    case False
    with 1 show ?thesis by (auto simp: dec_of_nat.simps [of n])
  qed
qed

section \<open>\<open>std::stoi\<close>\<close>

definition INT_MAX :: int where
  "INT_MAX = 2147483647"

definition in_int :: "int \<Rightarrow> bool" where
  "in_int i \<longleftrightarrow> - INT_MAX - 1 \<le> i \<and> i \<le> INT_MAX"

fun digits_val :: "nat \<Rightarrow> string \<Rightarrow> nat" where
  "digits_val a [] = a"
| "digits_val a (c # s) = (case digit_val c of None \<Rightarrow> a | Some d \<Rightarrow> digits_val (10 * a + d) s)"

text \<open>White space, a sign, digits, and anything after them; no digit or a value out of range throws.\<close>

definition stoi :: "string \<Rightarrow> int resl" where
  "stoi s =
     (let s = dropWhile isspace s;
          neg = (s \<noteq> [] \<and> hd s = CHR ''-'');
          s = (if s \<noteq> [] \<and> (hd s = CHR ''-'' \<or> hd s = CHR ''+'') then tl s else s)
      in if s = [] \<or> digit_val (hd s) = None then Inl (Std_Exception ''stoi'')
         else let v = (if neg then - int (digits_val 0 s) else int (digits_val 0 s))
              in if in_int v then Inr v else Inl (Std_Exception ''stoi''))"

lemma digits_val_append:
  "\<forall>c \<in> set s. digit_val c \<noteq> None \<Longrightarrow> digits_val a (s @ t) = digits_val (digits_val a s) t"
  by (induction s arbitrary: a) auto

lemma digits_val_dec [simp]: "digits_val 0 (dec_of_nat n) = n"
proof (induction n rule: dec_of_nat.induct)
  case (1 n)
  show ?case
  proof (cases "n < 10")
    case True
    then show ?thesis by (simp add: dec_of_nat.simps [of n])
  next
    case False
    have "digits_val 0 (dec_of_nat (n div 10) @ [digit_char (n mod 10)]) = n"
      using 1 [OF False] by (subst digits_val_append) (auto dest: dec_of_nat_digits)
    then show ?thesis using False by (simp add: dec_of_nat.simps [of n])
  qed
qed

lemma digit_not_space: "digit_val c \<noteq> None \<Longrightarrow> \<not> isspace c \<and> c \<noteq> CHR ''-'' \<and> c \<noteq> CHR ''+''"
  by (auto simp: digit_val_def isspace_def Let_def split: if_splits)

text \<open>Reading back what \<open>operator<<\<close> printed.\<close>

lemma stoi_dec [simp]:
  assumes "int n \<le> INT_MAX"
  shows "stoi (dec_of_nat n) = Inr (int n)"
proof -
  obtain c s where d: "dec_of_nat n = c # s" using dec_of_nat_nonempty [of n] by (cases "dec_of_nat n") auto
  have c: "digit_val c \<noteq> None" using dec_of_nat_digits [of c n] d by simp
  have "digits_val 0 (c # s) = n" using digits_val_dec [of n] d by simp
  then show ?thesis using assms digit_not_space [OF c] c
    by (simp add: stoi_def d Let_def in_int_def INT_MAX_def)
qed

end
