(* ===== verification/Wire_Codec.thy ===== *)
theory Wire_Codec
  imports Prelude
begin

text \<open>
  The contract of a binary encoding, as locales. \<open>wire_codec\<close>: the decoder reads an encoding
  back from the front of any longer buffer and reports its length. \<open>positional_codec\<close>: it does
  so at any offset of a message, which is what the DNS code needs for names and records. The
  lemmas proved here once (unique decodability, reading a run of encodings) hold for every
  encoding of the development that is shown to satisfy the contract.
\<close>

locale wire_codec =
  fixes enc :: "'a \<Rightarrow> bytes"
    and dec :: "bytes \<Rightarrow> ('a \<times> nat) outc"
    and ok :: "'a \<Rightarrow> bool"
  assumes dec_enc: "ok x \<Longrightarrow> dec (enc x @ post) = Some (Inr (x, length (enc x)))"
begin

lemma dec_enc_exact: "ok x \<Longrightarrow> dec (enc x) = Some (Inr (x, length (enc x)))"
  using dec_enc [of x "[]"] by simp

lemma prefix_free:
  assumes "ok x" "ok y" "enc x @ r = enc y @ s"
  shows "x = y \<and> r = s"
proof -
  have "Inr (x, length (enc x)) = (Inr (y, length (enc y)) :: ('a \<times> nat) resl)"
    using dec_enc [OF assms(1), of r] dec_enc [OF assms(2), of s] assms(3) by simp
  then show ?thesis using assms(3) by simp
qed

lemma enc_inj: "ok x \<Longrightarrow> ok y \<Longrightarrow> enc x = enc y \<longleftrightarrow> x = y"
  using prefix_free [of x y "[]" "[]"] by auto

lemma concat_enc_inj:
  assumes "\<forall>x \<in> set xs. ok x \<and> enc x \<noteq> []" "\<forall>y \<in> set ys. ok y \<and> enc y \<noteq> []"
    and "concat (map enc xs) = concat (map enc ys)"
  shows "xs = ys"
  using assms
proof (induction xs arbitrary: ys)
  case Nil
  then show ?case by (cases ys) simp_all
next
  case (Cons x xs)
  from Cons.prems(1,3) have "concat (map enc ys) \<noteq> []" by (metis append_is_Nil_conv concat.simps(2)
    list.set_intros(1) list.simps(9))
  then obtain y ys' where ys: "ys = y # ys'" by (cases ys) simp_all
  have "x = y \<and> concat (map enc xs) = concat (map enc ys')"
    using Cons.prems ys by (intro prefix_free) simp_all
  moreover have "xs = ys'" if "concat (map enc xs) = concat (map enc ys')"
    using Cons.prems ys that by (intro Cons.IH) simp_all
  ultimately show ?case using ys by simp
qed

end

locale positional_codec =
  fixes enc :: "'a \<Rightarrow> bytes"
    and dec_at :: "bytes \<Rightarrow> nat \<Rightarrow> ('a \<times> nat) outc"
    and ok :: "'a \<Rightarrow> bool"
  assumes dec_at_enc:
    "ok x \<Longrightarrow> dec_at (pre @ enc x @ post) (length pre) = Some (Inr (x, length (enc x)))"

sublocale positional_codec \<subseteq> wire_codec enc "\<lambda>bs. dec_at bs 0" ok
proof unfold_locales
  fix x post assume "ok x"
  then show "dec_at (enc x @ post) 0 = Some (Inr (x, length (enc x)))"
    using dec_at_enc [of x "[]" post] by simp
qed

text \<open>
  The loop \<open>for (i = 0; i < n; i++) { Item item; bytesCount += read(..., item); vec[i] = item; }\<close>:
  the \<open>k\<close> turns still to do, the index, the vector, the position. Storing past the vector's
  size is a fault.
\<close>

fun read_into :: "(bytes \<Rightarrow> nat \<Rightarrow> ('a \<times> nat) outc) \<Rightarrow> bytes \<Rightarrow> nat \<Rightarrow> nat \<Rightarrow> 'a list \<Rightarrow> nat
    \<Rightarrow> ('a list \<times> nat) outc" where
  "read_into rdr msg 0 i vec pos = Some (Inr (vec, pos))"
| "read_into rdr msg (Suc k) i vec pos =
     bind_out (rdr msg pos) (\<lambda>(item, c).
       if i < length vec then read_into rdr msg k (i + 1) (vec[i := item]) (pos + c)
       else Some (Inl Out_Of_Bounds))"

definition resize_vec :: "nat \<Rightarrow> 'a \<Rightarrow> 'a list \<Rightarrow> 'a list" where
  "resize_vec n d xs = take n xs @ replicate (n - length xs) d"

lemma length_resize_vec [simp]: "length (resize_vec n d xs) = n"
  by (simp add: resize_vec_def)

lemma read_into_length:
  "read_into rdr msg k i vec pos = Some (Inr (vec', pos')) \<Longrightarrow>
     length vec' = length vec \<and> (0 < k \<longrightarrow> i + k \<le> length vec)"
  by (induction k arbitrary: i vec pos) (fastforce simp: resl_simps split: if_splits)+

context positional_codec
begin

lemma read_into_enc:
  assumes "\<forall>x \<in> set xs. ok x" "length vec = i + length xs"
  shows "read_into dec_at (pre @ concat (map enc xs) @ post) (length xs) i vec (length pre)
         = Some (Inr (take i vec @ xs, length pre + length (concat (map enc xs))))"
  using assms
proof (induction xs arbitrary: pre i vec)
  case Nil
  then show ?case by simp
next
  case (Cons x xs)
  have "read_into dec_at ((pre @ enc x) @ concat (map enc xs) @ post) (length xs) (i + 1) (vec[i := x])
          (length (pre @ enc x))
        = Some (Inr (take (i + 1) (vec[i := x]) @ xs, length (pre @ enc x) + length (concat (map enc xs))))"
    using Cons.prems by (intro Cons.IH) simp_all
  moreover have "dec_at (pre @ enc x @ concat (map enc xs) @ post) (length pre)
                 = Some (Inr (x, length (enc x)))"
    using Cons.prems by (intro dec_at_enc) simp
  ultimately show ?case using Cons.prems by (simp add: take_Suc_conv_app_nth)
qed

end

end
