(* ===== verification/DNS_Message.thy ===== *)
theory DNS_Message
  imports Std_String Wire_Codec
begin

text \<open>
  \<open>dns/common: DNSMessage\<close>. The header record with its accessors on the packed flag word, the
  header codec, and the wire form of domain names (labels, compression pointers). The flag
  operations are polymorphic in the record extension, so they apply to the derived classes
  \<open>DNSQuery\<close> and \<open>DNSResponse\<close> as the inherited member functions do.
\<close>

section \<open>State\<close>

record dns_message =
  msg_id :: u16
  flags :: u16
  qCount :: u16
  aCount :: u16
  nsCount :: u16
  arCount :: u16

datatype QType = QT_A | QT_NS | QT_CNAME | QT_SOA | QT_MB | QT_WKS | QT_PTR | QT_HINFO | QT_MINFO
  | QT_MX | QT_TXT | QT_AXFR | QT_ANY

fun qtype_code :: "QType \<Rightarrow> u8" where
  "qtype_code QT_A = 1"
| "qtype_code QT_NS = 2"
| "qtype_code QT_CNAME = 5"
| "qtype_code QT_SOA = 6"
| "qtype_code QT_MB = 7"
| "qtype_code QT_WKS = 11"
| "qtype_code QT_PTR = 12"
| "qtype_code QT_HINFO = 13"
| "qtype_code QT_MINFO = 14"
| "qtype_code QT_MX = 15"
| "qtype_code QT_TXT = 16"
| "qtype_code QT_AXFR = 252"
| "qtype_code QT_ANY = 255"

section \<open>Flag word\<close>

definition getFlagQR :: "'a dns_message_scheme \<Rightarrow> bool" where
  "getFlagQR m \<longleftrightarrow> drop_bit 15 (flags m) = 1"

definition getFieldOpcode :: "'a dns_message_scheme \<Rightarrow> u8" where
  "getFieldOpcode m = ucast (drop_bit 11 (flags m) AND 0xF)"

definition getFlagAA :: "'a dns_message_scheme \<Rightarrow> bool" where
  "getFlagAA m \<longleftrightarrow> drop_bit 10 (flags m) AND 1 = 1"

definition getFlagTC :: "'a dns_message_scheme \<Rightarrow> bool" where
  "getFlagTC m \<longleftrightarrow> drop_bit 9 (flags m) AND 1 = 1"

definition getFlagRD :: "'a dns_message_scheme \<Rightarrow> bool" where
  "getFlagRD m \<longleftrightarrow> drop_bit 8 (flags m) AND 1 = 1"

definition getFlagRA :: "'a dns_message_scheme \<Rightarrow> bool" where
  "getFlagRA m \<longleftrightarrow> drop_bit 7 (flags m) AND 1 = 1"

definition getFieldRcode :: "'a dns_message_scheme \<Rightarrow> u8" where
  "getFieldRcode m = ucast (flags m AND 0xF)"

text \<open>The common shape \<open>flags |= 1 << k\<close> or \<open>flags &= ~(1 << k)\<close>.\<close>

definition put_flag :: "nat \<Rightarrow> bool \<Rightarrow> u16 \<Rightarrow> u16" where
  "put_flag k on w = (if on then w OR push_bit k 1 else w AND NOT (push_bit k 1))"

definition setFlagQR :: "bool \<Rightarrow> 'a dns_message_scheme \<Rightarrow> 'a dns_message_scheme" where
  "setFlagQR on m = m\<lparr>flags := put_flag 15 on (flags m)\<rparr>"

definition setFieldOpcode :: "u8 \<Rightarrow> 'a dns_message_scheme \<Rightarrow> 'a dns_message_scheme" where
  "setFieldOpcode opcode m =
     m\<lparr>flags := (flags m AND 0x87FF) OR push_bit 11 (ucast (opcode AND 0xF))\<rparr>"

definition setFlagAA :: "bool \<Rightarrow> 'a dns_message_scheme \<Rightarrow> 'a dns_message_scheme" where
  "setFlagAA on m = m\<lparr>flags := put_flag 10 on (flags m)\<rparr>"

definition setFlagTC :: "bool \<Rightarrow> 'a dns_message_scheme \<Rightarrow> 'a dns_message_scheme" where
  "setFlagTC on m = m\<lparr>flags := put_flag 9 on (flags m)\<rparr>"

definition setFlagRD :: "bool \<Rightarrow> 'a dns_message_scheme \<Rightarrow> 'a dns_message_scheme" where
  "setFlagRD on m = m\<lparr>flags := put_flag 8 on (flags m)\<rparr>"

definition setFlagRA :: "bool \<Rightarrow> 'a dns_message_scheme \<Rightarrow> 'a dns_message_scheme" where
  "setFlagRA on m = m\<lparr>flags := put_flag 7 on (flags m)\<rparr>"

definition setFieldRcode :: "u8 \<Rightarrow> 'a dns_message_scheme \<Rightarrow> 'a dns_message_scheme" where
  "setFieldRcode rcode m = m\<lparr>flags := (flags m AND 0xFFF0) OR ucast (rcode AND 0xF)\<rparr>"

lemmas flag_get_defs = getFlagQR_def getFieldOpcode_def getFlagAA_def getFlagTC_def getFlagRD_def
  getFlagRA_def getFieldRcode_def

lemmas flag_set_defs = setFlagQR_def setFieldOpcode_def setFlagAA_def setFlagTC_def setFlagRD_def
  setFlagRA_def setFieldRcode_def

text \<open>Every accessor is a question about bits of the word; the setters write bits.\<close>

lemma bit_0xF: "bit (0xF :: int) n \<longleftrightarrow> n < 4"
proof -
  have eq: "(0xF :: int) = mask 4" by (simp add: mask_numeral)
  show ?thesis unfolding eq bit_mask_iff by simp
qed

lemma bit_0xFFF0: "bit (0xFFF0 :: int) n \<longleftrightarrow> 4 \<le> n \<and> n < 16"
proof -
  have eq: "(0xFFF0 :: int) = push_bit 4 (mask 12)" by (simp add: mask_numeral)
  show ?thesis unfolding eq bit_push_bit_iff bit_mask_iff by auto
qed

lemma bit_0x87FF: "bit (0x87FF :: int) n \<longleftrightarrow> n < 11 \<or> n = 15"
proof -
  have eq: "(0x87FF :: int) = mask 11 OR push_bit 15 1" by (simp add: mask_numeral)
  show ?thesis unfolding eq bit_or_iff bit_push_bit_iff bit_mask_iff bit_1_iff by auto
qed

lemma bit_put_flag: "k < 16 \<Longrightarrow> bit (put_flag k on w) n = (if n = k then on else bit w n)"
  by (auto simp: put_flag_def bit_simps not_less dest: bit_imp_le_length)

lemma and_one_eq_one_word: "(w :: 'a::len word) AND 1 = 1 \<longleftrightarrow> bit w 0"
  by (metis and_one_eq bit_0 odd_iff_mod_2_eq_one)

lemma getFlagQR_bit: "getFlagQR m \<longleftrightarrow> bit (flags m) 15"
proof -
  have "bit (flags m) (15 + n) \<longleftrightarrow> n = 0 \<and> bit (flags m) 15" for n
    using bit_imp_le_length [of "flags m" "15 + n"] by (cases n) auto
  then have "drop_bit 15 (flags m) = (if bit (flags m) 15 then 1 else 0)"
    by (intro bit_word_eqI) (auto simp: bit_simps)
  then show ?thesis by (simp add: getFlagQR_def)
qed

lemma flag_bits [codec_simps]:
  "getFlagAA m \<longleftrightarrow> bit (flags m) 10"
  "getFlagTC m \<longleftrightarrow> bit (flags m) 9"
  "getFlagRD m \<longleftrightarrow> bit (flags m) 8"
  "getFlagRA m \<longleftrightarrow> bit (flags m) 7"
  by (simp_all add: flag_get_defs and_one_eq_one_word bit_drop_bit_eq)

lemma bit_getFieldOpcode: "bit (getFieldOpcode m) n \<longleftrightarrow> n < 4 \<and> bit (flags m) (11 + n)"
  by (auto simp: getFieldOpcode_def bit_simps bit_0xF)

lemma bit_getFieldRcode: "bit (getFieldRcode m) n \<longleftrightarrow> n < 4 \<and> bit (flags m) n"
  by (auto simp: getFieldRcode_def bit_simps bit_0xF)

lemmas flag_bit_simps = getFlagQR_bit flag_bits bit_getFieldOpcode bit_getFieldRcode
  bit_put_flag bit_0xF bit_0xFFF0 bit_0x87FF

lemma bit_setFieldOpcode:
  "bit (flags (setFieldOpcode v m)) n =
     (if 11 \<le> n \<and> n < 15 then bit v (n - 11) else bit (flags m) n)"
  by (auto simp: setFieldOpcode_def bit_simps flag_bit_simps dest: bit_imp_le_length)

lemma bit_setFieldRcode:
  "bit (flags (setFieldRcode v m)) n = (if n < 4 then bit v n else bit (flags m) n)"
  by (auto simp: setFieldRcode_def bit_simps flag_bit_simps dest: bit_imp_le_length)

section \<open>Reading back what was written, and nothing else\<close>

text \<open>The header fields as positions in the flag word (RFC 1035, 4.1.1).\<close>

lemma flags_word_eqI:
  assumes "getFlagQR m = getFlagQR m'" "getFieldOpcode m = getFieldOpcode m'"
    "getFlagAA m = getFlagAA m'" "getFlagTC m = getFlagTC m'" "getFlagRD m = getFlagRD m'"
    "getFlagRA m = getFlagRA m'" "getFieldRcode m = getFieldRcode m'"
    and "\<forall>n \<in> {4, 5, 6}. bit (flags m) n = bit (flags m') n"
  shows "flags m = flags m'"
proof (rule bit_word_eqI)
  fix n assume "n < LENGTH(16)"
  then consider "n < 4" | "n \<in> {4, 5, 6}" | "n \<in> {7, 8, 9, 10, 15}" | "11 \<le> n" "n - 11 < 4"
    by fastforce
  then show "bit (flags m) n = bit (flags m') n"
  proof cases
    case 1
    with assms(7) show ?thesis by (metis bit_getFieldRcode)
  next
    case 2
    with assms(8) show ?thesis by blast
  next
    case 3
    with assms(1,3-6) show ?thesis by (auto simp: flag_bit_simps)
  next
    case 4
    with assms(2) bit_getFieldOpcode [of m "n - 11"] bit_getFieldOpcode [of m' "n - 11"]
    show ?thesis by simp
  qed
qed

lemma opcode_after_set: "getFieldOpcode (setFieldOpcode v m) = v AND 0xF"
  by (rule bit_word_eqI) (auto simp: bit_getFieldOpcode bit_setFieldOpcode bit_simps bit_0xF)

lemma rcode_after_set: "getFieldRcode (setFieldRcode v m) = v AND 0xF"
  by (rule bit_word_eqI) (auto simp: bit_getFieldRcode bit_setFieldRcode bit_simps bit_0xF)

lemma bit_set_one_flag:
  "bit (flags (setFlagQR on m)) n = (if n = 15 then on else bit (flags m) n)"
  "bit (flags (setFlagAA on m)) n = (if n = 10 then on else bit (flags m) n)"
  "bit (flags (setFlagTC on m)) n = (if n = 9 then on else bit (flags m) n)"
  "bit (flags (setFlagRD on m)) n = (if n = 8 then on else bit (flags m) n)"
  "bit (flags (setFlagRA on m)) n = (if n = 7 then on else bit (flags m) n)"
  by (simp_all add: flag_set_defs bit_put_flag)

lemmas flag_set_bits = bit_set_one_flag bit_setFieldOpcode bit_setFieldRcode

lemma set_flag_other_fields [simp]:
  "msg_id (setFlagQR on m) = msg_id m" "msg_id (setFlagRD on m) = msg_id m"
  "msg_id (setFieldRcode v m) = msg_id m" "qCount (setFieldRcode v m) = qCount m"
  "aCount (setFieldRcode v m) = aCount m" "nsCount (setFieldRcode v m) = nsCount m"
  "arCount (setFieldRcode v m) = arCount m"
  by (simp_all add: flag_set_defs)

section \<open>Header codec\<close>

definition new_message :: "u16 \<Rightarrow> bool \<Rightarrow> dns_message" where
  "new_message i isResponse =
     (let m = \<lparr>msg_id = i, flags = 0, qCount = 0, aCount = 0, nsCount = 0, arCount = 0\<rparr>
      in if isResponse then setFlagQR True m else m)"

definition decodeHeader :: "bytes \<Rightarrow> 'a dns_message_scheme \<Rightarrow> ('a dns_message_scheme \<times> nat) resl" where
  "decodeHeader buffer m =
     bind_res (rd_be16 buffer 0) (\<lambda>i.
     bind_res (rd_be16 buffer 2) (\<lambda>f.
     bind_res (rd_be16 buffer 4) (\<lambda>q.
     bind_res (rd_be16 buffer 6) (\<lambda>a.
     bind_res (rd_be16 buffer 8) (\<lambda>ns.
     bind_res (rd_be16 buffer 10) (\<lambda>ar.
       Inr (m\<lparr>msg_id := i, flags := f, qCount := q, aCount := a, nsCount := ns, arCount := ar\<rparr>, 12)))))))"

definition encodeHeader :: "'a dns_message_scheme \<Rightarrow> bytes" where
  "encodeHeader m = be16 (msg_id m) @ be16 (flags m) @ be16 (qCount m) @ be16 (aCount m)
     @ be16 (nsCount m) @ be16 (arCount m)"

lemma length_encodeHeader [simp]: "length (encodeHeader m) = 12"
  by (simp add: encodeHeader_def)

lemma decodeHeader_encode [codec_simps]:
  "decodeHeader (encodeHeader m @ post) m0 =
     Inr (m0\<lparr>msg_id := msg_id m, flags := flags m, qCount := qCount m, aCount := aCount m,
             nsCount := nsCount m, arCount := arCount m\<rparr>, 12)"
  by (simp add: decodeHeader_def encodeHeader_def be16_def)

lemma decodeHeader_short:
  assumes "length buffer < 12"
  shows "decodeHeader buffer m = Inl Out_Of_Bounds"
proof -
  have "decodeHeader buffer m \<noteq> Inr r" for r
    using assms by (auto simp: decodeHeader_def resl_simps rd_be16_def)
  moreover have "decodeHeader buffer m = Inl e \<Longrightarrow> e = Out_Of_Bounds" for e
    by (auto simp: decodeHeader_def rd_be16_def bind_res_def rd_def split: sum.splits if_splits)
  ultimately show ?thesis by (cases "decodeHeader buffer m") auto
qed

lemma decodeHeader_long:
  assumes "12 \<le> length buffer"
  shows "\<exists>m'. decodeHeader buffer m = Inr (m', 12)"
  using assms by (simp add: decodeHeader_def)

interpretation header: wire_codec encodeHeader
  "\<lambda>bs. Some (decodeHeader bs (new_message 0 False))" "\<lambda>m. True"
  by unfold_locales (simp add: decodeHeader_encode)

end
