(* ===== verification/DNS_Name.thy ===== *)
theory DNS_Name
  imports DNS_Message
begin

text \<open>
  Domain names on the wire: \<open>DNSMessage::encodeDomainName\<close>, \<open>DNSMessage::decodeDomainName\<close> (with
  compression pointers), \<open>DNSQuery::decodeName\<close> (without), and the loop of
  \<open>dns_response.cpp\<close> that follows pointers until a name ends. A pointer \<open>data\<close> into a buffer is
  the pair of the buffer and a position. The pointer loop may never end, so it is a
  \<open>partial_function (option)\<close>: \<open>None\<close> is "does not return".
\<close>

section \<open>Encoding\<close>

function encode_labels :: "string \<Rightarrow> nat \<Rightarrow> bytes" where
  "encode_labels name p0 =
     (case find_char_from (CHR ''.'') name p0 of
        Some p1 \<Rightarrow> of_nat (p1 - p0) # to_bytes (take (p1 - p0) (drop p0 name))
                   @ encode_labels name (p1 + 1)
      | None \<Rightarrow> of_nat (length name - p0) # to_bytes (drop p0 name))"
  by pat_completeness auto
termination
proof (relation "measure (\<lambda>(name, p0). length name - p0)")
  fix name p0 p1 assume "find_char_from (CHR ''.'') name p0 = Some p1"
  then have "p0 \<le> p1" "p1 < length name" by (rule find_char_from_Some)+
  then show "((name, p1 + 1), (name, p0)) \<in> measure (\<lambda>(name, p0). length name - p0)" by simp
qed simp

declare encode_labels.simps [simp del]

definition encodeDomainName :: "string \<Rightarrow> bytes" where
  "encodeDomainName name = encode_labels name 0 @ [0]"

section \<open>Decoding\<close>

definition pointer_target :: "u8 \<Rightarrow> u8 \<Rightarrow> nat" where
  "pointer_target hi lo = unat (hi AND 0x3F) * 256 + unat lo"

text \<open>The labels from a length octet at \<open>pos\<close>: (bytes counted, name, offset).\<close>

function decode_labels :: "bytes \<Rightarrow> nat \<Rightarrow> string \<Rightarrow> nat \<Rightarrow> (nat \<times> string \<times> nat) resl" where
  "decode_labels data pos name bytesCount =
     bind_res (rd data pos) (\<lambda>len.
       if len = 0 then Inr (bytesCount + 1, name, 0)
       else bind_res (rd_range data (pos + 1) (unat len)) (\<lambda>label.
         let pos' = pos + 1 + unat len; name' = name @ of_bytes label;
             bytesCount' = bytesCount + 1 + unat len
         in bind_res (rd data pos') (\<lambda>b.
              if b AND 0xC0 \<noteq> 0
              then bind_res (rd data (pos' + 1)) (\<lambda>lo.
                     Inr (bytesCount' + 2, name', pointer_target b lo))
              else decode_labels data pos' (if b \<noteq> 0 then name' @ ''.'' else name') bytesCount')))"
  by pat_completeness auto
termination
  by (relation "measure (\<lambda>(data, pos, name, n). length data - pos)") (auto simp: rd_eq_Inr)

declare decode_labels.simps [simp del]

definition decodeDomainName :: "bytes \<Rightarrow> nat \<Rightarrow> (nat \<times> string \<times> nat) resl" where
  "decodeDomainName data pos =
     bind_res (rd data pos) (\<lambda>b.
       if b AND 0xC0 \<noteq> 0
       then bind_res (rd data (pos + 1)) (\<lambda>lo. Inr (2, [], pointer_target b lo))
       else decode_labels data pos [] 0)"

text \<open>\<open>DNSQuery::decodeName\<close>: the same loop, every non-zero octet a length.\<close>

function decode_name_labels :: "bytes \<Rightarrow> nat \<Rightarrow> string \<Rightarrow> nat \<Rightarrow> (string \<times> nat) resl" where
  "decode_name_labels data pos name bytesCount =
     bind_res (rd data pos) (\<lambda>len.
       if len = 0 then Inr (name, bytesCount + 1)
       else bind_res (rd_range data (pos + 1) (unat len)) (\<lambda>label.
         let pos' = pos + 1 + unat len; name' = name @ of_bytes label
         in bind_res (rd data pos') (\<lambda>b.
              decode_name_labels data pos' (if b \<noteq> 0 then name' @ ''.'' else name')
                (bytesCount + 1 + unat len))))"
  by pat_completeness auto
termination
  by (relation "measure (\<lambda>(data, pos, name, n). length data - pos)") (auto simp: rd_eq_Inr)

declare decode_name_labels.simps [simp del]

definition decodeName :: "bytes \<Rightarrow> nat \<Rightarrow> (string \<times> nat) resl" where
  "decodeName data pos = decode_name_labels data pos [] 0"

partial_function (option) follow_pointers :: "bytes \<Rightarrow> nat \<Rightarrow> string \<Rightarrow> string resl option" where
  "follow_pointers msg offset name =
     (if offset = 0 then Some (Inr name)
      else case decodeDomainName msg offset of
             Inl e \<Rightarrow> Some (Inl e)
           | Inr (n, part, offset') \<Rightarrow>
               follow_pointers msg offset' ((if name \<noteq> [] then name @ ''.'' else name) @ part))"

section \<open>Names as lists of labels\<close>

definition dot_free :: "string \<Rightarrow> bool" where
  "dot_free l \<longleftrightarrow> CHR ''.'' \<notin> set l"

text \<open>The octets of a list of labels, and labels the DNS accepts (RFC 1035, 2.3.4).\<close>

definition wire_label :: "string \<Rightarrow> bytes" where
  "wire_label l = of_nat (length l) # to_bytes l"

definition wire_labels :: "string list \<Rightarrow> bytes" where
  "wire_labels ls = concat (map wire_label ls)"

definition valid_label :: "nat \<Rightarrow> string \<Rightarrow> bool" where
  "valid_label m l \<longleftrightarrow> l \<noteq> [] \<and> length l < m \<and> dot_free l"

lemma wire_labels_simps [simp]:
  "wire_labels [] = []" "wire_labels (l # ls) = wire_label l @ wire_labels ls"
  "wire_labels (ls @ ms) = wire_labels ls @ wire_labels ms"
  by (simp_all add: wire_labels_def)

lemma length_wire_label [simp]: "length (wire_label l) = length l + 1"
  by (simp add: wire_label_def)

lemma length_wire_labels: "ls \<noteq> [] \<Longrightarrow> length (wire_labels ls) = length (join_with (CHR ''.'') ls) + 1"
  by (induction "CHR ''.''" ls rule: join_with.induct) auto

text \<open>\<open>dots s\<close> splits at every dot, empty labels included.\<close>

fun dots :: "string \<Rightarrow> string list" where
  "dots [] = [[]]"
| "dots (c # s) = (if c = CHR ''.'' then [] # dots s
                   else (case dots s of [] \<Rightarrow> [[c]] | l # ls \<Rightarrow> (c # l) # ls))"

lemma dots_nonempty [simp]: "dots s \<noteq> []"
  by (induction s) (auto split: list.splits)

lemma join_dots [simp]: "join_with (CHR ''.'') (dots s) = s"
proof (induction s)
  case (Cons c s)
  then show ?case
    by (cases "dots s"; cases "tl (dots s)") (auto simp: join_with_Cons)
qed simp

lemma dots_dot_free: "l \<in> set (dots s) \<Longrightarrow> dot_free l"
  by (induction s arbitrary: l) (auto simp: dot_free_def split: if_splits list.splits)

lemma dots_append: "dot_free l \<Longrightarrow> dots (l @ CHR ''.'' # s) = l # dots s"
  by (induction l) (auto simp: dot_free_def)

lemma dots_single: "dot_free l \<Longrightarrow> dots l = [l]"
  by (induction l) (auto simp: dot_free_def)

lemma dots_join:
  "ls \<noteq> [] \<Longrightarrow> \<forall>l \<in> set ls. dot_free l \<Longrightarrow> dots (join_with (CHR ''.'') ls) = ls"
  by (induction "CHR ''.''" ls rule: join_with.induct) (auto simp: dots_append dots_single)

text \<open>The index loop of \<open>encodeDomainName\<close> writes exactly the labels of the name.\<close>

lemma encode_labels_eq: "p0 \<le> length name \<Longrightarrow> encode_labels name p0 = wire_labels (dots (drop p0 name))"
proof (induction name p0 rule: encode_labels.induct)
  case (1 name p0)
  show ?case
  proof (cases "find_char_from (CHR ''.'') name p0")
    case None
    then have "dot_free (drop p0 name)"
      by (simp add: find_char_from_def find_char_None dot_free_def)
    with None "1.prems" show ?thesis
      by (simp add: encode_labels.simps [of name p0] dots_single wire_label_def)
  next
    case (Some p1)
    then obtain k where k: "find_char (CHR ''.'') (drop p0 name) = Some k" "p1 = p0 + k"
      by (auto simp: find_char_from_def)
    note p = find_char_from_Some [OF Some]
    have "drop p0 name = take k (drop p0 name) @ CHR ''.'' # drop (p1 + 1) name"
      using find_char_Some_split [OF k(1)] k(2) by (simp add: add_ac)
    moreover have "dot_free (take k (drop p0 name))"
      using find_char_Some_notin [OF k(1)] by (simp add: dot_free_def)
    ultimately have "dots (drop p0 name) = take k (drop p0 name) # dots (drop (p1 + 1) name)"
      by (metis dots_append)
    moreover have "length (take k (drop p0 name)) = k" using p k by simp
    ultimately show ?thesis
      using "1.IH" [OF Some] Some p k
      by (simp add: encode_labels.simps [of name p0] wire_label_def)
  qed
qed

lemma encodeDomainName_wire: "encodeDomainName name = wire_labels (dots name) @ [0]"
  by (simp add: encodeDomainName_def encode_labels_eq)

lemma length_encodeDomainName [simp]: "length (encodeDomainName name) = length name + 2"
  by (simp add: encodeDomainName_wire length_wire_labels)

section \<open>Decoding what was encoded\<close>

lemma small_not_pointer [simp]: "n < 64 \<Longrightarrow> (of_nat n :: u8) AND 0xC0 = 0"
proof -
  assume n: "n < 64"
  have "unat (drop_bit 6 (of_nat n :: u8)) = drop_bit 6 n"
    using n by (simp only: unat_drop_bit_eq) simp
  also have "\<dots> = 0" using n by (simp add: drop_bit_eq_div)
  finally have "drop_bit 6 (of_nat n :: u8) = 0" by (metis unat_eq_zero)
  then have "\<not> bit (of_nat n :: u8) (6 + k)" for k
    by (metis bit_0_eq bit_drop_bit_eq bot_apply bot_bool_def comp_apply)
  then have "\<not> bit (of_nat n :: u8) k" if "6 \<le> k" for k
    using that by (metis le_add_diff_inverse)
  moreover have "bit (0xC0 :: int) k \<longleftrightarrow> 6 \<le> k \<and> k < 8" for k
  proof -
    have eq: "(0xC0 :: int) = push_bit 6 (mask 2)" by (simp add: mask_numeral)
    show ?thesis unfolding eq bit_push_bit_iff bit_mask_iff by auto
  qed
  ultimately show ?thesis by (intro bit_word_eqI) (auto simp: bit_simps)
qed

text \<open>One label, then whatever octet follows it.\<close>

lemma decode_labels_label:
  assumes "valid_label 256 l"
  shows "decode_labels (pre @ wire_label l @ b # rest) (length pre) name cnt =
    (if b AND 0xC0 \<noteq> 0
     then bind_res (rd rest 0) (\<lambda>lo. Inr (cnt + length l + 3, name @ l, pointer_target b lo))
     else decode_labels ((pre @ wire_label l) @ b # rest) (length (pre @ wire_label l))
            (if b = 0 then name @ l else name @ l @ ''.'') (cnt + length l + 1))"
proof -
  let ?d = "pre @ wire_label l @ b # rest"
  have l: "0 < length l" "length l < 256" using assms by (auto simp: valid_label_def)
  have 1: "rd ?d (length pre) = Inr (of_nat (length l))"
    by (simp add: wire_label_def)
  have 2: "rd_range ?d (length pre + 1) (length l) = Inr (to_bytes l)"
    by (simp add: rd_range_def wire_label_def)
  have 3: "rd ?d (length pre + 1 + length l) = Inr b"
    using rd_prefix [of "pre @ wire_label l" b rest] by simp
  have 4: "rd ?d (length pre + 1 + length l + 1) = rd rest 0"
    by (simp add: rd_def nth_append wire_label_def)
  show ?thesis
    using l 1 2 3 4
    by (subst decode_labels.simps) (simp add: Let_def add_ac eval_nat_numeral del: rd_in rd_append_left)
qed

lemma decode_labels_end [simp]:
  "decode_labels (pre @ 0 # rest) (length pre) name cnt = Inr (cnt + 1, name, 0)"
  by (subst decode_labels.simps) simp

lemma decode_labels_wire:
  assumes "\<forall>l \<in> set ls. valid_label 64 l" "ls \<noteq> []"
  shows "decode_labels (pre @ wire_labels ls @ b # rest) (length pre) name cnt =
    (if b AND 0xC0 \<noteq> 0
     then bind_res (rd rest 0) (\<lambda>lo. Inr (cnt + length (wire_labels ls) + 2,
            name @ join_with (CHR ''.'') ls, pointer_target b lo))
     else decode_labels ((pre @ wire_labels ls) @ b # rest) (length (pre @ wire_labels ls))
            (name @ join_with (CHR ''.'') ls @ (if b = 0 then [] else ''.''))
            (cnt + length (wire_labels ls)))"
  using assms
proof (induction ls arbitrary: pre name cnt)
  case (Cons l ls)
  have l: "valid_label 256 l" "valid_label 64 l" using Cons.prems by (auto simp: valid_label_def)
  show ?case
  proof (cases ls)
    case Nil
    then show ?thesis
      using decode_labels_label [OF l(1), of pre b rest name cnt] by (simp add: eval_nat_numeral)
  next
    case (Cons m ms)
    have m: "valid_label 64 m" using Cons \<open>\<forall>l \<in> set (l # ls). valid_label 64 l\<close> by simp
    let ?b = "of_nat (length m) :: u8" and ?r = "to_bytes m @ wire_labels ms @ b # rest"
    have w: "wire_labels ls @ b # rest = ?b # ?r" using Cons by (simp add: wire_label_def)
    have b: "?b AND 0xC0 = 0" "?b \<noteq> 0" using m by (auto simp: valid_label_def)
    have "decode_labels (pre @ wire_label l @ ?b # ?r) (length pre) name cnt =
      decode_labels ((pre @ wire_label l) @ ?b # ?r) (length (pre @ wire_label l))
        (name @ l @ ''.'') (cnt + length l + 1)"
      using decode_labels_label [OF l(1), of pre ?b ?r name cnt] b by simp
    then show ?thesis
      using Cons.IH [of "pre @ wire_label l" "name @ l @ ''.''" "cnt + length l + 1"]
        Cons.prems Cons w by (simp add: join_with_Cons add_ac)
  qed
qed simp

lemma decodeDomainName_labels:
  assumes "\<forall>l \<in> set ls. valid_label 64 l" "ls \<noteq> []"
  shows "decodeDomainName (pre @ wire_labels ls @ rest) (length pre)
         = decode_labels (pre @ wire_labels ls @ rest) (length pre) [] 0"
proof -
  obtain l ms where ls: "ls = l # ms" using assms(2) by (cases ls) auto
  then have "(of_nat (length l) :: u8) AND 0xC0 = 0" using assms(1) by (simp add: valid_label_def)
  then show ?thesis using ls by (simp add: decodeDomainName_def wire_label_def)
qed

definition valid_name :: "nat \<Rightarrow> string \<Rightarrow> bool" where
  "valid_name m name \<longleftrightarrow> (\<forall>l \<in> set (dots name). valid_label m l)"

text \<open>A whole name, closed by the root octet.\<close>

lemma decodeDomainName_encode [codec_simps]:
  assumes "valid_name 64 name"
  shows "decodeDomainName (pre @ encodeDomainName name @ post) (length pre)
         = Inr (length name + 2, name, 0)"
  using decodeDomainName_labels [of "dots name" pre "0 # post"] assms
    decode_labels_wire [of "dots name" pre 0 post "[]" 0]
    decode_labels_end [of "pre @ wire_labels (dots name)" post]
  by (simp add: valid_name_def encodeDomainName_wire length_wire_labels)

text \<open>Labels followed by a compression pointer.\<close>

lemma decodeDomainName_pointer [codec_simps]:
  assumes "\<forall>l \<in> set ls. valid_label 64 l" "hi AND 0xC0 \<noteq> 0"
  shows "decodeDomainName (pre @ wire_labels ls @ hi # lo # post) (length pre)
         = Inr (length (wire_labels ls) + 2, join_with (CHR ''.'') ls, pointer_target hi lo)"
proof (cases "ls = []")
  case True
  with assms(2) show ?thesis
    by (simp add: decodeDomainName_def rd_def nth_append)
next
  case False
  with assms show ?thesis
    by (simp add: decodeDomainName_labels decode_labels_wire)
qed

section \<open>What a decoded name can be\<close>

lemma pointer_target_bound: "pointer_target hi lo < 16384"
proof -
  have "unat (hi AND 0x3F) \<le> unat (0x3F :: u8)"
    by (rule word_and_le1 [THEN word_le_nat_alt [THEN iffD1]])
  then have "unat (hi AND 0x3F) \<le> 63" by simp
  moreover have "unat lo < 256" using unsigned_less [of lo] by simp
  ultimately show ?thesis by (simp add: pointer_target_def)
qed

lemma decode_labels_bounds:
  "decode_labels data pos name cnt = Inr (n, s, off) \<Longrightarrow>
     cnt < n \<and> pos + n \<le> length data + cnt \<and> length s + cnt < length name + n \<and> off < 16384"
proof (induction data pos name cnt rule: decode_labels.induct)
  case (1 data pos name cnt)
  from "1.prems" obtain len where len: "rd data pos = Inr len"
    by (subst (asm) decode_labels.simps) (auto simp: bind_res_eq_Inr)
  show ?case
  proof (cases "len = 0")
    case True
    with "1.prems" len show ?thesis
      by (subst (asm) decode_labels.simps) (auto simp: rd_eq_Inr)
  next
    case False
    let ?p = "pos + 1 + unat len"
    from "1.prems" len False obtain label b where
      lab: "rd_range data (pos + 1) (unat len) = Inr label" and b: "rd data ?p = Inr b"
      by (subst (asm) decode_labels.simps) (auto simp: bind_res_eq_Inr Let_def)
    have ll: "length label = unat len" "?p < length data"
      using lab b by (auto simp: rd_range_eq_Inr rd_eq_Inr)
    show ?thesis
    proof (cases "b AND 0xC0 = 0")
      case True
      with "1.prems" len False lab b
      have "decode_labels data ?p (if b \<noteq> 0 then (name @ of_bytes label) @ ''.'' else name @ of_bytes label)
              (cnt + 1 + unat len) = Inr (n, s, off)"
        by (subst (asm) decode_labels.simps) (simp add: Let_def)
      from "1.IH" [OF len False lab refl refl refl b _ this] True ll
      show ?thesis by (simp split: if_splits)
    next
      case nz: False
      with "1.prems" len False lab b obtain lo where
        "rd data (?p + 1) = Inr lo" "n = cnt + 1 + unat len + 2" "s = name @ of_bytes label"
        "off = pointer_target b lo"
        by (subst (asm) decode_labels.simps) (auto simp: Let_def bind_res_eq_Inr)
      with ll show ?thesis by (simp add: rd_eq_Inr pointer_target_bound)
    qed
  qed
qed

lemma decodeDomainName_bounds:
  "decodeDomainName data pos = Inr (n, s, off) \<Longrightarrow>
     0 < n \<and> pos + n \<le> length data \<and> length s < n \<and> off < 16384"
  using decode_labels_bounds [of data pos "[]" 0]
  by (auto simp: decodeDomainName_def bind_res_eq_Inr rd_eq_Inr pointer_target_bound split: if_splits)

section \<open>The query's own decoder\<close>

text \<open>It takes labels of up to 255 octets, and dots inside a label.\<close>

definition octet_label :: "string \<Rightarrow> bool" where
  "octet_label l \<longleftrightarrow> l \<noteq> [] \<and> length l < 256"

lemma valid_octet_label: "valid_label 256 l \<Longrightarrow> octet_label l"
  by (simp add: valid_label_def octet_label_def)

lemma decode_name_labels_label:
  assumes "octet_label l"
  shows "decode_name_labels (pre @ wire_label l @ b # rest) (length pre) name cnt =
    decode_name_labels ((pre @ wire_label l) @ b # rest) (length (pre @ wire_label l))
      (if b = 0 then name @ l else name @ l @ ''.'') (cnt + length l + 1)"
proof -
  let ?d = "pre @ wire_label l @ b # rest"
  have l: "0 < length l" "length l < 256" using assms by (auto simp: octet_label_def)
  have 1: "rd ?d (length pre) = Inr (of_nat (length l))"
    by (simp add: wire_label_def)
  have 2: "rd_range ?d (length pre + 1) (length l) = Inr (to_bytes l)"
    by (simp add: rd_range_def wire_label_def)
  have 3: "rd ?d (length pre + 1 + length l) = Inr b"
    using rd_prefix [of "pre @ wire_label l" b rest] by simp
  show ?thesis
    using l 1 2 3
    by (subst decode_name_labels.simps) (simp add: Let_def add_ac del: rd_in rd_append_left)
qed

lemma decode_name_labels_end [simp]:
  "decode_name_labels (pre @ 0 # rest) (length pre) name cnt = Inr (name, cnt + 1)"
  by (subst decode_name_labels.simps) simp

lemma decode_name_labels_wire:
  assumes "\<forall>l \<in> set ls. octet_label l" "ls \<noteq> []"
  shows "decode_name_labels (pre @ wire_labels ls @ 0 # rest) (length pre) name cnt =
    Inr (name @ join_with (CHR ''.'') ls, cnt + length (wire_labels ls) + 1)"
  using assms
proof (induction ls arbitrary: pre name cnt)
  case (Cons l ls)
  have l: "octet_label l" using Cons.prems by simp
  show ?case
  proof (cases ls)
    case Nil
    then show ?thesis
      using decode_name_labels_label [OF l(1), of pre 0 rest name cnt]
        decode_name_labels_end [of "pre @ wire_label l" rest] by simp
  next
    case (Cons m ms)
    let ?b = "of_nat (length m) :: u8" and ?r = "to_bytes m @ wire_labels ms @ 0 # rest"
    have w: "wire_labels ls @ 0 # rest = ?b # ?r" using Cons by (simp add: wire_label_def)
    have b: "?b \<noteq> 0" using Cons \<open>\<forall>l \<in> set (l # ls). octet_label l\<close>
      by (auto simp: octet_label_def)
    have "decode_name_labels (pre @ wire_label l @ ?b # ?r) (length pre) name cnt =
      decode_name_labels ((pre @ wire_label l) @ ?b # ?r) (length (pre @ wire_label l))
        (name @ l @ ''.'') (cnt + length l + 1)"
      using decode_name_labels_label [OF l(1), of pre ?b ?r name cnt] b by simp
    then show ?thesis
      using Cons.IH [of "pre @ wire_label l" "name @ l @ ''.''" "cnt + length l + 1"]
        Cons.prems Cons w by (simp add: join_with_Cons add_ac)
  qed
qed simp

lemma decodeName_encode [codec_simps]:
  assumes "valid_name 256 name"
  shows "decodeName (pre @ encodeDomainName name @ post) (length pre) = Inr (name, length name + 2)"
  using decode_name_labels_wire [of "dots name" pre post "[]" 0] assms
  by (simp add: valid_name_def valid_octet_label decodeName_def encodeDomainName_wire length_wire_labels)

interpretation query_name: positional_codec encodeDomainName
  "\<lambda>data pos. Some (decodeName data pos)" "valid_name 256"
  by unfold_locales (simp add: decodeName_encode)

interpretation domain_name: positional_codec encodeDomainName
  "\<lambda>data pos. Some (bind_res (decodeDomainName data pos) (\<lambda>(n, name, off). Inr (name, n)))"
  "valid_name 64"
  by unfold_locales (simp add: decodeDomainName_encode)

section \<open>Following compression pointers\<close>

lemma follow_pointers_0 [simp]: "follow_pointers msg 0 name = Some (Inr name)"
  by (simp add: follow_pointers.simps)

lemma follow_pointers_step:
  "offset \<noteq> 0 \<Longrightarrow> decodeDomainName msg offset = Inr (n, part, offset') \<Longrightarrow>
    follow_pointers msg offset name =
      follow_pointers msg offset' ((if name \<noteq> [] then name @ ''.'' else name) @ part)"
  by (simp add: follow_pointers.simps [of msg offset])

text \<open>A set of positions closed under following, none of them the end: the loop never returns.\<close>

lemma follow_pointers_cycle:
  assumes closed: "\<And>p. p \<in> S \<Longrightarrow> p \<noteq> 0 \<and> (\<exists>n part p'. decodeDomainName msg p = Inr (n, part, p') \<and> p' \<in> S)"
    and "offset \<in> S"
  shows "follow_pointers msg offset name = None"
proof (rule ccontr)
  assume "follow_pointers msg offset name \<noteq> None"
  then obtain r where "follow_pointers msg offset name = Some r" by blast
  then have "msg = msg \<longrightarrow> offset \<notin> S"
  proof (rule follow_pointers.raw_induct [where P = "\<lambda>m off nm r. m = msg \<longrightarrow> off \<notin> S", rotated])
    fix f m off nm r
    assume IH: "\<And>m off nm r. f m off nm = Some r \<Longrightarrow> m = msg \<longrightarrow> off \<notin> S"
      and eq: "(if off = 0 then Some (Inr nm)
        else case decodeDomainName m off of Inl e \<Rightarrow> Some (Inl e)
        | Inr (n, part, off') \<Rightarrow> f m off' ((if nm \<noteq> [] then nm @ ''.'' else nm) @ part)) = Some r"
    show "m = msg \<longrightarrow> off \<notin> S"
    proof (intro impI notI)
      assume "m = msg" "off \<in> S"
      with closed [of off] eq IH show False by (auto split: if_splits)
    qed
  qed
  with assms(2) show False by simp
qed

text \<open>From a set of positions that point only backwards and into the set, the loop returns.\<close>

lemma follow_pointers_backward:
  assumes "\<And>p n part p'. p \<in> S \<Longrightarrow> decodeDomainName msg p = Inr (n, part, p') \<Longrightarrow>
      p' = 0 \<or> p' < p \<and> p' \<in> S"
    and "offset = 0 \<or> offset \<in> S"
  shows "\<exists>r. follow_pointers msg offset name = Some r"
  using assms(2)
proof (induction offset arbitrary: name rule: less_induct)
  case (less offset)
  show ?case
  proof (cases "offset = 0 \<or> (\<exists>e. decodeDomainName msg offset = Inl e)")
    case True
    then show ?thesis by (auto simp: follow_pointers.simps [of msg offset])
  next
    case False
    then obtain n part p' where d: "decodeDomainName msg offset = Inr (n, part, p')"
      by (cases "decodeDomainName msg offset") auto
    with assms(1) less.prems False have "p' = 0 \<or> p' < offset \<and> p' \<in> S" by blast
    with less.IH d False show ?thesis
      by (cases "p' = 0") (auto simp: follow_pointers_step)
  qed
qed

end
