(* ===== verification/DNS_Query.thy ===== *)
theory DNS_Query
  imports DNS_Name
begin

text \<open>
  \<open>dns/common: DNSQuery\<close>, a \<open>DNSMessage\<close> with one question: its setters, encoder and decoder,
  and the round trip between them.
\<close>

section \<open>State and setters\<close>

record dns_query = dns_message +
  qname :: string
  qtype :: u16
  qclass :: u16

definition new_query :: dns_query where
  "new_query = \<lparr>msg_id = 0, flags = 0, qCount = 0, aCount = 0, nsCount = 0, arCount = 0,
     qname = [], qtype = 0, qclass = 1\<rparr>"

definition query_setType :: "QType \<Rightarrow> dns_query \<Rightarrow> dns_query" where
  "query_setType t q = q\<lparr>qtype := ucast (qtype_code t)\<rparr>"

definition setUseRecursion :: "bool \<Rightarrow> dns_query \<Rightarrow> dns_query" where
  "setUseRecursion on q = setFlagRD on q"

section \<open>Codec\<close>

definition decodeQuery :: "bytes \<Rightarrow> dns_query \<Rightarrow> (dns_query \<times> nat) resl" where
  "decodeQuery buffer q =
     bind_res (decodeHeader buffer q) (\<lambda>(q, n).
     bind_res (decodeName buffer n) (\<lambda>(name, c).
     bind_res (rd_be16 buffer (n + c)) (\<lambda>t.
     bind_res (rd_be16 buffer (n + c + 2)) (\<lambda>cls.
       Inr (q\<lparr>qname := name, qtype := t, qclass := cls\<rparr>, n + c + 4)))))"

definition encodeQuery :: "dns_query \<Rightarrow> bytes" where
  "encodeQuery q = encodeHeader q @ encodeDomainName (qname q) @ be16 (qtype q) @ be16 (qclass q)"

lemma length_encodeQuery [simp]: "length (encodeQuery q) = length (qname q) + 18"
  by (simp add: encodeQuery_def)

lemma rd_be16_at_len [codec_simps]:
  "i = length xs \<Longrightarrow> rd_be16 (xs @ be16 w @ ys) i = Inr w"
  by simp

lemma rd_be32_at_len [codec_simps]:
  "i = length xs \<Longrightarrow> rd_be32 (xs @ be32 w @ ys) i = Inr w"
  by simp

lemma decodeQuery_encode [codec_simps]:
  assumes "valid_name 256 (qname q)"
  shows "decodeQuery (encodeQuery q @ post) q0 = Inr (q, length (encodeQuery q))"
proof -
  let ?h = "encodeHeader q" and ?n = "encodeDomainName (qname q)"
  let ?buf = "?h @ ?n @ be16 (qtype q) @ be16 (qclass q) @ post"
  have name: "decodeName ?buf 12 = Inr (qname q, length (qname q) + 2)"
    using decodeName_encode [OF assms, of ?h] by simp
  have "rd_be16 ((?h @ ?n) @ be16 (qtype q) @ be16 (qclass q) @ post) (length (?h @ ?n)) = Inr (qtype q)"
    by (rule rd_be16_at)
  moreover have "rd_be16 ((?h @ ?n @ be16 (qtype q)) @ be16 (qclass q) @ post)
      (length (?h @ ?n @ be16 (qtype q))) = Inr (qclass q)"
    by (rule rd_be16_at)
  ultimately show ?thesis using name
    by (simp add: decodeQuery_def encodeQuery_def decodeHeader_encode add_ac
        del: rd_be16_at rd_be16_ok)
qed

interpretation query: wire_codec encodeQuery "\<lambda>bs. Some (decodeQuery bs new_query)"
  "\<lambda>q. valid_name 256 (qname q)"
  by unfold_locales (simp add: decodeQuery_encode)

lemma decode_name_labels_bounds:
  "decode_name_labels data pos name cnt = Inr (s, n) \<Longrightarrow>
     cnt < n \<and> pos + n \<le> length data + cnt \<and> length s + cnt < length name + n"
proof (induction data pos name cnt rule: decode_name_labels.induct)
  case (1 data pos name cnt)
  from "1.prems" obtain len where len: "rd data pos = Inr len"
    by (subst (asm) decode_name_labels.simps) (auto simp: bind_res_eq_Inr)
  show ?case
  proof (cases "len = 0")
    case True
    with "1.prems" len show ?thesis
      by (subst (asm) decode_name_labels.simps) (auto simp: rd_eq_Inr)
  next
    case False
    let ?p = "pos + 1 + unat len"
    from "1.prems" len False obtain label b where
      lab: "rd_range data (pos + 1) (unat len) = Inr label" and b: "rd data ?p = Inr b"
      by (subst (asm) decode_name_labels.simps) (auto simp: bind_res_eq_Inr Let_def)
    with "1.prems" len False
    have "decode_name_labels data ?p (if b \<noteq> 0 then (name @ of_bytes label) @ ''.'' else name @ of_bytes label)
            (cnt + 1 + unat len) = Inr (s, n)"
      by (subst (asm) decode_name_labels.simps) (simp add: Let_def)
    note "1.IH" [OF len False lab refl refl b this] b
    moreover have "length label = unat len" using lab b by (auto simp: rd_range_eq_Inr rd_eq_Inr)
    ultimately show ?thesis by (simp add: rd_eq_Inr split: if_splits)
  qed
qed

lemma decodeQuery_bounds:
  "decodeQuery buffer q0 = Inr (q, n) \<Longrightarrow> n \<le> length buffer \<and> 17 \<le> n \<and> length (qname q) + 17 \<le> n"
  using decode_name_labels_bounds [of buffer 12 "[]" 0]
  by (fastforce simp: decodeQuery_def decodeHeader_def decodeName_def bind_res_eq_Inr rd_be16_def rd_eq_Inr)

end
