(* ===== verification/DNS_Response.thy ===== *)
theory DNS_Response
  imports DNS_Query
begin

text \<open>
  \<open>dns/common: DNSResponse\<close>: the encoder the server uses (one question, one answer whose RDATA
  is a domain name) and the decoder the client uses (any number of questions and records).
  The members the default constructor leaves uninitialised (\<open>_type\<close>, \<open>_cls\<close>, \<open>_ttl\<close>) are
  arguments of \<open>new_response\<close>: whatever the memory held.
\<close>

section \<open>State\<close>

record question =
  q_name :: string
  q_type :: u16
  q_cls :: u16

record resource_record =
  rr_name :: string
  rr_type :: u16
  rr_cls :: u16
  rr_ttl :: u32
  rr_data :: bytes
  rr_text :: string

record dns_response = dns_message +
  r_name :: string
  r_type :: u16
  r_cls :: u16
  r_ttl :: u32
  r_data :: string
  questions :: "question list"
  answers :: "resource_record list"
  authority :: "resource_record list"
  additional :: "resource_record list"

datatype Rcode = NoError | FormatError | ServerFailure | NameError | NotImplemented | Refused

fun rcode_num :: "Rcode \<Rightarrow> u8" where
  "rcode_num NoError = 0"
| "rcode_num FormatError = 1"
| "rcode_num ServerFailure = 2"
| "rcode_num NameError = 3"
| "rcode_num NotImplemented = 4"
| "rcode_num Refused = 5"

definition responseCodeToString :: "u8 \<Rightarrow> string" where
  "responseCodeToString rcode =
     (if rcode = rcode_num NoError then ''no error''
      else if rcode = rcode_num FormatError then ''query format error''
      else if rcode = rcode_num ServerFailure then ''server failure''
      else if rcode = rcode_num NameError then ''the name is not exist''
      else if rcode = rcode_num NotImplemented then ''not implemented''
      else if rcode = rcode_num Refused then ''refused''
      else ''unknown'')"

text \<open>\<open>DNSResponse(id)\<close>; the three indeterminate members come from the storage.\<close>

definition new_response :: "u16 \<Rightarrow> u16 \<Rightarrow> u32 \<Rightarrow> u16 \<Rightarrow> dns_response" where
  "new_response junk_type junk_cls junk_ttl i = setFlagQR True
     \<lparr>msg_id = i, flags = 0, qCount = 0, aCount = 0, nsCount = 0, arCount = 0,
      r_name = [], r_type = junk_type, r_cls = junk_cls, r_ttl = junk_ttl, r_data = [],
      questions = [], answers = [], authority = [], additional = []\<rparr>"

definition setRCode :: "u8 \<Rightarrow> dns_response \<Rightarrow> dns_response" where
  "setRCode rcode r = setFieldRcode rcode r"

definition isAuthoritative :: "dns_response \<Rightarrow> bool" where
  "isAuthoritative r = getFlagAA r"

definition isRecursionRequired :: "dns_response \<Rightarrow> bool" where
  "isRecursionRequired r = getFlagRA r"

definition isRecursionAvailable :: "dns_response \<Rightarrow> bool" where
  "isRecursionAvailable r = getFlagRA r"

definition getRcode :: "dns_response \<Rightarrow> u8" where
  "getRcode r = getFieldRcode r"

section \<open>Encoding\<close>

definition encodeResponse :: "dns_response \<Rightarrow> bytes" where
  "encodeResponse r =
     (let name = encodeDomainName (r_name r); data = encodeDomainName (r_data r)
      in encodeHeader r
         @ name @ be16 (r_type r) @ be16 (r_cls r)
         @ name @ be16 (r_type r) @ be16 (r_cls r) @ be32 (r_ttl r)
         @ be16 (of_nat (length data)) @ data)"

section \<open>Decoding\<close>

text \<open>A name that may continue behind pointers, as the decoder's two loops read it.\<close>

definition readName :: "bytes \<Rightarrow> nat \<Rightarrow> (string \<times> nat) outc" where
  "readName msg pos =
     bind_out (Some (decodeDomainName msg pos)) (\<lambda>(n, name, offset).
     bind_out (follow_pointers msg offset name) (\<lambda>name'. Some (Inr (name', n))))"

definition readQuestion :: "bytes \<Rightarrow> nat \<Rightarrow> (question \<times> nat) outc" where
  "readQuestion msg pos =
     bind_out (readName msg pos) (\<lambda>(name, n).
     bind_out (Some (rd_be16 msg (pos + n))) (\<lambda>t.
     bind_out (Some (rd_be16 msg (pos + n + 2))) (\<lambda>c.
       Some (Inr (\<lparr>q_name = name, q_type = t, q_cls = c\<rparr>, n + 4)))))"

text \<open>
  The text of a record: for type A the octets in decimal (the loop bound \<open>size() - 1\<close> wraps
  for empty data, and the first access is out of bounds); for CNAME the name at the start of
  the data, which may point into the message; nothing otherwise.
\<close>

definition dotted :: "bytes \<Rightarrow> string" where
  "dotted data = join_with (CHR ''.'') (map (\<lambda>b. dec_of_nat (unat b)) data)"

definition recordText :: "bytes \<Rightarrow> u16 \<Rightarrow> bytes \<Rightarrow> string outc" where
  "recordText msg t data =
     (if t = ucast (qtype_code QT_A)
      then (if data = [] then Some (Inl Out_Of_Bounds) else Some (Inr (dotted data)))
      else if t = ucast (qtype_code QT_CNAME)
      then bind_out (Some (decodeDomainName data 0)) (\<lambda>(n, text, offset).
             follow_pointers msg offset text)
      else Some (Inr []))"

definition readResourceRecord :: "bytes \<Rightarrow> nat \<Rightarrow> (resource_record \<times> nat) outc" where
  "readResourceRecord msg recOffset =
     bind_out (readName msg recOffset) (\<lambda>(name, n).
     bind_out (Some (rd_be16 msg (recOffset + n))) (\<lambda>t.
     bind_out (Some (rd_be16 msg (recOffset + n + 2))) (\<lambda>c.
     bind_out (Some (rd_be32 msg (recOffset + n + 4))) (\<lambda>ttl.
     bind_out (Some (rd_be16 msg (recOffset + n + 8))) (\<lambda>rdlen.
     bind_out (Some (rd_range msg (recOffset + n + 10) (unat rdlen))) (\<lambda>data.
     bind_out (recordText msg t data) (\<lambda>text.
       Some (Inr (\<lparr>rr_name = name, rr_type = t, rr_cls = c, rr_ttl = ttl, rr_data = data,
                   rr_text = text\<rparr>, n + 10 + unat rdlen)))))))))"

definition empty_question :: question where
  "empty_question = \<lparr>q_name = [], q_type = 0, q_cls = 0\<rparr>"

definition empty_record :: resource_record where
  "empty_record = \<lparr>rr_name = [], rr_type = 0, rr_cls = 0, rr_ttl = 0, rr_data = [], rr_text = []\<rparr>"

text \<open>
  \<open>_questions\<close> and \<open>_answerResourceRecords\<close> are resized before the loop that fills them; the other
  two vectors only \<open>reserve\<close> storage, so they keep their size.
\<close>

definition decodeResponse :: "bytes \<Rightarrow> dns_response \<Rightarrow> (dns_response \<times> nat) outc" where
  "decodeResponse buffer r =
     bind_out (Some (decodeHeader buffer r)) (\<lambda>(r, n0).
     let nq = unat (qCount r) in
     bind_out (read_into readQuestion buffer nq 0 (resize_vec nq empty_question (questions r)) n0)
       (\<lambda>(qs, n1).
     let na = unat (aCount r) in
     bind_out (read_into readResourceRecord buffer na 0 (resize_vec na empty_record (answers r)) n1)
       (\<lambda>(ans, n2).
     bind_out (read_into readResourceRecord buffer (unat (nsCount r)) 0 (authority r) n2)
       (\<lambda>(auth, n3).
     bind_out (read_into readResourceRecord buffer (unat (arCount r)) 0 (additional r) n3)
       (\<lambda>(add, n4).
       Some (Inr (r\<lparr>questions := qs, answers := ans, authority := auth, additional := add\<rparr>, n4)))))))"

section \<open>The wire form of the sections, as codecs\<close>

text \<open>RFC 1035, 4.1.2 and 4.1.3, without compression.\<close>

definition enc_question :: "question \<Rightarrow> bytes" where
  "enc_question q = encodeDomainName (q_name q) @ be16 (q_type q) @ be16 (q_cls q)"

definition enc_record :: "resource_record \<Rightarrow> bytes" where
  "enc_record rr = encodeDomainName (rr_name rr) @ be16 (rr_type rr) @ be16 (rr_cls rr)
     @ be32 (rr_ttl rr) @ be16 (of_nat (length (rr_data rr))) @ rr_data rr"

definition ok_question :: "question \<Rightarrow> bool" where
  "ok_question q \<longleftrightarrow> valid_name 64 (q_name q)"

definition text_matches :: "u16 \<Rightarrow> bytes \<Rightarrow> string \<Rightarrow> bool" where
  "text_matches t data text \<longleftrightarrow>
     (if t = 1 then data \<noteq> [] \<and> text = dotted data
      else if t = 5 then valid_name 64 text \<and> data = encodeDomainName text
      else text = [])"

definition ok_record :: "resource_record \<Rightarrow> bool" where
  "ok_record rr \<longleftrightarrow> valid_name 64 (rr_name rr) \<and> length (rr_data rr) < 65536
     \<and> text_matches (rr_type rr) (rr_data rr) (rr_text rr)"

lemma length_enc_question [simp]: "length (enc_question q) = length (q_name q) + 6"
  by (simp add: enc_question_def)

lemma length_enc_record [simp]:
  "length (enc_record rr) = length (rr_name rr) + 12 + length (rr_data rr)"
  by (simp add: enc_record_def)

lemma readName_encode [codec_simps]:
  "valid_name 64 name \<Longrightarrow>
     readName (pre @ encodeDomainName name @ post) (length pre) = Some (Inr (name, length name + 2))"
  by (simp add: readName_def decodeDomainName_encode)

lemma readQuestion_enc [codec_simps]:
  assumes "ok_question q"
  shows "readQuestion (pre @ enc_question q @ post) (length pre) = Some (Inr (q, length (enc_question q)))"
proof -
  let ?n = "encodeDomainName (q_name q)"
  have "rd_be16 ((pre @ ?n) @ be16 (q_type q) @ be16 (q_cls q) @ post) (length (pre @ ?n)) = Inr (q_type q)"
    by (rule rd_be16_at)
  moreover have "rd_be16 ((pre @ ?n @ be16 (q_type q)) @ be16 (q_cls q) @ post)
      (length (pre @ ?n @ be16 (q_type q))) = Inr (q_cls q)"
    by (rule rd_be16_at)
  moreover have "readName (pre @ ?n @ be16 (q_type q) @ be16 (q_cls q) @ post) (length pre)
      = Some (Inr (q_name q, length (q_name q) + 2))"
    using assms by (intro readName_encode) (simp add: ok_question_def)
  ultimately show ?thesis
    by (simp add: readQuestion_def enc_question_def add_ac eval_nat_numeral del: rd_be16_at rd_be16_ok)
qed

interpretation question: positional_codec enc_question readQuestion ok_question
  by unfold_locales (rule readQuestion_enc)

lemma recordText_matches:
  "text_matches t data text \<Longrightarrow> recordText msg t data = Some (Inr text)"
  using decodeDomainName_encode [of _ "[]" "[]"]
  by (auto simp: text_matches_def recordText_def split: if_splits)

lemma rd_range_at: "rd_range (pre @ ys @ post) (length pre) (length ys) = Inr ys"
  by (simp add: rd_range_def)

lemma readResourceRecord_enc [codec_simps]:
  assumes "ok_record rr"
  shows "readResourceRecord (pre @ enc_record rr @ post) (length pre)
         = Some (Inr (rr, length (enc_record rr)))"
proof -
  let ?n = "encodeDomainName (rr_name rr)" and ?d = "rr_data rr"
  let ?t = "be16 (rr_type rr)" and ?c = "be16 (rr_cls rr)" and ?ttl = "be32 (rr_ttl rr)"
  let ?l = "be16 (of_nat (length ?d))"
  let ?msg = "pre @ ?n @ ?t @ ?c @ ?ttl @ ?l @ ?d @ post"
  have d: "length ?d < 65536" and tx: "recordText ?msg (rr_type rr) ?d = Some (Inr (rr_text rr))"
    using assms by (auto simp: ok_record_def intro: recordText_matches)
  have name: "readName ?msg (length pre) = Some (Inr (rr_name rr, length (rr_name rr) + 2))"
    using assms by (intro readName_encode) (simp add: ok_record_def)
  have "rd_be16 ((pre @ ?n) @ ?t @ ?c @ ?ttl @ ?l @ ?d @ post) (length (pre @ ?n)) = Inr (rr_type rr)"
    by (rule rd_be16_at)
  moreover have "rd_be16 ((pre @ ?n @ ?t) @ ?c @ ?ttl @ ?l @ ?d @ post) (length (pre @ ?n @ ?t))
      = Inr (rr_cls rr)"
    by (rule rd_be16_at)
  moreover have "rd_be32 ((pre @ ?n @ ?t @ ?c) @ ?ttl @ ?l @ ?d @ post) (length (pre @ ?n @ ?t @ ?c))
      = Inr (rr_ttl rr)"
    by (rule rd_be32_at)
  moreover have "rd_be16 ((pre @ ?n @ ?t @ ?c @ ?ttl) @ ?l @ ?d @ post) (length (pre @ ?n @ ?t @ ?c @ ?ttl))
      = Inr (of_nat (length ?d))"
    by (rule rd_be16_at)
  moreover have "rd_range ((pre @ ?n @ ?t @ ?c @ ?ttl @ ?l) @ ?d @ post)
      (length (pre @ ?n @ ?t @ ?c @ ?ttl @ ?l)) (length ?d) = Inr ?d"
    by (rule rd_range_at)
  ultimately show ?thesis using name tx d
    by (simp add: readResourceRecord_def enc_record_def add_ac
        del: rd_be16_at rd_be16_ok rd_be32_at)
qed

interpretation rrecord: positional_codec enc_record readResourceRecord ok_record
  by unfold_locales (rule readResourceRecord_enc)

text \<open>A whole message with a question and an answer section is read back as it is.\<close>

lemma decodeResponse_sections:
  assumes "\<forall>q \<in> set qs. ok_question q" "\<forall>rr \<in> set ans. ok_record rr"
    and "unat (qCount h) = length qs" "unat (aCount h) = length ans" "nsCount h = 0" "arCount h = 0"
  shows "decodeResponse (encodeHeader h @ concat (map enc_question qs) @ concat (map enc_record ans) @ post) r
    = Some (Inr (r\<lparr>msg_id := msg_id h, flags := flags h, qCount := qCount h, aCount := aCount h,
                  nsCount := 0, arCount := 0, questions := qs, answers := ans\<rparr>,
           12 + length (concat (map enc_question qs)) + length (concat (map enc_record ans))))"
proof -
  let ?h = "encodeHeader h" and ?q = "concat (map enc_question qs)" and ?a = "concat (map enc_record ans)"
  let ?msg = "?h @ ?q @ ?a @ post"
  have q: "read_into readQuestion ?msg (length qs) 0 (resize_vec (length qs) empty_question (questions r)) 12
      = Some (Inr (qs, 12 + length ?q))"
    using question.read_into_enc [OF assms(1), of "resize_vec (length qs) empty_question (questions r)" 0 ?h]
    by simp
  have a: "read_into readResourceRecord ?msg (length ans) 0
        (resize_vec (length ans) empty_record (answers r)) (12 + length ?q)
      = Some (Inr (ans, 12 + length ?q + length ?a))"
    using rrecord.read_into_enc [OF assms(2), of "resize_vec (length ans) empty_record (answers r)" 0 "?h @ ?q"]
    by simp
  show ?thesis using q a assms
    by (simp add: decodeResponse_def decodeHeader_encode Let_def del: length_concat)
qed

text \<open>A fresh response object has empty vectors, and \<open>reserve\<close> leaves them empty.\<close>

lemma read_into_empty_vec:
  "0 < k \<Longrightarrow> read_into rdr msg k i [] pos \<noteq> Some (Inr res)"
  by (cases k) (auto simp: resl_simps)

end
