(* ===== verification/DNS_Resolver.thy ===== *)
theory DNS_Resolver
  imports DNS_Response
begin

text \<open>
  \<open>dns/server: DNSResolver\<close>: the list of (address, domain name) records loaded from a file, the
  two lookups, the reading of reverse-lookup names, and \<open>process\<close>, which fills a response.
\<close>

section \<open>Records\<close>

type_synonym dns_records = "(string \<times> string) list"

definition addLine :: "string \<Rightarrow> dns_records \<Rightarrow> dns_records" where
  "addLine line records =
     (case find_char (CHR '' '') line of
        None \<Rightarrow> records
      | Some p \<Rightarrow>
          let ipAddr = take p line; domainName = dropWhile isspace (drop p line)
          in if domainName = [] then records else records @ [(ipAddr, domainName)])"

text \<open>The file's content, \<open>None\<close> when it cannot be opened.\<close>

definition loadRecordsFromFile :: "string option \<Rightarrow> dns_records \<Rightarrow> dns_records" where
  "loadRecordsFromFile content records =
     (case content of None \<Rightarrow> records
      | Some s \<Rightarrow> fold addLine (getline_split (CHR 0x0A) s) records)"

definition findAddress :: "dns_records \<Rightarrow> string \<Rightarrow> string" where
  "findAddress records domainName =
     (case find (\<lambda>r. snd r = domainName) records of Some r \<Rightarrow> fst r | None \<Rightarrow> [])"

definition findDomainName :: "dns_records \<Rightarrow> string \<Rightarrow> string" where
  "findDomainName records ipAddr =
     (case find (\<lambda>r. fst r = ipAddr) records of Some r \<Rightarrow> snd r | None \<Rightarrow> [])"

section \<open>Reverse names\<close>

function reverse_labels :: "string \<Rightarrow> string \<Rightarrow> string" where
  "reverse_labels tmp ipAddr =
     (case rfind_char (CHR ''.'') tmp of
        None \<Rightarrow> ipAddr @ tmp
      | Some p \<Rightarrow> reverse_labels (take p tmp) (ipAddr @ drop (p + 1) tmp @ ''.''))"
  by pat_completeness auto
termination
  by (relation "measure (\<lambda>(tmp, ipAddr). length tmp)") (auto dest: rfind_char_Some_lt)

declare reverse_labels.simps [simp del]

definition getIpAddrFromQname :: "string \<Rightarrow> string" where
  "getIpAddrFromQname qn =
     (case find_sub ''.in-addr.arpa'' qn of
        None \<Rightarrow> []
      | Some p \<Rightarrow> reverse_labels (take p qn) [])"

section \<open>Answering\<close>

definition lookup_rdata :: "dns_records \<Rightarrow> string \<Rightarrow> string" where
  "lookup_rdata records qn =
     (let ipAddr = getIpAddrFromQname qn
      in if ipAddr \<noteq> [] then findDomainName records ipAddr else findAddress records qn)"

definition process_query :: "dns_records \<Rightarrow> dns_query \<Rightarrow> dns_response \<Rightarrow> dns_response" where
  "process_query records q r =
     (let rdata = lookup_rdata records (qname q);
          r = r\<lparr>msg_id := msg_id q, qCount := 1, aCount := 1, r_name := qname q,
                r_type := qtype q, r_cls := qclass q, r_data := rdata\<rparr>
      in setRCode (rcode_num (if rdata = [] then NameError else NoError)) r)"

section \<open>Loading and looking up\<close>

lemma addLine_appends: "\<exists>new. addLine line records = records @ new \<and> length new \<le> 1"
  by (auto simp: addLine_def Let_def split: option.splits)

lemma addLine_record:
  assumes "CHR '' '' \<notin> set ip" "ws \<noteq> []" "hd ws = CHR '' ''" "\<forall>c \<in> set ws. isspace c"
    and "dn \<noteq> []" "\<not> isspace (hd dn)"
  shows "addLine (ip @ ws @ dn) records = records @ [(ip, dn)]"
proof -
  obtain ws' where ws: "ws = CHR '' '' # ws'" using assms(2,3) by (cases ws) auto
  have "dropWhile isspace (ws @ dn) = dn"
    using assms(4-6) by (cases dn) (auto simp: dropWhile_append2)
  then show ?thesis using assms(1,5) ws by (simp add: addLine_def Let_def)
qed

lemma fold_addLine_prefix: "\<exists>new. fold addLine ls records = records @ new"
proof (induction ls arbitrary: records)
  case (Cons l ls)
  obtain new1 where 1: "addLine l records = records @ new1" using addLine_appends by blast
  moreover obtain new2 where "fold addLine ls (records @ new1) = (records @ new1) @ new2"
    using Cons.IH by blast
  ultimately have "fold addLine (l # ls) records = records @ (new1 @ new2)" by simp
  then show ?case by blast
qed simp

lemma find_append_Some: "find P xs = Some x \<Longrightarrow> find P (xs @ ys) = Some x"
  by (induction xs) (auto split: if_splits)

lemma find_append_None: "find P xs = None \<Longrightarrow> find P (xs @ ys) = find P ys"
  by (induction xs) (auto split: if_splits)

text \<open>Earlier records win: loading more lines never changes an answer already given.\<close>

lemma findAddress_load:
  assumes "findAddress records d \<noteq> []"
  shows "findAddress (loadRecordsFromFile content records) d = findAddress records d"
proof (cases content)
  case (Some s)
  obtain new where "fold addLine (getline_split (CHR 0x0A) s) records = records @ new"
    using fold_addLine_prefix by blast
  with assms Some show ?thesis
    by (auto simp: findAddress_def loadRecordsFromFile_def find_append_Some split: option.splits)
qed (simp add: loadRecordsFromFile_def)

section \<open>Reverse names reverse the labels\<close>

lemma reverse_labels_join:
  assumes "ls \<noteq> []" "\<forall>l \<in> set ls. dot_free l"
  shows "reverse_labels (join_with (CHR ''.'') ls) acc = acc @ join_with (CHR ''.'') (rev ls)"
  using assms
proof (induction ls arbitrary: acc rule: rev_induct)
  case (snoc l ls)
  show ?case
  proof (cases "ls = []")
    case True
    with snoc.prems show ?thesis
      by (subst reverse_labels.simps) (simp add: dot_free_def rfind_char_def)
  next
    case False
    have "dot_free l" using snoc.prems by simp
    then have "rfind_char (CHR ''.'') (join_with (CHR ''.'') ls @ CHR ''.'' # l)
               = Some (length (join_with (CHR ''.'') ls))"
      by (simp add: dot_free_def)
    with False snoc show ?thesis
      by (subst reverse_labels.simps) (simp add: join_with_snoc join_with_Cons)
  qed
qed simp

lemma getIpAddrFromQname_reverses:
  assumes "find_sub ''.in-addr.arpa'' qn = Some p"
  shows "getIpAddrFromQname qn = join_with (CHR ''.'') (rev (dots (take p qn)))"
proof -
  have "reverse_labels (join_with (CHR ''.'') (dots (take p qn))) []
        = [] @ join_with (CHR ''.'') (rev (dots (take p qn)))"
    by (rule reverse_labels_join) (auto dest: dots_dot_free)
  then show ?thesis using assms by (simp add: getIpAddrFromQname_def)
qed

lemma find_arpa:
  assumes "CHR ''i'' \<notin> set pre"
  shows "find_sub ''.in-addr.arpa'' (pre @ ''.in-addr.arpa'' @ suf) = Some (length pre)"
  using assms
proof (induction pre)
  case Nil
  then show ?case by (simp only: append_Nil find_sub_prefix) simp
next
  case (Cons c pre)
  have "take (length ''.in-addr.arpa'') (c # pre @ ''.in-addr.arpa'' @ suf) \<noteq> ''.in-addr.arpa''"
    using Cons.prems by (cases pre) auto
  moreover have "find_sub ''.in-addr.arpa'' (pre @ ''.in-addr.arpa'' @ suf) = Some (length pre)"
    using Cons by simp
  ultimately show ?case by (simp only: append_Cons find_sub.simps if_False) simp
qed

section \<open>What a response says\<close>

lemma process_query_fields [simp]:
  "msg_id (process_query recs q r) = msg_id q" "qCount (process_query recs q r) = 1"
  "aCount (process_query recs q r) = 1" "nsCount (process_query recs q r) = nsCount r"
  "arCount (process_query recs q r) = arCount r"
  "r_name (process_query recs q r) = qname q" "r_type (process_query recs q r) = qtype q"
  "r_cls (process_query recs q r) = qclass q" "r_ttl (process_query recs q r) = r_ttl r"
  "r_data (process_query recs q r) = lookup_rdata recs (qname q)"
  by (simp_all add: process_query_def setRCode_def Let_def setFieldRcode_def)

lemma getRcode_process:
  "getRcode (process_query recs q r) = (if lookup_rdata recs (qname q) = [] then 3 else 0)"
  by (simp add: process_query_def setRCode_def getRcode_def Let_def rcode_after_set)

lemma getFlagQR_process: "getFlagQR (process_query recs q r) = getFlagQR r"
  by (simp add: process_query_def setRCode_def Let_def getFlagQR_bit bit_setFieldRcode)

lemma getFlagQR_new_response: "getFlagQR (new_response a b c i)"
  by (simp add: new_response_def getFlagQR_bit bit_set_one_flag)

lemma encodeResponse_sections:
  "encodeResponse r = encodeHeader r
    @ enc_question \<lparr>q_name = r_name r, q_type = r_type r, q_cls = r_cls r\<rparr>
    @ enc_record \<lparr>rr_name = r_name r, rr_type = r_type r, rr_cls = r_cls r, rr_ttl = r_ttl r,
                  rr_data = encodeDomainName (r_data r), rr_text = t\<rparr>"
  by (simp add: encodeResponse_def enc_question_def enc_record_def Let_def)

end
