(* ===== verification/Machines.thy ===== *)
theory Machines
  imports Prelude
begin

text \<open>
  The interface of every server of the repository to the lemmas about its runs: a step relation
  on events and the runs made of it. A run may stop before its events are used up (a session
  that has ended takes no more). Servers whose steps are functions that may fault give an
  instance of the second locale, which is one of the first.
\<close>

locale event_machine =
  fixes step :: "'s \<Rightarrow> 'e \<Rightarrow> 's \<Rightarrow> bool"
    and run :: "'s \<Rightarrow> 'e list \<Rightarrow> 's \<Rightarrow> bool"
  assumes run_Nil: "run s [] s' \<Longrightarrow> s' = s"
    and run_Cons: "run s (e # es) s'' \<Longrightarrow> s'' = s \<or> (\<exists>s'. step s e s' \<and> run s' es s'')"
begin

lemma run_invariant:
  assumes "run s es s'" "P s" "\<And>s e s'. step s e s' \<Longrightarrow> P s \<Longrightarrow> P s'"
  shows "P s'"
  using assms(1,2)
proof (induction es arbitrary: s)
  case Nil
  then show ?case using run_Nil by blast
next
  case (Cons e es)
  then show ?case using run_Cons [OF Cons.prems(1)] assms(3) by blast
qed

text \<open>A preorder that every step respects relates the ends of a run.\<close>

lemma run_related:
  assumes "run s es s'" "\<And>s. R s s" "\<And>s t u. R s t \<Longrightarrow> R t u \<Longrightarrow> R s u" "\<And>s e s'. step s e s' \<Longrightarrow> R s s'"
  shows "R s s'"
proof (rule run_invariant [OF assms(1), where P = "R s"])
  show "R s s" by (rule assms(2))
next
  fix t e t'
  assume "step t e t'" "R s t"
  then show "R s t'" using assms(3,4) by blast
qed

lemma run_stays:
  assumes "run s es s'" "\<And>e s'. \<not> step s e s'"
  shows "s' = s"
  using assms run_Nil run_Cons by (cases es) blast+

end

locale fault_machine =
  fixes fstep :: "'e \<Rightarrow> 's \<Rightarrow> 's resl"
    and frun :: "'e list \<Rightarrow> 's \<Rightarrow> 's resl"
  assumes frun_Nil: "frun [] s = Inr s' \<Longrightarrow> s' = s"
    and frun_Cons: "frun (e # es) s = Inr s'' \<Longrightarrow> s'' = s \<or> (\<exists>s'. fstep e s = Inr s' \<and> frun es s' = Inr s'')"

sublocale fault_machine \<subseteq> event_machine "\<lambda>s e s'. fstep e s = Inr s'" "\<lambda>s es s'. frun es s = Inr s'"
  by unfold_locales (auto intro: frun_Nil dest: frun_Cons)

context fault_machine begin

lemma frun_holds:
  assumes "P s" "\<And>e s. P s \<Longrightarrow> holds P (fstep e s)"
  shows "holds P (frun es s)"
  unfolding holds_def
proof (intro allI impI)
  fix s'
  assume run: "frun es s = Inr s'"
  show "P s'"
    by (rule run_invariant [where P = P, OF run assms(1)]) (rule holdsD [OF assms(2)])
qed

end

text \<open>A machine whose every step is one of an abstract, deterministic machine; so are its runs then.\<close>

locale simulation = event_machine step run
  for step :: "'s \<Rightarrow> 'e \<Rightarrow> 's \<Rightarrow> bool" and run :: "'s \<Rightarrow> 'e list \<Rightarrow> 's \<Rightarrow> bool" +
  fixes inv :: "'s \<Rightarrow> bool" and abs :: "'s \<Rightarrow> 'a" and astep :: "'a \<Rightarrow> 'e \<Rightarrow> 'a"
  assumes step_simulates: "step s e s' \<Longrightarrow> inv s \<Longrightarrow> inv s' \<and> abs s' = astep (abs s) e"
    and run_takes_all: "run s (e # es) s'' \<Longrightarrow> \<exists>s'. step s e s' \<and> run s' es s''"
begin

lemma run_simulates: "run s es s' \<Longrightarrow> inv s \<Longrightarrow> inv s' \<and> abs s' = foldl astep (abs s) es"
proof (induction es arbitrary: s)
  case Nil
  then show ?case using run_Nil by force
next
  case (Cons e es)
  obtain t where t: "step s e t" "run t es s'" using run_takes_all [OF Cons.prems(1)] by blast
  with step_simulates [OF t(1)] Cons.prems(2) Cons.IH [OF t(2)] show ?case by simp
qed

end

end
