(* ===== verification/DNS_Server.thy ===== *)
theory DNS_Server
  imports DNS_Resolver Machines
begin

text \<open>
  \<open>dns/server: DNSServer\<close>. The object alternates between an outstanding asynchronous receive and
  an outstanding asynchronous send; the completion handlers of \<open>receive()\<close> and \<open>sendResponse()\<close>
  are the steps. What the resolver must promise for a reply to match its question is a locale,
  discharged by \<open>DNSResolver::process\<close>.
\<close>

section \<open>The resolver's contract\<close>

locale answering =
  fixes answer :: "dns_query \<Rightarrow> dns_response \<Rightarrow> dns_response"
  assumes same_id: "msg_id (answer q r) = msg_id q"
    and keeps_QR: "getFlagQR (answer q r) = getFlagQR r"
    and one_question: "qCount (answer q r) = 1"
    and one_answer: "aCount (answer q r) = 1"
    and keeps_counts: "nsCount (answer q r) = nsCount r" "arCount (answer q r) = arCount r"
    and echoes: "r_name (answer q r) = qname q" "r_type (answer q r) = qtype q" "r_cls (answer q r) = qclass q"
begin

lemma reply_layout:
  "encodeResponse (answer q r) = encodeHeader (answer q r)
     @ enc_question \<lparr>q_name = qname q, q_type = qtype q, q_cls = qclass q\<rparr>
     @ enc_record \<lparr>rr_name = qname q, rr_type = qtype q, rr_cls = qclass q, rr_ttl = r_ttl (answer q r),
                   rr_data = encodeDomainName (r_data (answer q r)), rr_text = t\<rparr>"
  by (simp add: encodeResponse_sections [of _ t] echoes)

text \<open>What a client decodes from a reply, when the record's text is one it can render.\<close>

lemma decode_reply:
  assumes "valid_name 64 (qname q)" "length (r_data (answer q r)) < 65534"
    and "nsCount r = 0" "arCount r = 0"
    and "text_matches (qtype q) (encodeDomainName (r_data (answer q r))) t"
  shows "\<exists>r'. decodeResponse (encodeResponse (answer q r) @ post) r0
        = Some (Inr (r', length (encodeResponse (answer q r))))
    \<and> msg_id r' = msg_id q \<and> flags r' = flags (answer q r)
    \<and> questions r' = [\<lparr>q_name = qname q, q_type = qtype q, q_cls = qclass q\<rparr>]
    \<and> answers r' = [\<lparr>rr_name = qname q, rr_type = qtype q, rr_cls = qclass q,
         rr_ttl = r_ttl (answer q r), rr_data = encodeDomainName (r_data (answer q r)), rr_text = t\<rparr>]"
proof -
  let ?q = "\<lparr>q_name = qname q, q_type = qtype q, q_cls = qclass q\<rparr>"
  let ?a = "\<lparr>rr_name = qname q, rr_type = qtype q, rr_cls = qclass q, rr_ttl = r_ttl (answer q r),
             rr_data = encodeDomainName (r_data (answer q r)), rr_text = t\<rparr>"
  have "decodeResponse (encodeHeader (answer q r) @ concat (map enc_question [?q])
          @ concat (map enc_record [?a]) @ post) r0
    = Some (Inr (r0\<lparr>msg_id := msg_id (answer q r), flags := flags (answer q r),
        qCount := qCount (answer q r), aCount := aCount (answer q r), nsCount := 0, arCount := 0,
        questions := [?q], answers := [?a]\<rparr>,
        12 + length (concat (map enc_question [?q])) + length (concat (map enc_record [?a]))))"
    by (rule decodeResponse_sections)
      (use assms in \<open>simp_all add: ok_question_def ok_record_def one_question one_answer keeps_counts\<close>)
  then show ?thesis by (simp add: reply_layout [of q r t] same_id)
qed

end

interpretation resolver: answering "process_query recs" for recs
  by unfold_locales (simp_all add: getFlagQR_process)

section \<open>Server state and events\<close>

text \<open>
  \<open>receiving\<close>: an \<open>async_receive_from\<close> is outstanding. \<open>sending\<close>: the datagram of an
  outstanding \<open>async_send_to\<close>. \<open>running\<close>: the I/O context runs. \<open>junk\<close> is what the storage of
  the next response object holds in its uninitialised members.
\<close>

record dns_server =
  resolver_records :: dns_records
  receiving :: bool
  sending :: "bytes option"
  running :: bool
  replies :: "bytes list"

datatype recv_outcome =
    Recv_Failed            \<comment> \<open>the wait itself completed with an error\<close>
  | Ioctl_Failed           \<comment> \<open>the number of readable bytes could not be obtained\<close>
  | Read_Failed            \<comment> \<open>\<open>receive_from\<close> failed\<close>
  | Datagram bytes

datatype dns_event =
    Received recv_outcome u16 u16 u32
  | Sent bool
  | Signal bool

definition dns_start :: "dns_records \<Rightarrow> dns_server" where
  "dns_start recs = \<lparr>resolver_records = recs, receiving = True, sending = None, running = True,
     replies = []\<rparr>"

text \<open>The completion handler of \<open>receive()\<close>; it does not call \<open>receive()\<close> again.\<close>

definition on_received :: "recv_outcome \<Rightarrow> u16 \<Rightarrow> u16 \<Rightarrow> u32 \<Rightarrow> dns_server \<Rightarrow> dns_server resl" where
  "on_received oc j1 j2 j3 s =
     (let s = s\<lparr>receiving := False\<rparr> in
      case oc of
        Recv_Failed \<Rightarrow> Inr s
      | Ioctl_Failed \<Rightarrow> Inr s
      | Read_Failed \<Rightarrow> Inr s
      | Datagram buffer \<Rightarrow>
          bind_res (decodeQuery buffer new_query) (\<lambda>(q, n).
            if getFlagQR q then Inr s
            else Inr (s\<lparr>sending := Some (encodeResponse
                   (process_query (resolver_records s) q (new_response j1 j2 j3 0)))\<rparr>)))"

text \<open>The completion handler of \<open>sendResponse()\<close>.\<close>

definition on_sent :: "bool \<Rightarrow> dns_server \<Rightarrow> dns_server" where
  "on_sent ok s =
     (let s' = s\<lparr>sending := None\<rparr>
      in if ok then s'\<lparr>receiving := True, replies := replies s @ (case sending s of Some b \<Rightarrow> [b] | None \<Rightarrow> [])\<rparr>
         else s')"

definition on_signal :: "bool \<Rightarrow> dns_server \<Rightarrow> dns_server" where
  "on_signal ok s = (if ok then s\<lparr>running := False\<rparr> else s)"

text \<open>An event is possible only while the operation it completes is outstanding.\<close>

inductive dns_step :: "dns_server \<Rightarrow> dns_event \<Rightarrow> dns_server \<Rightarrow> bool" where
  recv: "running s \<Longrightarrow> receiving s \<Longrightarrow> on_received oc j1 j2 j3 s = Inr s' \<Longrightarrow>
     dns_step s (Received oc j1 j2 j3) s'"
| sent: "running s \<Longrightarrow> sending s \<noteq> None \<Longrightarrow> dns_step s (Sent ok) (on_sent ok s)"
| signal: "running s \<Longrightarrow> dns_step s (Signal ok) (on_signal ok s)"

inductive_cases dns_recvE: "dns_step s (Received oc j1 j2 j3) s'"
inductive_cases dns_sentE: "dns_step s (Sent ok) s'"
inductive_cases dns_signalE: "dns_step s (Signal ok) s'"
inductive_simps dns_step_recv: "dns_step s (Received oc j1 j2 j3) s'"
inductive_simps dns_step_sent: "dns_step s (Sent ok) s'"
inductive_simps dns_step_signal: "dns_step s (Signal ok) s'"

inductive dns_run :: "dns_server \<Rightarrow> dns_event list \<Rightarrow> dns_server \<Rightarrow> bool" where
  run_nil: "dns_run s [] s"
| run_cons: "dns_step s e s' \<Longrightarrow> dns_run s' es s'' \<Longrightarrow> dns_run s (e # es) s''"

lemmas dns_handler_defs = on_received_def on_sent_def on_signal_def Let_def

text \<open>At most one operation is outstanding on the socket.\<close>

definition dns_inv :: "dns_server \<Rightarrow> bool" where
  "dns_inv s \<longleftrightarrow> \<not> (receiving s \<and> sending s \<noteq> None)"

lemma on_received_cases:
  assumes "on_received oc j1 j2 j3 s = Inr s'"
  shows "receiving s' = False \<and> running s' = running s \<and> replies s' = replies s
    \<and> resolver_records s' = resolver_records s"
  using assms by (auto simp: dns_handler_defs resl_simps split: recv_outcome.splits if_splits)

lemma dns_step_inv: "dns_step s e s' \<Longrightarrow> dns_inv s \<Longrightarrow> dns_inv s'"
  by (induction rule: dns_step.induct)
    (auto simp: dns_inv_def on_sent_def on_signal_def Let_def dest: on_received_cases)

interpretation dns: event_machine dns_step dns_run
  by unfold_locales (auto elim: dns_run.cases)

lemma dns_run_inv: "dns_run s es s' \<Longrightarrow> dns_inv s \<Longrightarrow> dns_inv s'"
  by (rule dns.run_invariant) (auto intro: dns_step_inv)

text \<open>With nothing outstanding the server only reacts to signals.\<close>

definition deaf :: "dns_server \<Rightarrow> bool" where
  "deaf s \<longleftrightarrow> \<not> receiving s \<and> sending s = None"

lemma dns_step_deaf: "dns_step s e s' \<Longrightarrow> deaf s \<Longrightarrow> deaf s' \<and> replies s' = replies s"
  by (induction rule: dns_step.induct) (auto simp: deaf_def on_signal_def)

lemma dns_run_deaf: "dns_run s es s' \<Longrightarrow> deaf s \<Longrightarrow> deaf s' \<and> replies s' = replies s"
  by (rule dns.run_invariant [where P = "\<lambda>t. deaf t \<and> replies t = replies s"]) (auto dest: dns_step_deaf)

section \<open>What is sent\<close>

text \<open>\<open>answered recs es b\<close>: \<open>b\<close> is the resolver's reply to a query among the events \<open>es\<close>.\<close>

definition answered :: "dns_records \<Rightarrow> dns_event list \<Rightarrow> bytes \<Rightarrow> bool" where
  "answered recs es b \<longleftrightarrow> (\<exists>d j1 j2 j3 q n. Received (Datagram d) j1 j2 j3 \<in> set es
     \<and> decodeQuery d new_query = Inr (q, n) \<and> \<not> getFlagQR q
     \<and> b = encodeResponse (process_query recs q (new_response j1 j2 j3 0)))"

definition sent_or_sending :: "dns_server \<Rightarrow> bytes set" where
  "sent_or_sending s = set (replies s) \<union> set_option (sending s)"

lemma answered_mono: "answered recs es b \<Longrightarrow> set es \<subseteq> set es' \<Longrightarrow> answered recs es' b"
  unfolding answered_def by (elim exE conjE) (intro exI conjI; (rule subsetD; assumption)?; assumption)

lemma on_received_sends:
  assumes "on_received oc j1 j2 j3 s = Inr s'" "b \<in> sent_or_sending s'"
  shows "b \<in> sent_or_sending s \<or> answered (resolver_records s) [Received oc j1 j2 j3] b"
proof (cases oc)
  case (Datagram d)
  then obtain q n where q: "decodeQuery d new_query = Inr (q, n)"
    using assms(1) by (auto simp: on_received_def bind_res_eq_Inr Let_def)
  show ?thesis
  proof (cases "getFlagQR q")
    case True
    then show ?thesis using assms Datagram q by (auto simp: on_received_def sent_or_sending_def)
  next
    case False
    let ?b = "encodeResponse (process_query (resolver_records s) q (new_response j1 j2 j3 0))"
    have "answered (resolver_records s) [Received oc j1 j2 j3] ?b"
      unfolding answered_def using Datagram q False by (intro exI conjI) auto
    then show ?thesis using assms Datagram q False by (auto simp: on_received_def sent_or_sending_def)
  qed
qed (use assms in \<open>auto simp: on_received_def sent_or_sending_def\<close>)

lemma dns_step_sends:
  "dns_step s e s' \<Longrightarrow> b \<in> sent_or_sending s' \<Longrightarrow>
     b \<in> sent_or_sending s \<or> answered (resolver_records s) [e] b"
proof (induction rule: dns_step.induct)
  case (recv s oc j1 j2 j3 s')
  then show ?case using on_received_sends by blast
qed (auto simp: sent_or_sending_def on_sent_def on_signal_def Let_def split: if_splits)

lemma dns_step_records: "dns_step s e s' \<Longrightarrow> resolver_records s' = resolver_records s"
  by (induction rule: dns_step.induct) (auto simp: on_sent_def on_signal_def Let_def dest: on_received_cases)

lemma dns_run_sends:
  "dns_run s es s' \<Longrightarrow> b \<in> sent_or_sending s' \<Longrightarrow>
     b \<in> sent_or_sending s \<or> answered (resolver_records s) es b"
proof (induction rule: dns_run.induct)
  case (run_cons s e s' es s'')
  have "answered recs [e] b \<or> answered recs es b \<Longrightarrow> answered recs (e # es) b" for recs
    using answered_mono [of recs _ b "e # es"] by auto
  with run_cons dns_step_sends [OF run_cons.hyps(1), of b] dns_step_records [OF run_cons.hyps(1)]
  show ?case by auto
qed simp

section \<open>A query and its reply\<close>

lemma dns_step_query:
  assumes "running s" "receiving s" "valid_name 64 (qname q)" "\<not> getFlagQR q"
  shows "dns_step s (Received (Datagram (encodeQuery q)) j1 j2 j3) (s\<lparr>receiving := False,
    sending := Some (encodeResponse (process_query (resolver_records s) q (new_response j1 j2 j3 0)))\<rparr>)"
proof -
  have "valid_name 256 (qname q)" using assms(3) by (auto simp: valid_name_def valid_label_def)
  from decodeQuery_encode [OF this, of "[]" new_query] show ?thesis
    using assms by (intro dns_step.recv) (simp_all add: on_received_def)
qed

lemma reply_decodes:
  assumes "valid_name 64 (qname q)" "length (lookup_rdata recs (qname q)) < 65534"
    and "text_matches (qtype q) (encodeDomainName (lookup_rdata recs (qname q))) t"
    and "b = encodeResponse (process_query recs q (new_response j1 j2 j3 0))"
  shows "\<exists>r. decodeResponse (b @ post) r0 = Some (Inr (r, length b))
    \<and> msg_id r = msg_id q \<and> getFlagQR r
    \<and> getRcode r = (if lookup_rdata recs (qname q) = [] then 3 else 0)
    \<and> questions r = [\<lparr>q_name = qname q, q_type = qtype q, q_cls = qclass q\<rparr>]
    \<and> answers r = [\<lparr>rr_name = qname q, rr_type = qtype q, rr_cls = qclass q, rr_ttl = j3,
         rr_data = encodeDomainName (lookup_rdata recs (qname q)), rr_text = t\<rparr>]"
proof -
  let ?r0 = "new_response j1 j2 j3 0"
  have fresh: "nsCount ?r0 = 0" "arCount ?r0 = 0" "r_ttl ?r0 = j3"
    by (simp_all add: new_response_def setFlagQR_def)
  obtain r where r: "decodeResponse (b @ post) r0 = Some (Inr (r, length b))" "msg_id r = msg_id q"
      "flags r = flags (process_query recs q ?r0)"
      "questions r = [\<lparr>q_name = qname q, q_type = qtype q, q_cls = qclass q\<rparr>]"
      "answers r = [\<lparr>rr_name = qname q, rr_type = qtype q, rr_cls = qclass q, rr_ttl = j3,
         rr_data = encodeDomainName (lookup_rdata recs (qname q)), rr_text = t\<rparr>]"
    using resolver.decode_reply [where q = q and r = "?r0" and t = t and recs = recs and post = post and ?r0.0 = r0]
      assms fresh by auto
  have "getFlagQR r" "getRcode r = getRcode (process_query recs q ?r0)"
    using r(3) getFlagQR_process [of recs q ?r0] getFlagQR_new_response [of j1 j2 j3 0]
    by (simp_all add: flag_get_defs getRcode_def)
  with r show ?thesis by (intro exI [of _ r]) (simp add: getRcode_process)
qed

end
