(* ===== verification/DNS_Client.thy ===== *)
theory DNS_Client
  imports DNS_Server
begin

text \<open>
  \<open>dns/client: DNSClient::resolve\<close>. The two socket calls are arguments: whether \<open>send_to\<close>
  succeeds, and the datagram \<open>receive_from\<close> puts in the 512-byte array (\<open>None\<close> for an error).
  The array and the response object are uninitialised, so their content is an argument too.
  What the function prints is the decoded response it dumps.
\<close>

record resolve_result =
  query_sent :: bytes
  dumped :: "dns_response option"
  resolved :: string

definition client_query :: "bool \<Rightarrow> string \<Rightarrow> dns_query" where
  "client_query useRecursion addr =
     (let q = new_query\<lparr>msg_id := 0xAAAA\<rparr>;
          q = (if useRecursion then setUseRecursion useRecursion q else q);
          q = query_setType QT_A q
      in q\<lparr>qCount := 1, qname := addr\<rparr>)"

definition recv_512 :: "bytes \<Rightarrow> bytes \<Rightarrow> bytes" where
  "recv_512 junk datagram = overwrite junk 0 (take 512 datagram)"

definition resolve :: "bool \<Rightarrow> string \<Rightarrow> bool \<Rightarrow> bytes option \<Rightarrow> bytes \<Rightarrow> u16 \<Rightarrow> u16 \<Rightarrow> u32
    \<Rightarrow> resolve_result outc" where
  "resolve useRecursion addr send_ok datagram junk j1 j2 j3 =
     (let dataToSend = encodeQuery (client_query useRecursion addr);
          quit = \<lparr>query_sent = dataToSend, dumped = None, resolved = []\<rparr>
      in if \<not> send_ok then Some (Inr quit)
         else case datagram of
           None \<Rightarrow> Some (Inr quit)
         | Some d \<Rightarrow>
             bind_out (decodeResponse (recv_512 junk d) (new_response j1 j2 j3 0)) (\<lambda>(r, n).
               if msg_id r = 0xAAAA then Some (Inr (quit\<lparr>dumped := Some r, resolved := []\<rparr>))
               else Some (Inr quit)))"

lemma client_query_fields [simp]:
  "msg_id (client_query b addr) = 0xAAAA" "qname (client_query b addr) = addr"
  "qtype (client_query b addr) = 1" "qclass (client_query b addr) = 1"
  "qCount (client_query b addr) = 1"
  by (simp_all add: client_query_def new_query_def query_setType_def setUseRecursion_def
      setFlagRD_def Let_def)

lemma client_query_flags:
  "getFlagRD (client_query b addr) = b" "\<not> getFlagQR (client_query b addr)"
  by (simp_all add: client_query_def new_query_def query_setType_def setUseRecursion_def
      Let_def flag_bit_simps bit_set_one_flag)

lemma recv_512_small:
  "length junk = 512 \<Longrightarrow> length d \<le> 512 \<Longrightarrow> recv_512 junk d = d @ drop (length d) junk"
  by (simp add: recv_512_def overwrite_0_append)

end
