(* ===== verification/DNS_Output.thy ===== *)
theory DNS_Output
  imports DNS_Client
begin

text \<open>
  What the DNS client prints: \<open>dump\<close> of the message classes in \<open>dns/common\<close>, the output of
  \<open>DNSClient::resolve\<close> and the loop of \<open>dns/client/main.cpp\<close>. All of it goes to one \<open>std::ostream\<close>, whose
  format flags outlive the function that sets them, so the flags are part of the model.
\<close>

section \<open>Output streams\<close>

text \<open>What is inserted with \<open>operator<<\<close>: text, unsigned numbers, manipulators.\<close>

datatype item = Str string | Num nat | Hex | Dec | Showbase | Noshowbase | Setw nat | Setfill char

record ostream =
  os_text :: string
  os_hex :: bool
  os_showbase :: bool
  os_fill :: char
  os_width :: nat

definition cout :: ostream where
  "cout = \<lparr>os_text = [], os_hex = False, os_showbase = False, os_fill = CHR '' '', os_width = 0\<rparr>"

definition hex_char :: "nat \<Rightarrow> char" where
  "hex_char d = (if d < 10 then digit_char d else char_of (87 + d))"

fun hex_of_nat :: "nat \<Rightarrow> string" where
  "hex_of_nat n = (if n < 16 then [hex_char n] else hex_of_nat (n div 16) @ [hex_char (n mod 16)])"

declare hex_of_nat.simps [simp del]

text \<open>Zero has no prefix, and with no adjustment set the filling goes before the prefix.\<close>

definition number_text :: "ostream \<Rightarrow> nat \<Rightarrow> string" where
  "number_text os n =
     (if os_hex os then (if os_showbase os \<and> n \<noteq> 0 then ''0x'' else []) @ hex_of_nat n else dec_of_nat n)"

definition put_padded :: "string \<Rightarrow> ostream \<Rightarrow> ostream" where
  "put_padded s os =
     os\<lparr>os_text := os_text os @ replicate (os_width os - length s) (os_fill os) @ s, os_width := 0\<rparr>"

fun put_item :: "item \<Rightarrow> ostream \<Rightarrow> ostream" where
  "put_item (Str s) os = put_padded s os"
| "put_item (Num n) os = put_padded (number_text os n) os"
| "put_item Hex os = os\<lparr>os_hex := True\<rparr>"
| "put_item Dec os = os\<lparr>os_hex := False\<rparr>"
| "put_item Showbase os = os\<lparr>os_showbase := True\<rparr>"
| "put_item Noshowbase os = os\<lparr>os_showbase := False\<rparr>"
| "put_item (Setw n) os = os\<lparr>os_width := n\<rparr>"
| "put_item (Setfill c) os = os\<lparr>os_fill := c\<rparr>"

definition print :: "item list \<Rightarrow> ostream \<Rightarrow> ostream" where
  "print is os = fold put_item is os"

abbreviation NL :: char where
  "NL \<equiv> CHR 0x0A"

section \<open>\<open>dump\<close>\<close>

definition dump_message :: "'a dns_message_scheme \<Rightarrow> item list" where
  "dump_message m =
     [Str ''ID: '', Hex, Setw 4, Setfill (CHR ''0''), Showbase, Num (unat (msg_id m)),
      Noshowbase, Str '', FLAGS: '', Num (unat (flags m)),
      Str (NL # ''Question count: ''), Dec, Num (unat (qCount m)),
      Str (NL # ''Answer record count: ''), Num (unat (aCount m)),
      Str (NL # ''Name server (Authority record) count: ''), Num (unat (nsCount m)),
      Str (NL # ''Additional record count: ''), Num (unat (arCount m))]"

definition dump_query :: "dns_query \<Rightarrow> item list" where
  "dump_query q = dump_message q @
     [Str (NL # ''Question name: ''), Str (qname q), Str (NL # ''Question type: ''), Num (unat (qtype q)),
      Str (NL # ''Question class: ''), Num (unat (qclass q))]"

definition dump_question :: "question \<Rightarrow> item list" where
  "dump_question q =
     [Str '' name: '', Str (q_name q), Str '', type: '', Num (unat (q_type q)), Str '', class: '', Num (unat (q_cls q)), Str [NL]]"

definition dump_record :: "resource_record \<Rightarrow> item list" where
  "dump_record rr =
     [Str '' name: '', Str (rr_name rr), Str '', type: '', Num (unat (rr_type rr)), Str '', class: '', Num (unat (rr_cls rr)),
      Str '', TTL: '', Num (unat (rr_ttl rr)), Str '', rlength: '', Num (length (rr_data rr))]
     @ (if rr_type rr = ucast (qtype_code QT_A) then [Str '', Address: '', Str (rr_text rr)]
        else if rr_type rr = ucast (qtype_code QT_CNAME) then [Str '', CNAME: '', Str (rr_text rr)]
        else Str '', rdata: '' # concat (map (\<lambda>x. [Hex, Num (unat x), Str '' '']) (rr_data rr)))
     @ [Str [NL]]"

definition dump_response :: "dns_response \<Rightarrow> item list" where
  "dump_response r = dump_message r
     @ [Str (NL # ''Questions: ''), Str [NL]] @ concat (map dump_question (questions r))
     @ [Str (NL # ''Answers: ''), Str [NL]] @ concat (map dump_record (answers r))
     @ [Str (NL # ''Name servers: ''), Str [NL]] @ concat (map dump_record (authority r))
     @ [Str (NL # ''Additional records: ''), Str [NL]] @ concat (map dump_record (additional r))"

section \<open>The client's output\<close>

text \<open>
  The outcome of a socket call is its error (the message and the value) or what it delivers. The first
  argument is what \<open>__FILE__\<close> stands for. A datagram is sent whole or not at all.
\<close>

type_synonym sys_error = "string \<times> nat"

definition error_line :: "string \<Rightarrow> nat \<Rightarrow> sys_error \<Rightarrow> item list" where
  "error_line path line e =
     [Str path, Str '':'', Num line, Str '' Error: '', Str (fst e), Str ''('', Num (snd e), Str '')'', Str [NL]]"

record resolve_env =
  n_send :: "sys_error option"
  n_arrival :: "sys_error + bytes"
  n_junk :: bytes
  n_type :: u16
  n_cls :: u16
  n_ttl :: u32

definition resolve_output :: "string \<Rightarrow> string \<Rightarrow> u16 \<Rightarrow> bool \<Rightarrow> string \<Rightarrow> resolve_env \<Rightarrow> item list outc" where
  "resolve_output path srvAddress srvPort useRecursion addr env =
     (let dataToSend = encodeQuery (client_query useRecursion addr);
          before = [Str '' Sending query to '', Str srvAddress, Str '':'', Num (unat srvPort), Str [NL],
                    Str '' The query length is '', Num (length dataToSend), Str ('' bytes.'' @ [NL])]
      in case n_send env of
           Some e \<Rightarrow> Some (Inr (before @ error_line path 53 e))
         | None \<Rightarrow>
             let before = before @ [Str '' Sent '', Num (length dataToSend), Str ('' bytes.'' @ [NL]),
                   Str '' Receiving response from '', Str srvAddress, Str '':'', Num (unat srvPort), Str [NL]]
             in case n_arrival env of
                  Inl e \<Rightarrow> Some (Inr (before @ error_line path 66 e))
                | Inr d \<Rightarrow>
                    bind_out (decodeResponse (recv_512 (n_junk env) d) (new_response (n_type env) (n_cls env) (n_ttl env) 0))
                      (\<lambda>(r, n).
                        Some (Inr (before @ [Str '' Received '', Num (min 512 (length d)), Str '' bytes. '',
                            Str '' Decoded '', Num n, Str ('' bytes.'' @ [NL])]
                          @ (if msg_id r = 0xAAAA then dump_response r
                             else [Str ''Received unexpected response, ID = '', Hex, Num (unat (msg_id r)), Str [NL]])))))"

text \<open>\<open>main\<close>: one \<open>resolve\<close> for each argument, all on the same stream.\<close>

fun client_main :: "string \<Rightarrow> (string \<times> resolve_env) list \<Rightarrow> item list outc" where
  "client_main path [] = Some (Inr [])"
| "client_main path ((addr, env) # rest) =
     bind_out (resolve_output path ''8.8.8.8'' 53 False addr env) (\<lambda>out.
     bind_out (client_main path rest) (\<lambda>outs.
       Some (Inr ([Str ''Resolving '', Str addr, Str ('' ...'' @ [NL])] @ out @ outs))))"

end
