(* ===== verification/DNS_Properties.thy ===== *)
theory DNS_Properties
  imports DNS_Client
begin

text \<open>
  The properties of the DNS programs: the wire formats, compression pointers, the resolver's
  answers, the server as a state machine, and the client against the server.
\<close>

section \<open>Auxiliary facts\<close>

text \<open>The two octets of a compression pointer to position \<open>p\<close> (RFC 1035, 4.1.4).\<close>

definition pointer_octets :: "nat \<Rightarrow> bytes" where
  "pointer_octets p = [0xC0 OR of_nat (p div 256), of_nat (p mod 256)]"

lemma bit_0xC0: "bit (0xC0 :: u8) k \<longleftrightarrow> k = 6 \<or> k = 7"
proof -
  have eq: "(0xC0 :: int) = push_bit 6 (mask 2)" by (simp add: mask_numeral)
  have "bit (0xC0 :: int) k \<longleftrightarrow> k = 6 \<or> k = 7"
    unfolding eq bit_push_bit_iff bit_mask_iff by auto
  then show ?thesis by (simp add: bit_simps) auto
qed

lemma bit_0x3F: "bit (0x3F :: u8) k \<longleftrightarrow> k < 6"
proof -
  have eq: "(0x3F :: int) = mask 6" by (simp add: mask_numeral)
  have "bit (0x3F :: int) k \<longleftrightarrow> k < 6" unfolding eq bit_mask_iff by auto
  then show ?thesis by (simp add: bit_simps) auto
qed

lemma pointer_octet_marked: "(0xC0 OR w :: u8) AND 0xC0 \<noteq> 0"
proof
  assume "(0xC0 OR w) AND 0xC0 = 0"
  then have "\<not> bit ((0xC0 OR w) AND 0xC0) 6" by simp
  then show False by (simp add: bit_simps bit_0xC0)
qed

lemma small_high_bits: "n < 64 \<Longrightarrow> bit (of_nat n :: u8) k \<Longrightarrow> k < 6"
proof (rule ccontr)
  assume n: "n < 64" and b: "bit (of_nat n :: u8) k" and k: "\<not> k < 6"
  then have "k = 6 \<or> k = 7" using bit_imp_le_length [OF b] by auto
  then have "bit ((of_nat n :: u8) AND 0xC0) k" using b by (auto simp: bit_simps bit_0xC0)
  with n show False by simp
qed

lemma pointer_target_octets:
  assumes "p < 16384"
  shows "pointer_target (0xC0 OR of_nat (p div 256)) (of_nat (p mod 256)) = p"
proof -
  have "(0xC0 OR of_nat (p div 256)) AND (0x3F :: u8) = of_nat (p div 256)"
  proof (rule bit_word_eqI)
    fix k
    have "bit (of_nat (p div 256) :: u8) k \<Longrightarrow> k < 6"
      using small_high_bits [of "p div 256"] assms by simp
    then show "bit ((0xC0 OR of_nat (p div 256)) AND (0x3F :: u8)) k = bit (of_nat (p div 256) :: u8) k"
      unfolding bit_and_iff bit_or_iff bit_0xC0 bit_0x3F by auto
  qed
  then show ?thesis using assms by (simp add: pointer_target_def)
qed

lemma decode_pointer_octets:
  assumes "p < 16384" "\<forall>l \<in> set ls. valid_label 64 l"
  shows "decodeDomainName (pre @ wire_labels ls @ pointer_octets p @ post) (length pre)
    = Inr (length (wire_labels ls) + 2, join_with (CHR ''.'') ls, p)"
  using decodeDomainName_pointer [OF assms(2) pointer_octet_marked, of pre "of_nat (p div 256)"
      "of_nat (p mod 256)" post] pointer_target_octets [OF assms(1)]
  by (simp add: pointer_octets_def)

section \<open>Wire formats\<close>

text \<open>C20: a query is read back exactly as it was written, whatever follows it in the buffer and whatever
  the decoding object held before; the decoder reports the encoding's length.\<close>
theorem query_roundtrip:
  assumes "valid_name 256 (qname q)"
  shows "decodeQuery (encodeQuery q @ post) q0 = Inr (q, length (qname q) + 18)"
  using decodeQuery_encode [OF assms, of post q0] by simp

definition sample_query :: dns_query where
  "sample_query = new_query\<lparr>msg_id := 0xAAAA, qCount := 1, qname := ''www.example.org'', qtype := 1\<rparr>"

theorem query_roundtrip_witness:
  "decodeQuery (encodeQuery sample_query @ [7, 7]) new_query = Inr (sample_query, 33)
   \<and> encodeQuery sample_query \<noteq> []"
  using query_roundtrip [of sample_query "[7, 7]" new_query]
  by (simp add: sample_query_def valid_name_def valid_label_def dot_free_def encodeQuery_def encodeHeader_def
      be16_def)

text \<open>The header decoder accepts exactly the buffers of at least twelve octets, consumes twelve,
  and what it read encodes to those same twelve octets; nothing else of the object changes. On a shorter
  buffer it reads out of bounds, as it checks no length.\<close>
theorem header_accepts:
  "(decodeHeader buffer m0 = Inr (m, n) \<longleftrightarrow>
     12 \<le> length buffer \<and> n = 12 \<and> encodeHeader m = take 12 buffer
     \<and> dns_message.more m = dns_message.more m0)
   \<and> (decodeHeader buffer m0 = Inl e \<longleftrightarrow> length buffer < 12 \<and> e = Out_Of_Bounds)"
proof -
  have acc: "n = 12 \<and> encodeHeader m = take 12 buffer \<and> dns_message.more m = dns_message.more m0"
    if "decodeHeader buffer m0 = Inr (m, n)" and long: "12 \<le> length buffer"
  proof -
    have "take 12 buffer = map ((!) buffer) [0..<12]" using long by (intro nth_equalityI) simp_all
    also have "\<dots> = map (\<lambda>i. buffer ! i) [0, 1, 2, 3, 4, 5, 6, 7, 8, 9, 10, 11]" by (simp add: upt_rec eval_nat_numeral)
    finally show ?thesis using that by (auto simp: decodeHeader_def encodeHeader_def)
  qed
  have "decodeHeader buffer m0 = Inr (m, 12)"
    if "12 \<le> length buffer" "encodeHeader m = take 12 buffer" "dns_message.more m = dns_message.more m0"
    using that decodeHeader_encode [of m "drop 12 buffer" m0] by (simp add: dns_message.equality)
  moreover have "decodeHeader buffer m0 \<noteq> Inr (m, n)" if "length buffer < 12"
    using decodeHeader_short [OF that, of m0] by simp
  ultimately show ?thesis
    using acc decodeHeader_short [of buffer m0] decodeHeader_long [of buffer m0] by (metis not_le sum.simps(4) Inl_inject)
qed

text \<open>The seven header fields packed in the flag word are independent. After each has been set,
  every getter returns its own value (opcode and response code cut to four bits), and bits 4 to 6, which
  no field owns, are untouched.\<close>
theorem flag_fields_independent:
  fixes m :: "'a dns_message_scheme"
  shows "let m' = setFlagQR qr (setFieldOpcode opc (setFlagAA aa (setFlagTC tc (setFlagRD dr
                  (setFlagRA ar (setFieldRcode rc m)))))) in
    getFlagQR m' = qr \<and> getFieldOpcode m' = opc AND 0xF \<and> getFlagAA m' = aa \<and> getFlagTC m' = tc
    \<and> getFlagRD m' = dr \<and> getFlagRA m' = ar \<and> getFieldRcode m' = rc AND 0xF
    \<and> bit (flags m') 4 = bit (flags m) 4 \<and> bit (flags m') 5 = bit (flags m) 5
    \<and> bit (flags m') 6 = bit (flags m) 6"
  unfolding Let_def
proof (intro conjI)
  let ?m = "setFlagQR qr (setFieldOpcode opc (setFlagAA aa (setFlagTC tc (setFlagRD dr
                  (setFlagRA ar (setFieldRcode rc m))))))"
  show "getFieldOpcode ?m = opc AND 0xF" "getFieldRcode ?m = rc AND 0xF"
    by (rule bit_word_eqI; unfold bit_getFieldOpcode bit_getFieldRcode flag_set_bits bit_and_iff;
        auto simp: bit_simps bit_0xF)+
qed (simp_all add: getFlagQR_bit flag_bits flag_set_bits)

section \<open>Names with compression pointers\<close>

text \<open>C21: labels that end in a pointer to a complete name earlier in the message decode to those labels
  followed by the labels of that name; the reader advances past the labels and the two pointer octets.\<close>
theorem compressed_name:
  assumes "pre \<noteq> []" "length pre < 16384" "valid_name 64 tail" "\<forall>l \<in> set ls. valid_label 64 l"
  shows "readName (pre @ encodeDomainName tail @ mid @ wire_labels ls @ pointer_octets (length pre) @ post)
      (length (pre @ encodeDomainName tail @ mid))
    = Some (Inr (join_with (CHR ''.'') (ls @ dots tail), length (wire_labels ls) + 2))"
proof -
  let ?msg = "pre @ encodeDomainName tail @ mid @ wire_labels ls @ pointer_octets (length pre) @ post"
  let ?j = "join_with (CHR ''.'') ls"
  have "decodeDomainName ?msg (length (pre @ encodeDomainName tail @ mid))
      = Inr (length (wire_labels ls) + 2, ?j, length pre)"
    using decode_pointer_octets [OF assms(2,4), of "pre @ encodeDomainName tail @ mid" post] by simp
  moreover have "decodeDomainName ?msg (length pre) = Inr (length tail + 2, tail, 0)"
    by (rule decodeDomainName_encode [OF assms(3)])
  moreover have "ls \<noteq> [] \<Longrightarrow> ?j \<noteq> []"
    using assms(4) by (auto simp: join_with_eq_Nil valid_label_def)
  ultimately show ?thesis
    using assms(1) by (cases "ls = []") (simp_all add: readName_def follow_pointers_step join_with_append)
qed

theorem compressed_name_witness:
  "readName ([0] @ encodeDomainName ''example.org'' @ [9] @ wire_labels [''www''] @ pointer_octets 1 @ [5]) 15
    = Some (Inr (''www.example.org'', 6))"
  using compressed_name [of "[0]" "''example.org''" "[''www'']" "[9]" "[5]"]
  by (simp add: valid_name_def valid_label_def dot_free_def eval_nat_numeral)

text \<open>A response whose first question is a pointer to itself makes the client hang: \<open>resolve\<close> does not
  return, whatever the rest of the datagram and the array's previous content.\<close>
theorem pointer_loop_hangs_client:
  assumes "qCount h \<noteq> 0"
  shows "resolve useRecursion addr True (Some (encodeHeader h @ pointer_octets 12 @ rest)) junk j1 j2 j3 = None"
proof -
  define tail where "tail = take 498 rest @ drop (14 + length (take 498 rest)) junk"
  define msg where "msg = encodeHeader h @ pointer_octets 12 @ tail"
  have recv: "recv_512 junk (encodeHeader h @ pointer_octets 12 @ rest) = msg"
    by (simp add: recv_512_def overwrite_0_append pointer_octets_def msg_def tail_def)
  have d: "decodeDomainName msg 12 = Inr (2, [], 12)"
    using decode_pointer_octets [of 12 "[]" "encodeHeader h" tail] by (simp add: msg_def)
  have "follow_pointers msg 12 [] = None"
    by (rule follow_pointers_cycle [where S = "{12}"]) (use d in auto)
  with d have q: "readQuestion msg 12 = None"
    by (simp add: readQuestion_def readName_def)
  obtain k where k: "unat (qCount h) = Suc k"
    using assms by (metis not0_implies_Suc unat_eq_zero)
  show ?thesis
    unfolding resolve_def recv option.case decodeResponse_def Let_def
    using q k by (simp add: msg_def decodeHeader_encode)
qed

theorem pointer_loop_hangs_client_witness:
  "resolve False ''a'' True
     (Some (encodeHeader ((new_message 0xAAAA True)\<lparr>qCount := 1\<rparr>) @ pointer_octets 12)) (replicate 512 0) 0 0 0
    = None"
  using pointer_loop_hangs_client [of "(new_message 0xAAAA True)\<lparr>qCount := 1\<rparr>" False "''a''" "[]"]
  by simp

text \<open>When the names read from a set of positions point only backwards and into the set, as RFC 1035
  (4.1.4) requires of a message, reading a name at any of these positions returns.\<close>
theorem backward_pointers_terminate:
  assumes "\<forall>p \<in> S. \<forall>n part p'. decodeDomainName msg p = Inr (n, part, p') \<longrightarrow> p' = 0 \<or> p' < p \<and> p' \<in> S"
    and "pos \<in> S"
  shows "\<exists>r. readName msg pos = Some r"
proof (cases "decodeDomainName msg pos")
  case (Inr res)
  obtain n part p' where d: "decodeDomainName msg pos = Inr (n, part, p')" using Inr by (cases res) auto
  moreover have "\<exists>r. follow_pointers msg p' part = Some r"
    by (rule follow_pointers_backward [where S = S]) (use assms d in blast)+
  then obtain r where "follow_pointers msg p' part = Some r" by blast
  ultimately show ?thesis by (cases r) (simp_all add: readName_def)
qed (simp add: readName_def)

definition sample_message :: bytes where
  "sample_message = [9, 1, 97, 0, 1, 98, 192, 1, 192, 4]"

lemma sample_message_names:
  "decodeDomainName sample_message 1 = Inr (3, ''a'', 0)"
  "decodeDomainName sample_message 4 = Inr (4, ''b'', 1)"
  "decodeDomainName sample_message 8 = Inr (2, [], 4)"
  by code_simp+

theorem backward_pointers_terminate_witness:
  "\<exists>r. readName sample_message 8 = Some r"
  by (rule backward_pointers_terminate [of "{1, 4, 8}"]) (auto simp: sample_message_names sample_message_names(1) [simplified])

section \<open>Responses\<close>

text \<open>C16: a response made of a header, a question section and an answer section is decoded to exactly these
  questions and records, with the texts of the records as \<open>text_matches\<close> describes them, and the decoder
  reports the length of the message.\<close>
theorem response_roundtrip:
  assumes "\<forall>q \<in> set qs. ok_question q" "\<forall>rr \<in> set ans. ok_record rr"
    and "unat (qCount h) = length qs" "unat (aCount h) = length ans" "nsCount h = 0" "arCount h = 0"
  shows "\<exists>r n. decodeResponse (encodeHeader h @ concat (map enc_question qs) @ concat (map enc_record ans) @ post) r0
      = Some (Inr (r, n))
    \<and> msg_id r = msg_id h \<and> flags r = flags h \<and> questions r = qs \<and> answers r = ans
    \<and> n = length (encodeHeader h @ concat (map enc_question qs) @ concat (map enc_record ans))"
  using decodeResponse_sections [OF assms, of post r0] by simp

definition sample_record :: resource_record where
  "sample_record = \<lparr>rr_name = ''a.b'', rr_type = 1, rr_cls = 1, rr_ttl = 60, rr_data = [1, 2, 3, 4],
     rr_text = dotted [1, 2, 3, 4]\<rparr>"

theorem response_roundtrip_witness:
  "\<exists>r n. decodeResponse (encodeHeader ((new_message 7 True)\<lparr>aCount := 1\<rparr>) @ enc_record sample_record) (new_response 0 0 0 0)
      = Some (Inr (r, n)) \<and> answers r = [sample_record] \<and> n = 31"
  by (rule exE [OF response_roundtrip [of "[]" "[sample_record]" "(new_message 7 True)\<lparr>aCount := 1\<rparr>" "[]"
        "new_response 0 0 0 0"]])
    (auto simp: ok_record_def sample_record_def valid_name_def valid_label_def dot_free_def text_matches_def
      new_message_def setFlagQR_def Let_def)

text \<open>A message that announces name server or additional records is never decoded successfully by a
  fresh response object: the two vectors have reserved storage only, so the first store is out of bounds
  (unless reading has already failed or hung).\<close>
theorem authority_records_never_decode:
  assumes "nsCount h \<noteq> 0 \<or> arCount h \<noteq> 0"
  shows "decodeResponse (encodeHeader h @ rest) (new_response j1 j2 j3 i) \<noteq> Some (Inr res)"
proof
  have pos: "0 < unat w \<longleftrightarrow> w \<noteq> 0" for w :: u16 by (simp add: unat_gt_0)
  assume "decodeResponse (encodeHeader h @ rest) (new_response j1 j2 j3 i) = Some (Inr res)"
  then show False
    using assms read_into_empty_vec [OF pos [THEN iffD2]]
    by (fastforce simp: decodeResponse_def decodeHeader_encode Let_def bind_out_eq_Inr new_response_def
        setFlagQR_def)
qed

theorem authority_records_never_decode_witness:
  "decodeResponse (encodeHeader ((new_message 7 True)\<lparr>nsCount := 1\<rparr>)
      @ enc_record \<lparr>rr_name = ''b'', rr_type = 2, rr_cls = 1, rr_ttl = 60, rr_data = [1, 97, 0], rr_text = []\<rparr>)
    (new_response 0 0 0 0) \<noteq> Some (Inr (new_response 0 0 0 0, 0))"
  using authority_records_never_decode [of "(new_message 7 True)\<lparr>nsCount := 1\<rparr>"] by simp

section \<open>The resolver\<close>

lemma set_join_with: "set (join_with d xs) \<subseteq> insert d (\<Union> (set ` set xs))"
  by (induction d xs rule: join_with.induct) auto

text \<open>A reverse-lookup name (the labels of an address in reverse order under \<open>in-addr.arpa\<close>) is read
  back as the address, and answered with the domain name of the first record with that address.\<close>
theorem reverse_lookup:
  assumes "\<forall>l \<in> set ls. l \<noteq> [] \<and> dot_free l \<and> CHR ''i'' \<notin> set l" "ls \<noteq> []"
    and "qn = join_with (CHR ''.'') (rev ls) @ ''.in-addr.arpa''"
  shows "getIpAddrFromQname qn = join_with (CHR ''.'') ls
    \<and> lookup_rdata records qn = findDomainName records (join_with (CHR ''.'') ls)"
proof -
  have "CHR ''i'' \<notin> set (join_with (CHR ''.'') (rev ls))"
    using assms(1) set_join_with [of "CHR ''.''" "rev ls"] by auto
  then have "find_sub ''.in-addr.arpa'' qn = Some (length (join_with (CHR ''.'') (rev ls)))"
    using find_arpa [of _ "[]"] assms(3) by simp
  then have "getIpAddrFromQname qn = join_with (CHR ''.'') (rev (dots (join_with (CHR ''.'') (rev ls))))"
    using getIpAddrFromQname_reverses assms(3) by fastforce
  moreover have "dots (join_with (CHR ''.'') (rev ls)) = rev ls"
    using assms(1,2) by (intro dots_join) auto
  moreover have "join_with (CHR ''.'') ls \<noteq> []"
    using assms(1,2) by (auto simp: join_with_eq_Nil)
  ultimately show ?thesis by (simp add: lookup_rdata_def)
qed

theorem reverse_lookup_witness:
  "lookup_rdata [(''10.1.2.3'', ''host.lan'')] ''3.2.1.10.in-addr.arpa'' = ''host.lan''"
  using reverse_lookup [of "[''10'', ''1'', ''2'', ''3'']" "''3.2.1.10.in-addr.arpa''" "[(''10.1.2.3'', ''host.lan'')]"]
  by (simp add: dot_free_def findDomainName_def)

lemma find_first: "find P xs = Some x \<longleftrightarrow> (\<exists>pre post. xs = pre @ x # post \<and> P x \<and> (\<forall>y \<in> set pre. \<not> P y))"
proof (induction xs)
  case (Cons a xs)
  show ?case
  proof (cases "P a")
    case True
    then show ?thesis by (auto simp: Cons_eq_append_conv)
  next
    case False
    then show ?thesis using Cons by (auto simp: Cons_eq_append_conv) (metis append_Cons set_ConsD)
  qed
qed simp

text \<open>A query for an ordinary name is answered without error exactly when the first record with that name
  has an address, which is then the answer's data; otherwise the response code is 3 (name error). The
  response repeats the query's identifier, name, type and class and announces one question and one answer.\<close>
theorem process_answers:
  assumes "getIpAddrFromQname (qname q) = []"
  shows "let r' = process_query records q r in
    (getRcode r' = 0 \<longleftrightarrow> (\<exists>pre post. records = pre @ (r_data r', qname q) # post \<and> r_data r' \<noteq> []
        \<and> qname q \<notin> snd ` set pre))
    \<and> (getRcode r' \<noteq> 0 \<longrightarrow> getRcode r' = 3 \<and> r_data r' = [])
    \<and> msg_id r' = msg_id q \<and> r_name r' = qname q \<and> r_type r' = qtype q \<and> r_cls r' = qclass q
    \<and> qCount r' = 1 \<and> aCount r' = 1"
proof -
  have l: "lookup_rdata records (qname q) = findAddress records (qname q)"
    using assms by (simp add: lookup_rdata_def)
  have "findAddress records d = a \<and> a \<noteq> [] \<longleftrightarrow>
      (\<exists>pre post. records = pre @ (a, d) # post \<and> a \<noteq> [] \<and> d \<notin> snd ` set pre)" for a d
  proof
    assume "findAddress records d = a \<and> a \<noteq> []"
    then obtain x where x: "find (\<lambda>r. snd r = d) records = Some x" "fst x = a"
      by (auto simp: findAddress_def split: option.splits)
    obtain pre post where "records = pre @ x # post" "snd x = d" "\<forall>y \<in> set pre. snd y \<noteq> d"
      using x(1) unfolding find_first by blast
    with x(2) \<open>findAddress records d = a \<and> a \<noteq> []\<close>
    show "\<exists>pre post. records = pre @ (a, d) # post \<and> a \<noteq> [] \<and> d \<notin> snd ` set pre"
      by (metis imageE prod.collapse)
  next
    assume "\<exists>pre post. records = pre @ (a, d) # post \<and> a \<noteq> [] \<and> d \<notin> snd ` set pre"
    then obtain pre post where "records = pre @ (a, d) # post" "a \<noteq> []" "d \<notin> snd ` set pre" by blast
    then have "find (\<lambda>r. snd r = d) records = Some (a, d)"
      unfolding find_first by (intro exI [of _ pre] exI [of _ post]) force
    with \<open>a \<noteq> []\<close> show "findAddress records d = a \<and> a \<noteq> []" by (simp add: findAddress_def)
  qed
  from this [of "qname q" "findAddress records (qname q)"] show ?thesis
    by (simp add: getRcode_process l Let_def)
qed

theorem process_answers_witness:
  "getRcode (process_query [(''1.2.3.4'', ''a.b''), (''5.6.7.8'', ''a.b'')] (new_query\<lparr>qname := ''a.b''\<rparr>) (new_response 0 0 0 0)) = 0
   \<and> getRcode (process_query [(''1.2.3.4'', ''a.b'')] (new_query\<lparr>qname := ''c.b''\<rparr>) (new_response 0 0 0 0)) = 3"
proof -
  have "getIpAddrFromQname ''a.b'' = []" "getIpAddrFromQname ''c.b'' = []"
    by (simp_all add: getIpAddrFromQname_def)
  then show ?thesis
    using process_answers [of "new_query\<lparr>qname := ''a.b''\<rparr>" "[(''1.2.3.4'', ''a.b''), (''5.6.7.8'', ''a.b'')]" "new_response 0 0 0 0"]
      process_answers [of "new_query\<lparr>qname := ''c.b''\<rparr>" "[(''1.2.3.4'', ''a.b'')]" "new_response 0 0 0 0"]
    by (simp add: Let_def lookup_rdata_def findAddress_def getRcode_process Cons_eq_append_conv)
qed

text \<open>A line of the records file: address, white space beginning with a blank, domain name.\<close>

definition ok_line :: "string \<times> string \<times> string \<Rightarrow> bool" where
  "ok_line e = (case e of (ip, ws, dn) \<Rightarrow>
     CHR '' '' \<notin> set ip \<and> ws \<noteq> [] \<and> hd ws = CHR '' '' \<and> (\<forall>c \<in> set ws. isspace c)
     \<and> dn \<noteq> [] \<and> \<not> isspace (hd dn) \<and> CHR 0x0A \<notin> set (ip @ ws @ dn))"

text \<open>A records file of well-formed lines, each closed by a newline, loads as exactly its records, in
  order, after those already known.\<close>
theorem records_file_loads:
  assumes "\<forall>e \<in> set es. ok_line e"
  shows "loadRecordsFromFile (Some (concat (map (\<lambda>(ip, ws, dn). ip @ ws @ dn @ [CHR 0x0A]) es))) records
    = records @ map (\<lambda>(ip, ws, dn). (ip, dn)) es"
proof -
  have "fold addLine (getline_split (CHR 0x0A) (concat (map (\<lambda>(ip, ws, dn). ip @ ws @ dn @ [CHR 0x0A]) es))) records
      = records @ map (\<lambda>(ip, ws, dn). (ip, dn)) es"
    using assms
  proof (induction es arbitrary: records)
    case (Cons e es)
    obtain ip ws dn where e: "e = (ip, ws, dn)" by (cases e)
    have "addLine (ip @ ws @ dn) records = records @ [(ip, dn)]"
      using Cons.prems e by (intro addLine_record) (auto simp: ok_line_def)
    moreover have "CHR 0x0A \<notin> set (ip @ ws @ dn)" using Cons.prems e by (simp add: ok_line_def)
    then have "getline_split (CHR 0x0A) ((ip @ ws @ dn) @ CHR 0x0A # rest) = (ip @ ws @ dn) # getline_split (CHR 0x0A) rest" for rest
      by (rule getline_split_step)
    ultimately show ?case using Cons e by simp
  qed simp
  then show ?thesis by (simp add: loadRecordsFromFile_def)
qed

theorem records_file_loads_witness:
  "loadRecordsFromFile (Some (''1.2.3.4  a.b'' @ [CHR 0x0A] @ ''5.6.7.8 c'' @ [CHR 0x0A])) []
   = [(''1.2.3.4'', ''a.b''), (''5.6.7.8'', ''c'')]"
  using records_file_loads [of "[(''1.2.3.4'', ''  '', ''a.b''), (''5.6.7.8'', '' '', ''c'')]" "[]"]
  by (simp add: ok_line_def isspace_def)

section \<open>The server\<close>

text \<open>C4: a waiting server that receives the encoding of a valid query starts sending a reply, and whoever
  decodes that reply finds the query's identifier and question, a response flag, and one answer: the
  resolver's data as an encoded domain name (whatever the record type), with a time to live that the
  server never sets: it is what the storage of the response object held.\<close>
theorem server_exchange:
  assumes "running s" "receiving s" "valid_name 64 (qname q)" "\<not> getFlagQR q"
    and "length (lookup_rdata (resolver_records s) (qname q)) < 65534"
    and "text_matches (qtype q) (encodeDomainName (lookup_rdata (resolver_records s) (qname q))) t"
  shows "\<exists>s' b r. dns_step s (Received (Datagram (encodeQuery q)) j1 j2 j3) s' \<and> sending s' = Some b
    \<and> decodeResponse (b @ post) r0 = Some (Inr (r, length b))
    \<and> msg_id r = msg_id q \<and> getFlagQR r
    \<and> getRcode r = (if lookup_rdata (resolver_records s) (qname q) = [] then 3 else 0)
    \<and> questions r = [\<lparr>q_name = qname q, q_type = qtype q, q_cls = qclass q\<rparr>]
    \<and> answers r = [\<lparr>rr_name = qname q, rr_type = qtype q, rr_cls = qclass q, rr_ttl = j3,
         rr_data = encodeDomainName (lookup_rdata (resolver_records s) (qname q)), rr_text = t\<rparr>]"
  using dns_step_query [OF assms(1-4), of j1 j2 j3] reply_decodes [OF assms(3,5,6) refl, of j1 j2 j3 post r0]
  by (metis (no_types, lifting) dns_server.select_convs(3) dns_server.surjective dns_server.update_convs(3))

lemma sample_query_facts:
  "valid_name 64 (qname sample_query)" "\<not> getFlagQR sample_query" "qtype sample_query = 1"
  "qname sample_query = ''www.example.org''"
  by (simp_all add: sample_query_def new_query_def valid_name_def valid_label_def dot_free_def getFlagQR_bit)

theorem server_exchange_witness:
  "\<exists>s' b r. dns_step (dns_start [(''10.0.0.1'', ''www.example.org'')])
      (Received (Datagram (encodeQuery sample_query)) 0 0 9) s' \<and> sending s' = Some b
    \<and> decodeResponse b (new_response 0 0 0 0) = Some (Inr (r, length b)) \<and> getRcode r = 0
    \<and> map rr_ttl (answers r) = [9] \<and> map rr_data (answers r) = [encodeDomainName ''10.0.0.1'']"
proof -
  have l: "lookup_rdata [(''10.0.0.1'', ''www.example.org'')] ''www.example.org'' = ''10.0.0.1''"
    by (simp add: lookup_rdata_def getIpAddrFromQname_def findAddress_def)
  let ?s = "dns_start [(''10.0.0.1'', ''www.example.org'')]"
  let ?d = "encodeDomainName ''10.0.0.1''"
  have ne: "?d \<noteq> []" by (simp add: encodeDomainName_def)
  have pre: "running ?s" "receiving ?s"
    "length (lookup_rdata (resolver_records ?s) (qname sample_query)) < 65534"
    "text_matches (qtype sample_query) (encodeDomainName (lookup_rdata (resolver_records ?s) (qname sample_query)))
       (dotted ?d)"
    using l ne by (simp_all add: sample_query_facts dns_start_def text_matches_def)
  show ?thesis
    using server_exchange [OF pre(1,2) sample_query_facts(1,2) pre(3,4), of 0 0 9 "[]" "new_response 0 0 0 0"] l
    by (elim exE conjE) (rule exI, rule exI, rule exI, intro conjI, assumption, assumption, auto simp: sample_query_facts dns_start_def)
qed

text \<open>C28: in every run from the start there is at most one operation outstanding on the socket, and every reply
  sent or being sent is the resolver's answer to a query the server received and could decode.\<close>
theorem server_replies:
  assumes "dns_run (dns_start recs) es s"
  shows "\<not> (receiving s \<and> sending s \<noteq> None)
    \<and> set (replies s) \<union> set_option (sending s) \<subseteq> {b. answered recs es b}"
  using dns_run_inv [OF assms] dns_run_sends [OF assms]
  by (auto simp: dns_inv_def dns_start_def sent_or_sending_def)

theorem server_replies_witness:
  "\<exists>s. dns_run (dns_start []) [Received Read_Failed 0 0 0] s \<and> \<not> (receiving s \<and> sending s \<noteq> None)"
proof -
  have "dns_step (dns_start []) (Received Read_Failed 0 0 0) ((dns_start [])\<lparr>receiving := False\<rparr>)"
    by (rule dns_step.recv) (simp_all add: dns_start_def on_received_def)
  from dns_run.run_cons [OF this dns_run.run_nil] show ?thesis
    using server_replies by blast
qed

text \<open>C33: one datagram is enough to silence the server for good. After a failed receive or a datagram
  with the response flag set, and equally after a failed send, it never replies again, whatever follows.\<close>
theorem server_goes_deaf:
  assumes "dns_step s e s'" "dns_inv s"
    and "(\<exists>oc j1 j2 j3. e = Received oc j1 j2 j3 \<and>
          (case oc of Datagram d \<Rightarrow> (\<exists>q n. decodeQuery d new_query = Inr (q, n) \<and> getFlagQR q) | _ \<Rightarrow> True))
      \<or> e = Sent False"
    and "dns_run s' es s''"
  shows "replies s'' = replies s \<and> \<not> receiving s'' \<and> sending s'' = None"
proof -
  have "deaf s' \<and> replies s' = replies s"
    using assms(1-3)
    by (induction rule: dns_step.induct)
      (auto simp: deaf_def dns_inv_def dns_handler_defs resl_simps split: recv_outcome.splits if_splits)
  with dns_run_deaf [OF assms(4)] show ?thesis by (simp add: deaf_def)
qed

theorem server_goes_deaf_witness:
  "replies ((dns_start [])\<lparr>receiving := False\<rparr>) = replies (dns_start [])
   \<and> \<not> receiving ((dns_start [])\<lparr>receiving := False\<rparr>)"
  using server_goes_deaf [of "dns_start []" "Received Read_Failed 0 0 0" "(dns_start [])\<lparr>receiving := False\<rparr>" "[]"
      "(dns_start [])\<lparr>receiving := False\<rparr>"]
  by (simp add: dns_step_recv dns_inv_def dns_start_def on_received_def dns_run.run_nil)

section \<open>The client against the server\<close>

lemma dotted_longer: "d \<noteq> [] \<Longrightarrow> 2 * length d - 1 \<le> length (dotted d)"
proof (induction d)
  case (Cons b d)
  obtain c cs where "dec_of_nat (unat b) = c # cs" by (cases "dec_of_nat (unat b)") auto
  with Cons show ?case by (cases "d = []") (simp_all add: dotted_def join_with_Cons)
qed simp

text \<open>Resolving a name that this server knows prints an address that is not the name's address: for a
  type A query the client receives and decodes the reply, but the answer's text is the dotted rendering of
  the encoded text of the address, never the address, and the function returns the empty string.\<close>
theorem client_never_sees_address:
  assumes "running s" "receiving s" "valid_name 64 name"
    and "lookup_rdata (resolver_records s) name = ip" "2 * length name + length ip + 32 \<le> 512"
  shows "\<exists>s' b res r. dns_step s (Received (Datagram (encodeQuery (client_query rec name))) j1 j2 j3) s'
    \<and> sending s' = Some b
    \<and> resolve rec name True (Some b) junk k1 k2 k3 = Some (Inr res) \<and> dumped res = Some r
    \<and> map rr_text (answers r) = [dotted (encodeDomainName ip)]
    \<and> dotted (encodeDomainName ip) \<noteq> ip \<and> resolved res = []"
proof -
  let ?q = "client_query rec name" and ?d = "encodeDomainName ip"
  have ne: "?d \<noteq> []" by (metis length_encodeDomainName list.size(3) add_is_0 zero_neq_numeral)
  have "length (dotted ?d) \<noteq> length ip" using dotted_longer [OF ne] by simp
  then have long: "dotted ?d \<noteq> ip" by metis
  have tm: "text_matches (qtype ?q) ?d (dotted ?d)" using ne by (simp add: text_matches_def)
  define b where "b = encodeResponse (process_query (resolver_records s) ?q (new_response j1 j2 j3 0))"
  have "length b = 2 * length name + length ip + 32" using assms(4)
    by (simp add: b_def encodeResponse_def Let_def)
  then have recv: "recv_512 junk b = b @ drop (length b) junk"
    using assms(5) by (simp add: recv_512_def overwrite_0_append)
  obtain r where r: "decodeResponse (b @ drop (length b) junk) (new_response k1 k2 k3 0) = Some (Inr (r, length b))"
      "msg_id r = 0xAAAA" "map rr_text (answers r) = [dotted ?d]"
    using reply_decodes [of ?q "resolver_records s" "dotted ?d" b j1 j2 j3 "drop (length b) junk" "new_response k1 k2 k3 0"]
      assms(3,4,5) tm b_def by auto
  let ?s' = "s\<lparr>receiving := False, sending := Some b\<rparr>"
  let ?res = "\<lparr>query_sent = encodeQuery ?q, dumped = Some r, resolved = []\<rparr>"
  have "dns_step s (Received (Datagram (encodeQuery ?q)) j1 j2 j3) ?s'"
    using dns_step_query [OF assms(1,2), of ?q j1 j2 j3] assms(3) client_query_flags(2) by (simp add: b_def)
  moreover have "resolve rec name True (Some b) junk k1 k2 k3 = Some (Inr ?res)"
    using r recv by (simp add: resolve_def)
  ultimately show ?thesis
    using r(3) long by (intro exI [of _ ?s'] exI [of _ b] exI [of _ ?res] exI [of _ r]) simp
qed

theorem client_never_sees_address_witness:
  "\<exists>s' b res r. dns_step (dns_start [(''1.2'', ''a.b'')]) (Received (Datagram (encodeQuery (client_query False ''a.b''))) 0 0 0) s'
    \<and> sending s' = Some b
    \<and> resolve False ''a.b'' True (Some b) [] 0 0 0 = Some (Inr res) \<and> dumped res = Some r
    \<and> map rr_text (answers r) = [''1.49.1.50.0''] \<and> resolved res = []"
proof -
  have "lookup_rdata (resolver_records (dns_start [(''1.2'', ''a.b'')])) ''a.b'' = ''1.2''"
    by (simp add: lookup_rdata_def getIpAddrFromQname_def findAddress_def dns_start_def)
  moreover have "dotted (encodeDomainName ''1.2'') = ''1.49.1.50.0''"
    by (simp add: encodeDomainName_wire wire_label_def dotted_def to_bytes_def u8_of_char_def
        dec_of_nat.simps digit_char_def char_of_def bit_simps)
  ultimately show ?thesis
    using client_never_sees_address [of "dns_start [(''1.2'', ''a.b'')]" "''a.b''" "''1.2''" False 0 0 0 "[]" 0 0 0]
    by (simp add: dns_start_def valid_name_def valid_label_def dot_free_def)
qed

end
