(* ===== verification/DNS_Client_Properties.thy ===== *)
theory DNS_Client_Properties
  imports DNS_Output DNS_Properties
begin

text \<open>
  Properties of what the DNS client prints: the answers of a response as a user reads them, and the
  number base that stays behind.
\<close>

section \<open>Printing\<close>

lemma print_simps [simp]:
  "print [] os = os" "print (i # is) os = print is (put_item i os)" "print (is @ js) os = print js (print is os)"
  by (simp_all add: print_def)

text \<open>Text and numbers, as they look on a stream in decimal with no width set.\<close>

primrec plain :: "item \<Rightarrow> bool" where
  "plain (Str s) = True" | "plain (Num n) = True" | "plain Hex = False" | "plain Dec = False"
| "plain Showbase = False" | "plain Noshowbase = False" | "plain (Setw n) = False" | "plain (Setfill c) = False"

fun item_text :: "item \<Rightarrow> string" where
  "item_text (Str s) = s"
| "item_text (Num n) = dec_of_nat n"
| "item_text _ = []"

abbreviation items_text :: "item list \<Rightarrow> string" where
  "items_text is \<equiv> concat (map item_text is)"

definition decimal :: "ostream \<Rightarrow> bool" where
  "decimal os \<longleftrightarrow> \<not> os_hex os \<and> os_width os = 0"

lemma print_plain:
  "\<forall>i \<in> set is. plain i \<Longrightarrow> decimal os \<Longrightarrow> print is os = os\<lparr>os_text := os_text os @ items_text is\<rparr>"
proof (induction "is" arbitrary: os)
  case (Cons i "is")
  then have "put_item i os = os\<lparr>os_text := os_text os @ item_text i\<rparr>"
    by (cases i) (simp_all add: decimal_def put_padded_def number_text_def)
  moreover have "decimal (os\<lparr>os_text := os_text os @ item_text i\<rparr>)" using Cons.prems(2) by (simp add: decimal_def)
  ultimately show ?case using Cons by simp
qed simp

text \<open>What a list of insertions does to the flags.\<close>

lemma print_hex: "Dec \<notin> set is \<Longrightarrow> os_hex (print is os) \<longleftrightarrow> os_hex os \<or> Hex \<in> set is"
proof (induction "is" arbitrary: os)
  case (Cons i "is")
  then show ?case by (cases i) (auto simp: put_padded_def)
qed simp

lemma print_showbase:
  "Showbase \<notin> set is \<Longrightarrow> \<not> os_showbase os \<Longrightarrow> \<not> os_showbase (print is os)"
proof (induction "is" arbitrary: os)
  case (Cons i "is")
  then show ?case by (cases i) (auto simp: put_padded_def)
qed simp

lemma print_width: "\<forall>n. Setw n \<notin> set is \<Longrightarrow> os_width os = 0 \<Longrightarrow> os_width (print is os) = 0"
proof (induction "is" arbitrary: os)
  case (Cons i "is")
  then show ?case by (cases i) (auto simp: put_padded_def)
qed simp

lemma print_extends: "\<exists>t. os_text (print is os) = os_text os @ t"
proof (induction "is" arbitrary: os)
  case (Cons i "is")
  have "\<exists>t. os_text (put_item i os) = os_text os @ t" by (cases i) (auto simp: put_padded_def)
  with Cons.IH [of "put_item i os"] show ?case by auto
qed simp

section \<open>A dumped response\<close>

definition id_text :: "u16 \<Rightarrow> string" where
  "id_text i = (let s = (if i = 0 then [] else ''0x'') @ hex_of_nat (unat i) in zero_pad 4 s)"

definition header_text :: "'a dns_message_scheme \<Rightarrow> string" where
  "header_text m = ''ID: '' @ id_text (msg_id m) @ '', FLAGS: '' @ hex_of_nat (unat (flags m))
     @ [NL] @ ''Question count: '' @ dec_of_nat (unat (qCount m))
     @ [NL] @ ''Answer record count: '' @ dec_of_nat (unat (aCount m))
     @ [NL] @ ''Name server (Authority record) count: '' @ dec_of_nat (unat (nsCount m))
     @ [NL] @ ''Additional record count: '' @ dec_of_nat (unat (arCount m))"

lemma print_message:
  assumes "os_width os = 0"
  shows "print (dump_message m) os
    = os\<lparr>os_text := os_text os @ header_text m, os_hex := False, os_showbase := False, os_fill := CHR ''0''\<rparr>"
  using assms
  by (cases os) (simp add: dump_message_def put_padded_def number_text_def header_text_def id_text_def zero_pad_def Let_def unsigned_eq_0_iff)

definition question_line :: "question \<Rightarrow> string" where
  "question_line q = '' name: '' @ q_name q @ '', type: '' @ dec_of_nat (unat (q_type q))
     @ '', class: '' @ dec_of_nat (unat (q_cls q)) @ [NL]"

text \<open>The line of a record with an address or a canonical name.\<close>

definition answer_line :: "resource_record \<Rightarrow> string" where
  "answer_line rr = '' name: '' @ rr_name rr @ '', type: '' @ dec_of_nat (unat (rr_type rr))
     @ '', class: '' @ dec_of_nat (unat (rr_cls rr)) @ '', TTL: '' @ dec_of_nat (unat (rr_ttl rr))
     @ '', rlength: '' @ dec_of_nat (length (rr_data rr))
     @ (if rr_type rr = 1 then '', Address: '' else '', CNAME: '') @ rr_text rr @ [NL]"

definition has_text :: "resource_record \<Rightarrow> bool" where
  "has_text rr \<longleftrightarrow> rr_type rr = 1 \<or> rr_type rr = 5"

lemma type_codes [simp]: "ucast (qtype_code QT_A) = (1 :: u16)" "ucast (qtype_code QT_CNAME) = (5 :: u16)"
  by simp_all

lemma dump_question_text: "items_text (dump_question q) = question_line q" "\<forall>i \<in> set (dump_question q). plain i"
  by (simp_all add: dump_question_def question_line_def)

lemma dump_record_text:
  "has_text rr \<Longrightarrow> items_text (dump_record rr) = answer_line rr" "has_text rr \<Longrightarrow> \<forall>i \<in> set (dump_record rr). plain i"
  by (auto simp: dump_record_def answer_line_def has_text_def)

definition sections_text :: "dns_response \<Rightarrow> string" where
  "sections_text r = [NL] @ ''Questions: '' @ [NL] @ concat (map question_line (questions r))
     @ [NL] @ ''Answers: '' @ [NL] @ concat (map answer_line (answers r))
     @ [NL] @ ''Name servers: '' @ [NL] @ concat (map answer_line (authority r))
     @ [NL] @ ''Additional records: '' @ [NL] @ concat (map answer_line (additional r))"

lemma print_response:
  assumes "os_width os = 0" "\<forall>rr \<in> set (answers r @ authority r @ additional r). has_text rr"
  shows "print (dump_response r) os = os\<lparr>os_text := os_text os @ header_text r @ sections_text r, os_hex := False,
    os_showbase := False, os_fill := CHR ''0''\<rparr>"
proof -
  define its where "its = [Str (NL # ''Questions: ''), Str [NL]] @ concat (map dump_question (questions r))
     @ [Str (NL # ''Answers: ''), Str [NL]] @ concat (map dump_record (answers r))
     @ [Str (NL # ''Name servers: ''), Str [NL]] @ concat (map dump_record (authority r))
     @ [Str (NL # ''Additional records: ''), Str [NL]] @ concat (map dump_record (additional r))"
  have lines: "items_text (concat (map dump_question qs)) = concat (map question_line qs)" for qs
    by (induction qs) (simp_all add: dump_question_text)
  have recs: "\<forall>rr \<in> set rrs. has_text rr \<Longrightarrow> items_text (concat (map dump_record rrs)) = concat (map answer_line rrs)" for rrs
    by (induction rrs) (simp_all add: dump_record_text)
  have prec: "\<forall>i \<in> set (concat (map dump_record rrs)). plain i" if "\<forall>rr \<in> set rrs. has_text rr" for rrs
    using that dump_record_text(2) by (induction rrs) auto
  have pq: "\<forall>i \<in> set (concat (map dump_question qs)). plain i" for qs
    using dump_question_text(2) by (induction qs) auto
  have "\<forall>i \<in> set its. plain i"
    using assms(2) pq [of "questions r"] prec [of "answers r"] prec [of "authority r"] prec [of "additional r"]
    unfolding its_def by (simp add: ball_Un del: set_concat set_map)
  moreover have "items_text its = sections_text r"
    using assms(2) by (simp add: its_def lines recs sections_text_def del: map_concat)
  moreover have "dump_response r = dump_message r @ its" by (simp add: dump_response_def its_def)
  ultimately show ?thesis
    using print_plain [of its] by (simp add: print_message [OF assms(1)] decimal_def assms(1))
qed

section \<open>What the user sees\<close>

definition exchange_text :: "string \<Rightarrow> u16 \<Rightarrow> nat \<Rightarrow> nat \<Rightarrow> nat \<Rightarrow> string" where
  "exchange_text host port sent got used =
     '' Sending query to '' @ host @ '':'' @ dec_of_nat (unat port) @ [NL]
     @ '' The query length is '' @ dec_of_nat sent @ '' bytes.'' @ [NL] @ '' Sent '' @ dec_of_nat sent @ '' bytes.'' @ [NL]
     @ '' Receiving response from '' @ host @ '':'' @ dec_of_nat (unat port) @ [NL]
     @ '' Received '' @ dec_of_nat got @ '' bytes.  Decoded '' @ dec_of_nat used @ '' bytes.'' @ [NL]"

text \<open>The output for a response that fits: plain text, then the dump of what was encoded.\<close>

lemma response_output:
  assumes "\<forall>q \<in> set qs. ok_question q" "\<forall>rr \<in> set ans. ok_record rr"
    and "unat (qCount h) = length qs" "unat (aCount h) = length ans" "nsCount h = 0" "arCount h = 0" "msg_id h = 0xAAAA"
    and "d = encodeHeader h @ concat (map enc_question qs) @ concat (map enc_record ans)" "length d \<le> 512"
    and "n_send env = None" "n_arrival env = Inr d"
  shows "\<exists>pre r. resolve_output path host port rec addr env = Some (Inr (pre @ dump_response r)) \<and> (\<forall>i \<in> set pre. plain i)
    \<and> items_text pre = exchange_text host port (length (encodeQuery (client_query rec addr))) (length d) (length d)
    \<and> questions r = qs \<and> answers r = ans \<and> authority r = [] \<and> additional r = [] \<and> header_text r = header_text h"
proof -
  let ?r0 = "new_response (n_type env) (n_cls env) (n_ttl env) 0"
  define r where "r = ?r0\<lparr>msg_id := msg_id h, flags := flags h, qCount := qCount h, aCount := aCount h,
                  nsCount := 0, arCount := 0, questions := qs, answers := ans\<rparr>"
  define pre where "pre = [Str '' Sending query to '', Str host, Str '':'', Num (unat port), Str [NL],
      Str '' The query length is '', Num (length (encodeQuery (client_query rec addr))), Str ('' bytes.'' @ [NL]),
      Str '' Sent '', Num (length (encodeQuery (client_query rec addr))), Str ('' bytes.'' @ [NL]),
      Str '' Receiving response from '', Str host, Str '':'', Num (unat port), Str [NL],
      Str '' Received '', Num (length d), Str '' bytes. '', Str '' Decoded '', Num (length d), Str ('' bytes.'' @ [NL])]"
  have rd: "recv_512 (n_junk env) d = d @ drop (length d) (n_junk env)"
    using assms(9) by (simp add: recv_512_def overwrite_0_append)
  have dec: "decodeResponse (recv_512 (n_junk env) d) ?r0 = Some (Inr (r, length d))"
  proof -
    have "d @ drop (length d) (n_junk env)
        = encodeHeader h @ concat (map enc_question qs) @ concat (map enc_record ans) @ drop (length d) (n_junk env)"
      by (simp add: assms(8))
    moreover have "length d = 12 + length (concat (map enc_question qs)) + length (concat (map enc_record ans))"
      by (simp add: assms(8))
    ultimately show ?thesis
      unfolding rd r_def using decodeResponse_sections [OF assms(1-6)] by (simp only:)
  qed
  have out: "resolve_output path host port rec addr env = Some (Inr (pre @ dump_response r))"
    using assms(7,9,10,11) by (simp add: resolve_output_def Let_def dec pre_def r_def)
  have plain: "\<forall>i \<in> set pre. plain i" by (simp add: pre_def)
  have pt: "items_text pre = exchange_text host port (length (encodeQuery (client_query rec addr))) (length d) (length d)"
    by (simp add: pre_def exchange_text_def)
  have fields: "answers r = ans" "authority r = []" "additional r = []" "questions r = qs" "header_text r = header_text h"
    using assms(5,6) by (simp_all add: r_def new_response_def setFlagQR_def Let_def header_text_def)
  show ?thesis using out plain pt fields by (intro exI [of _ pre] exI [of _ r] conjI)
qed

lemma printed_response:
  assumes "\<forall>q \<in> set qs. ok_question q" "\<forall>rr \<in> set ans. ok_record rr \<and> has_text rr"
    and "unat (qCount h) = length qs" "unat (aCount h) = length ans" "nsCount h = 0" "arCount h = 0" "msg_id h = 0xAAAA"
    and "d = encodeHeader h @ concat (map enc_question qs) @ concat (map enc_record ans)" "length d \<le> 512"
    and "n_send env = None" "n_arrival env = Inr d" "decimal os"
  shows "\<exists>out. resolve_output path host port rec addr env = Some (Inr out)
    \<and> os_text (print out os) = os_text os @ exchange_text host port (length (encodeQuery (client_query rec addr))) (length d) (length d)
        @ header_text h
        @ [NL] @ ''Questions: '' @ [NL] @ concat (map question_line qs)
        @ [NL] @ ''Answers: '' @ [NL] @ concat (map answer_line ans)
        @ [NL] @ ''Name servers: '' @ [NL] @ [NL] @ ''Additional records: '' @ [NL]
    \<and> decimal (print out os)"
proof -
  have recs: "\<forall>rr \<in> set ans. ok_record rr" and texts: "\<forall>rr \<in> set ans. has_text rr" using assms(2) by simp_all
  obtain pre r where out: "resolve_output path host port rec addr env = Some (Inr (pre @ dump_response r))" and pl: "\<forall>i \<in> set pre. plain i"
    and pt: "items_text pre = exchange_text host port (length (encodeQuery (client_query rec addr))) (length d) (length d)"
    and fields: "questions r = qs" "answers r = ans" "authority r = []" "additional r = []" "header_text r = header_text h"
    using response_output [OF assms(1) recs assms(3-11), of path host port rec addr] by blast
  have p: "print pre os = os\<lparr>os_text := os_text os @ items_text pre\<rparr>" using print_plain [OF pl assms(12)] .
  define os1 where "os1 = os\<lparr>os_text := os_text os @ items_text pre\<rparr>"
  have r: "print (dump_response r) os1 = os1\<lparr>os_text := os_text os1 @ header_text r @ sections_text r,
      os_hex := False, os_showbase := False, os_fill := CHR ''0''\<rparr>"
    using texts assms(12) by (intro print_response) (simp_all add: os1_def fields decimal_def)
  have "print (pre @ dump_response r) os = os1\<lparr>os_text := os_text os1 @ header_text r @ sections_text r,
      os_hex := False, os_showbase := False, os_fill := CHR ''0''\<rparr>"
    unfolding print_simps(3) p os1_def [symmetric] by (rule r)
  then show ?thesis
    using assms(12) unfolding out
    by (intro exI [of _ "pre @ dump_response r"]) (simp add: os1_def pt fields sections_text_def decimal_def del: length_encodeQuery)
qed

text \<open>C15: The client prints what it is told: for a response with the identifier of the query, whose questions and records
  fit the 512 octets and whose answers are addresses and canonical names, it prints the header, every question and, for
  each answer, the name, type, class, time to live, length and the address or name in its text form, in order and in
  decimal, on a stream that prints decimal numbers, and leaves it printing them.\<close>
theorem client_prints_answers:
  assumes "\<forall>q \<in> set qs. ok_question q" "\<forall>rr \<in> set ans. ok_record rr \<and> has_text rr"
    and "unat (qCount h) = length qs" "unat (aCount h) = length ans" "nsCount h = 0" "arCount h = 0" "msg_id h = 0xAAAA"
    and "d = encodeHeader h @ concat (map enc_question qs) @ concat (map enc_record ans)" "length d \<le> 512"
    and "n_send env = None" "n_arrival env = Inr d" "decimal os"
  shows "\<exists>out. resolve_output path host port rec addr env = Some (Inr out)
    \<and> os_text (print out os) = os_text os @ exchange_text host port (length (encodeQuery (client_query rec addr))) (length d) (length d)
        @ header_text h
        @ [NL] @ ''Questions: '' @ [NL] @ concat (map question_line qs)
        @ [NL] @ ''Answers: '' @ [NL] @ concat (map answer_line ans)
        @ [NL] @ ''Name servers: '' @ [NL] @ [NL] @ ''Additional records: '' @ [NL]
    \<and> decimal (print out os)"
  by (rule printed_response [OF assms])

definition sample_env :: "bytes \<Rightarrow> resolve_env" where
  "sample_env d = \<lparr>n_send = None, n_arrival = Inr d, n_junk = replicate 512 0, n_type = 0, n_cls = 0, n_ttl = 0\<rparr>"

definition one_answer :: "resource_record \<Rightarrow> bytes" where
  "one_answer rr = encodeHeader ((new_message 0xAAAA True)\<lparr>aCount := 1\<rparr>) @ enc_record rr"

lemma sample_fields [simp]: "n_send (sample_env d) = None" "n_arrival (sample_env d) = Inr d" "decimal cout" "os_text cout = []"
  by (simp_all add: sample_env_def decimal_def cout_def)

lemma sample_record_ok: "ok_record sample_record" "has_text sample_record" "length (rr_data sample_record) = 4"
  by (simp_all add: ok_record_def sample_record_def valid_name_def valid_label_def dot_free_def text_matches_def has_text_def)

lemma header_fields [simp]:
  "qCount (new_message i b) = 0" "nsCount (new_message i b) = 0" "arCount (new_message i b) = 0" "msg_id (new_message i b) = i"
  by (simp_all add: new_message_def setFlagQR_def Let_def)

theorem client_prints_answers_witness:
  "\<exists>out t. resolve_output ''c.cpp'' ''8.8.8.8'' 53 False ''a.b'' (sample_env (one_answer sample_record)) = Some (Inr out)
    \<and> os_text (print out cout) = t @ '' name: a.b, type: 1, class: 1, TTL: 60, rlength: 4, Address: 1.2.3.4'' @ [NL]
        @ [NL] @ ''Name servers: '' @ [NL] @ [NL] @ ''Additional records: '' @ [NL]"
proof -
  let ?h = "(new_message 0xAAAA True)\<lparr>aCount := 1\<rparr>" and ?d = "one_answer sample_record"
  have line: "answer_line sample_record = '' name: a.b, type: 1, class: 1, TTL: 60, rlength: 4, Address: 1.2.3.4'' @ [NL]"
    unfolding answer_line_def sample_record_ok(3) by (simp add: sample_record_def dotted_def dec_of_nat.simps)
  have pre: "\<forall>q \<in> set []. ok_question q" "\<forall>rr \<in> set [sample_record]. ok_record rr \<and> has_text rr"
    "unat (qCount ?h) = length []" "unat (aCount ?h) = length [sample_record]" "nsCount ?h = 0" "arCount ?h = 0" "msg_id ?h = 0xAAAA"
    "?d = encodeHeader ?h @ concat (map enc_question []) @ concat (map enc_record [sample_record])" "length ?d \<le> 512"
    using sample_record_ok by (simp_all add: one_answer_def) (simp add: sample_record_def)
  obtain out where out: "resolve_output ''c.cpp'' ''8.8.8.8'' 53 False ''a.b'' (sample_env ?d) = Some (Inr out)"
    "os_text (print out cout) = [] @ exchange_text ''8.8.8.8'' 53 (length (encodeQuery (client_query False ''a.b''))) (length ?d) (length ?d)
        @ header_text ?h
        @ [NL] @ ''Questions: '' @ [NL] @ concat (map question_line [])
        @ [NL] @ ''Answers: '' @ [NL] @ concat (map answer_line [sample_record])
        @ [NL] @ ''Name servers: '' @ [NL] @ [NL] @ ''Additional records: '' @ [NL]"
    using client_prints_answers [OF pre, of "sample_env ?d" cout "''c.cpp''" "''8.8.8.8''" 53 False "''a.b''"] by auto
  let ?t = "exchange_text ''8.8.8.8'' 53 (length (encodeQuery (client_query False ''a.b''))) (length ?d) (length ?d)
        @ header_text ?h @ [NL] @ ''Questions: '' @ [NL] @ [NL] @ ''Answers: '' @ [NL]"
  show ?thesis
    using out by (intro exI [of _ out] exI [of _ ?t]) (simp add: line)
qed

section \<open>The number base\<close>

definition shows_octets :: "resource_record \<Rightarrow> bool" where
  "shows_octets rr \<longleftrightarrow> \<not> has_text rr \<and> rr_data rr \<noteq> []"

lemma dump_record_flags:
  "Dec \<notin> set (dump_record rr)" "Showbase \<notin> set (dump_record rr)" "Setw n \<notin> set (dump_record rr)"
  "Hex \<in> set (dump_record rr) \<longleftrightarrow> shows_octets rr"
  by (auto simp: dump_record_def shows_octets_def has_text_def)

lemma dump_response_flags:
  assumes "os_width os = 0"
  shows "os_width (print (dump_response r) os) = 0" "\<not> os_showbase (print (dump_response r) os)"
    "os_hex (print (dump_response r) os) \<longleftrightarrow> (\<exists>rr \<in> set (answers r @ authority r @ additional r). shows_octets rr)"
proof -
  define its where "its = [Str (NL # ''Questions: ''), Str [NL]] @ concat (map dump_question (questions r))
     @ [Str (NL # ''Answers: ''), Str [NL]] @ concat (map dump_record (answers r))
     @ [Str (NL # ''Name servers: ''), Str [NL]] @ concat (map dump_record (authority r))
     @ [Str (NL # ''Additional records: ''), Str [NL]] @ concat (map dump_record (additional r))"
  have d: "dump_response r = dump_message r @ its" by (simp add: dump_response_def its_def)
  have its: "Dec \<notin> set its" "Showbase \<notin> set its" "\<forall>n. Setw n \<notin> set its"
    "Hex \<in> set its \<longleftrightarrow> (\<exists>rr \<in> set (answers r @ authority r @ additional r). shows_octets rr)"
    using dump_record_flags by (auto simp: its_def dump_question_def)
  show "os_width (print (dump_response r) os) = 0" "\<not> os_showbase (print (dump_response r) os)"
    unfolding d print_simps(3) print_message [OF assms]
    by (rule print_width [OF its(3)], simp add: assms) (rule print_showbase [OF its(2)], simp)
  show "os_hex (print (dump_response r) os) \<longleftrightarrow> (\<exists>rr \<in> set (answers r @ authority r @ additional r). shows_octets rr)"
    unfolding d print_simps(3) print_message [OF assms] print_hex [OF its(1)] its(4) by simp
qed

lemma resolve_output_begins:
  assumes "resolve_output path host port rec addr env = Some (Inr out)"
  shows "\<exists>more. out = [Str '' Sending query to '', Str host, Str '':'', Num (unat port), Str [NL],
      Str '' The query length is '', Num (length addr + 18), Str ('' bytes.'' @ [NL])] @ more"
  using assms by (auto simp: resolve_output_def Let_def resl_simps split: option.splits sum.splits)

text \<open>A record of another type changes the numbers of everything printed afterwards: its octets are printed after
  \<open>std::hex\<close>, which stays set, so when the arguments of the program are two names and the first answer has such a
  record with data, the second query is announced as going to port 35 with a length in hexadecimal.\<close>
theorem hexadecimal_stays:
  assumes "\<forall>q \<in> set qs. ok_question q" "\<forall>rr \<in> set ans. ok_record rr"
    and "unat (qCount h) = length qs" "unat (aCount h) = length ans" "nsCount h = 0" "arCount h = 0" "msg_id h = 0xAAAA"
    and "d = encodeHeader h @ concat (map enc_question qs) @ concat (map enc_record ans)" "length d \<le> 512"
    and "n_send env = None" "n_arrival env = Inr d" "rr \<in> set ans" "rr_type rr \<noteq> 1" "rr_type rr \<noteq> 5" "rr_data rr \<noteq> []"
    and "client_main path [(addr, env), (addr', env')] = Some (Inr out)"
  shows "\<exists>t t'. os_text (print out cout) = t @ ''Resolving '' @ addr' @ '' ...'' @ [NL] @ '' Sending query to 8.8.8.8:35'' @ [NL]
    @ '' The query length is '' @ hex_of_nat (length addr' + 18) @ '' bytes.'' @ [NL] @ t'"
proof -
  obtain o1 o2 where o: "resolve_output path ''8.8.8.8'' 53 False addr env = Some (Inr o1)"
    "resolve_output path ''8.8.8.8'' 53 False addr' env' = Some (Inr o2)"
    "out = [Str ''Resolving '', Str addr, Str ('' ...'' @ [NL])] @ o1 @ [Str ''Resolving '', Str addr', Str ('' ...'' @ [NL])] @ o2"
    using assms(16) by (auto simp: resl_simps)
  obtain more where more: "o2 = [Str '' Sending query to '', Str ''8.8.8.8'', Str '':'', Num (unat (53 :: u16)), Str [NL],
      Str '' The query length is '', Num (length addr' + 18), Str ('' bytes.'' @ [NL])] @ more"
    using resolve_output_begins [OF o(2)] by blast
  obtain pre r where r: "o1 = pre @ dump_response r" "answers r = ans" "\<forall>i \<in> set pre. plain i"
    using response_output [OF assms(1-11), of path "''8.8.8.8''" 53 False addr] o(1) by auto
  have w: "\<forall>n. Setw n \<notin> set pre" using r(3) by fastforce
  define os where "os = print ([Str ''Resolving '', Str addr, Str ('' ...'' @ [NL])] @ o1) cout"
  define os1 where "os1 = print ([Str ''Resolving '', Str addr, Str ('' ...'' @ [NL])] @ pre) cout"
  have "os_width os1 = 0" unfolding os1_def using w by (intro print_width) (auto simp: cout_def)
  moreover have "os = print (dump_response r) os1" by (simp add: os_def os1_def r(1))
  moreover have "shows_octets rr" using assms(13-15) by (simp add: shows_octets_def has_text_def)
  ultimately have flags: "os_width os = 0" "\<not> os_showbase os" "os_hex os"
    using dump_response_flags [of os1 r] assms(12) r(2) by auto
  define its where "its = [Str ''Resolving '', Str addr', Str ('' ...'' @ [NL])] @ [Str '' Sending query to '', Str ''8.8.8.8'', Str '':'',
      Num (unat (53 :: u16)), Str [NL], Str '' The query length is '', Num (length addr' + 18), Str ('' bytes.'' @ [NL])]"
  have "hex_of_nat 53 = ''35''" by (simp add: hex_of_nat.simps hex_char_def)
  then have t: "os_text (print its os) = os_text os @ ''Resolving '' @ addr' @ '' ...'' @ [NL] @ '' Sending query to 8.8.8.8:35'' @ [NL]
    @ '' The query length is '' @ hex_of_nat (length addr' + 18) @ '' bytes.'' @ [NL]"
    using flags by (simp add: its_def put_padded_def number_text_def)
  have p: "print out cout = print more (print its os)" unfolding o(3) more os_def its_def print_simps ..
  obtain t' where "os_text (print more (print its os)) = os_text (print its os) @ t'" using print_extends by blast
  then show ?thesis unfolding p t append_assoc by blast
qed

definition text_record :: resource_record where
  "text_record = \<lparr>rr_name = ''a.b'', rr_type = 16, rr_cls = 1, rr_ttl = 60, rr_data = [1, 0x61], rr_text = []\<rparr>"

theorem hexadecimal_stays_witness:
  "\<exists>out t t'. client_main ''c.cpp'' [(''a.b'', sample_env (one_answer text_record)), (''x.yz'', sample_env (one_answer text_record))] = Some (Inr out)
    \<and> os_text (print out cout) = t @ ''Resolving x.yz ...'' @ [NL] @ '' Sending query to 8.8.8.8:35'' @ [NL]
      @ '' The query length is 16 bytes.'' @ [NL] @ t'"
proof -
  let ?h = "(new_message 0xAAAA True)\<lparr>aCount := 1\<rparr>" and ?d = "one_answer text_record"
  have pre: "\<forall>q \<in> set []. ok_question q" "\<forall>rr \<in> set [text_record]. ok_record rr"
    "unat (qCount ?h) = length []" "unat (aCount ?h) = length [text_record]" "nsCount ?h = 0" "arCount ?h = 0" "msg_id ?h = 0xAAAA"
    "?d = encodeHeader ?h @ concat (map enc_question []) @ concat (map enc_record [text_record])" "length ?d \<le> 512"
    by (simp_all add: one_answer_def text_record_def ok_record_def valid_name_def valid_label_def dot_free_def text_matches_def)
  have env: "n_send (sample_env ?d) = None" "n_arrival (sample_env ?d) = Inr ?d" by simp_all
  have rec: "text_record \<in> set [text_record]" "rr_type text_record \<noteq> 1" "rr_type text_record \<noteq> 5" "rr_data text_record \<noteq> []"
    by (simp_all add: text_record_def)
  have "\<exists>o1. resolve_output ''c.cpp'' ''8.8.8.8'' 53 False addr (sample_env ?d) = Some (Inr o1)" for addr
    using response_output [OF pre env, of "''c.cpp''" "''8.8.8.8''" 53 False addr] by blast
  then obtain o1 o2 where "resolve_output ''c.cpp'' ''8.8.8.8'' 53 False ''a.b'' (sample_env ?d) = Some (Inr o1)"
    "resolve_output ''c.cpp'' ''8.8.8.8'' 53 False ''x.yz'' (sample_env ?d) = Some (Inr o2)" by blast
  then obtain out where out: "client_main ''c.cpp'' [(''a.b'', sample_env ?d), (''x.yz'', sample_env ?d)] = Some (Inr out)" by simp
  have "hex_of_nat (length ''x.yz'' + 18) = ''16''" by (simp add: hex_of_nat.simps hex_char_def)
  then show ?thesis using hexadecimal_stays [OF pre env rec out] out by auto
qed

end
