(* ===== verification/Server_Lifecycle.thy ===== *)
theory Server_Lifecycle
  imports Prelude
begin

text \<open>
  Starting and stopping the servers: \<open>start\<close>, \<open>stop\<close> (\<open>shutdown\<close>), \<open>waitSignal\<close> and the loop in which the
  handler of an accept or a receive starts the next one, for \<open>DNSServer\<close>, \<open>TFTPServer\<close>,
  \<open>SMTPServer\<close>, \<open>FTPServer\<close> and \<open>TelnetServer\<close>. The state is what these functions can see of the
  listening socket and the I/O context; the sessions are in the theories of the servers.
\<close>

section \<open>The listening socket and the I/O context\<close>

datatype sock_state = Sock_Closed | Sock_Open | Sock_Bound | Sock_Listening

primrec sock_level :: "sock_state \<Rightarrow> nat" where
  "sock_level Sock_Closed = 0"
| "sock_level Sock_Open = 1"
| "sock_level Sock_Bound = 2"
| "sock_level Sock_Listening = 3"

lemma sock_level_inject: "sock_level a = sock_level b \<Longrightarrow> a = b"
  by (cases a; cases b) simp_all

instantiation sock_state :: linorder
begin

definition less_eq_sock_state :: "sock_state \<Rightarrow> sock_state \<Rightarrow> bool" where
  "less_eq_sock_state a b \<longleftrightarrow> sock_level a \<le> sock_level b"

definition less_sock_state :: "sock_state \<Rightarrow> sock_state \<Rightarrow> bool" where
  "less_sock_state a b \<longleftrightarrow> sock_level a < sock_level b"

instance
  by standard (auto simp: less_eq_sock_state_def less_sock_state_def dest: sock_level_inject)

end

lemma sock_closed_least [simp]: "Sock_Closed \<le> a" "a \<le> Sock_Closed \<longleftrightarrow> a = Sock_Closed"
  by (cases a; simp add: less_eq_sock_state_def)+

text \<open>
  \<open>io_pending\<close>: accepts or receives outstanding on the socket. \<open>io_ended\<close>: those that ended with an error
  because the socket was closed and whose handlers have not run yet. \<open>io_signals\<close>: waits outstanding
  on the signal set. \<open>io_running\<close>: the context has not been stopped, so handlers run.
\<close>

record server_io =
  io_sock :: sock_state
  io_pending :: nat
  io_ended :: nat
  io_signals :: nat
  io_running :: bool

definition new_server_io :: server_io where
  "new_server_io = \<lparr>io_sock = Sock_Closed, io_pending = 0, io_ended = 0, io_signals = 0, io_running = False\<rparr>"

text \<open>The answers to the calls of \<open>start\<close>: \<open>make_address\<close>, \<open>open\<close>, the option, \<open>bind\<close>, \<open>listen\<close>.\<close>

record start_env =
  a_address :: bool
  a_open :: bool
  a_option :: bool
  a_bind :: bool
  a_listen :: bool

definition all_granted :: "start_env \<Rightarrow> bool" where
  "all_granted env \<longleftrightarrow> a_address env \<and> a_open env \<and> a_option env \<and> a_bind env \<and> a_listen env"

text \<open>Opening a socket that is open is an error whatever the system would say.\<close>

definition open_sock :: "start_env \<Rightarrow> server_io \<Rightarrow> bool \<times> server_io" where
  "open_sock env io =
     (if io_sock io = Sock_Closed \<and> a_open env then (True, io\<lparr>io_sock := Sock_Open\<rparr>) else (False, io))"

definition bind_sock :: "start_env \<Rightarrow> server_io \<Rightarrow> bool \<times> server_io" where
  "bind_sock env io = (if a_bind env then (True, io\<lparr>io_sock := Sock_Bound\<rparr>) else (False, io))"

definition listen_sock :: "start_env \<Rightarrow> server_io \<Rightarrow> bool \<times> server_io" where
  "listen_sock env io = (if a_listen env then (True, io\<lparr>io_sock := Sock_Listening\<rparr>) else (False, io))"

text \<open>\<open>cancel\<close> and \<open>close\<close> end what is outstanding; an operation on a closed socket ends at once.\<close>

definition close_sock :: "server_io \<Rightarrow> server_io" where
  "close_sock io = io\<lparr>io_sock := Sock_Closed, io_pending := 0, io_ended := io_ended io + io_pending io\<rparr>"

definition async_start :: "server_io \<Rightarrow> server_io" where
  "async_start io =
     (if io_sock io = Sock_Closed then io\<lparr>io_ended := io_ended io + 1\<rparr> else io\<lparr>io_pending := io_pending io + 1\<rparr>)"

definition waitSignal :: "server_io \<Rightarrow> server_io" where
  "waitSignal io = io\<lparr>io_signals := io_signals io + 1\<rparr>"

definition restart_and_run :: "server_io \<Rightarrow> server_io" where
  "restart_and_run io = io\<lparr>io_running := True\<rparr>"

section \<open>\<open>start\<close>\<close>

text \<open>
  The text of the exception, if one is thrown, and the state at that point. The datagram servers
  throw their own exceptions and look at the address only when the socket is open; the others leave
  the throwing to the library.
\<close>

type_synonym start_result = "string option \<times> server_io"

definition dns_server_start :: "start_env \<Rightarrow> server_io \<Rightarrow> start_result" where
  "dns_server_start env io =
     (case open_sock env io of
        (False, io) \<Rightarrow> (Some ''Could not start server (socket open failed)'', io)
      | (True, io) \<Rightarrow>
          if \<not> a_address env then (Some ''make_address'', io)
          else case bind_sock env io of
                 (False, io) \<Rightarrow> (Some ''Could not start server (socket bind failed)'', io)
               | (True, io) \<Rightarrow> (None, restart_and_run (async_start (waitSignal io))))"

text \<open>The argument \<open>reuse\<close> is not used.\<close>

definition tftp_server_start :: "bool \<Rightarrow> start_env \<Rightarrow> server_io \<Rightarrow> start_result" where
  "tftp_server_start reuse env io =
     (case open_sock env io of
        (False, io) \<Rightarrow> (Some ''Could not start server (socket open failed)'', io)
      | (True, io) \<Rightarrow>
          if \<not> a_address env then (Some ''make_address'', io)
          else case bind_sock env io of
                 (False, io) \<Rightarrow> (Some ''Could not start server (socket bind failed)'', io)
               | (True, io) \<Rightarrow> (None, restart_and_run (async_start (waitSignal io))))"

definition smtp_server_start :: "start_env \<Rightarrow> server_io \<Rightarrow> start_result" where
  "smtp_server_start env io =
     (if \<not> a_address env then (Some ''make_address'', io)
      else case open_sock env io of (False, io) \<Rightarrow> (Some ''open'', io) | (True, io) \<Rightarrow>
           case bind_sock env io of (False, io) \<Rightarrow> (Some ''bind'', io) | (True, io) \<Rightarrow>
           case listen_sock env io of (False, io) \<Rightarrow> (Some ''listen'', io) | (True, io) \<Rightarrow>
             (None, restart_and_run (async_start (waitSignal io))))"

definition telnet_server_start :: "start_env \<Rightarrow> server_io \<Rightarrow> start_result" where
  "telnet_server_start env io =
     (if \<not> a_address env then (Some ''make_address'', io)
      else case open_sock env io of (False, io) \<Rightarrow> (Some ''open'', io) | (True, io) \<Rightarrow>
           case bind_sock env io of (False, io) \<Rightarrow> (Some ''bind'', io) | (True, io) \<Rightarrow>
           case listen_sock env io of (False, io) \<Rightarrow> (Some ''listen'', io) | (True, io) \<Rightarrow>
             (None, restart_and_run (async_start (waitSignal io))))"

text \<open>There is no signal set here; the context runs in a thread of its own.\<close>

definition ftp_server_start :: "start_env \<Rightarrow> server_io \<Rightarrow> start_result" where
  "ftp_server_start env io =
     (if \<not> a_address env then (Some ''make_address'', io)
      else case open_sock env io of (False, io) \<Rightarrow> (Some ''open'', io) | (True, io) \<Rightarrow>
           if \<not> a_option env then (Some ''set_option'', io) else
           case bind_sock env io of (False, io) \<Rightarrow> (Some ''bind'', io) | (True, io) \<Rightarrow>
           case listen_sock env io of (False, io) \<Rightarrow> (Some ''listen'', io) | (True, io) \<Rightarrow>
             (None, restart_and_run (async_start io)))"

section \<open>\<open>stop\<close>\<close>

definition context_stop :: "server_io \<Rightarrow> server_io" where
  "context_stop io = io\<lparr>io_running := False\<rparr>"

text \<open>The socket of the DNS server stays open.\<close>

definition dns_server_stop :: "server_io \<Rightarrow> server_io" where
  "dns_server_stop io = context_stop io"

definition tftp_server_stop :: "server_io \<Rightarrow> server_io" where
  "tftp_server_stop io = context_stop (close_sock io)"

definition smtp_server_stop :: "server_io \<Rightarrow> server_io" where
  "smtp_server_stop io = context_stop (close_sock io)"

definition telnet_server_stop :: "server_io \<Rightarrow> server_io" where
  "telnet_server_stop io = context_stop (close_sock io)"

definition ftp_server_stop :: "server_io \<Rightarrow> server_io" where
  "ftp_server_stop io = context_stop (close_sock io)"

text \<open>The destructor of \<open>SMTPServer\<close>; those of the other servers are empty.\<close>

definition smtp_server_destroy :: "server_io \<Rightarrow> server_io" where
  "smtp_server_destroy io = (if io_sock io \<noteq> Sock_Closed then smtp_server_stop io else io)"

definition on_io_signal :: "(server_io \<Rightarrow> server_io) \<Rightarrow> bool \<Rightarrow> server_io \<Rightarrow> server_io" where
  "on_io_signal stop ok io =
     (let io = io\<lparr>io_signals := io_signals io - 1\<rparr> in if ok then stop io else io)"

section \<open>The end of a handler\<close>

text \<open>
  How the handler of an accept or a receive ends; the first argument says whether its body has thrown. SMTP and TFTP
  start the next operation in any case, FTP and Telnet only on an open acceptor. The handlers of FTP and Telnet catch
  what their bodies throw and go on to start the next accept; an exception in those of SMTP and TFTP leaves the handler
  and with it the event loop.
\<close>

definition rearm_always :: "bool \<Rightarrow> server_io \<Rightarrow> server_io" where
  "rearm_always threw io = (if threw then io\<lparr>io_running := False\<rparr> else async_start io)"

definition rearm_if_open :: "bool \<Rightarrow> server_io \<Rightarrow> server_io" where
  "rearm_if_open threw io = (if io_sock io = Sock_Closed then io else async_start io)"

text \<open>
  What can happen to a server: a call of \<open>start\<close> or of \<open>stop\<close>, a completed accept or receive, the
  handler of an ended one, a signal, a completed accept whose handler throws (\<open>remote_endpoint\<close> of a
  connection that is gone), or an exception that leaves any other handler and with it the event loop.
\<close>

datatype io_event = Start start_env | Stop | Completed | Ended | Io_Signal bool | Accept_Threw | Other_Threw

fun io_step :: "(start_env \<Rightarrow> server_io \<Rightarrow> start_result) \<Rightarrow> (server_io \<Rightarrow> server_io) \<Rightarrow> (bool \<Rightarrow> server_io \<Rightarrow> server_io)
    \<Rightarrow> io_event \<Rightarrow> server_io \<Rightarrow> server_io" where
  "io_step start stop rearm (Start env) io = snd (start env io)"
| "io_step start stop rearm Stop io = stop io"
| "io_step start stop rearm Completed io =
     (if io_running io \<and> 0 < io_pending io then rearm False (io\<lparr>io_pending := io_pending io - 1\<rparr>) else io)"
| "io_step start stop rearm Ended io =
     (if io_running io \<and> 0 < io_ended io then rearm False (io\<lparr>io_ended := io_ended io - 1\<rparr>) else io)"
| "io_step start stop rearm (Io_Signal ok) io =
     (if io_running io \<and> 0 < io_signals io then on_io_signal stop ok io else io)"
| "io_step start stop rearm Accept_Threw io =
     (if io_running io \<and> 0 < io_pending io then rearm True (io\<lparr>io_pending := io_pending io - 1\<rparr>) else io)"
| "io_step start stop rearm Other_Threw io = io\<lparr>io_running := False\<rparr>"

fun io_run :: "(start_env \<Rightarrow> server_io \<Rightarrow> start_result) \<Rightarrow> (server_io \<Rightarrow> server_io) \<Rightarrow> (bool \<Rightarrow> server_io \<Rightarrow> server_io)
    \<Rightarrow> io_event list \<Rightarrow> server_io \<Rightarrow> server_io" where
  "io_run start stop rearm [] io = io"
| "io_run start stop rearm (e # es) io = io_run start stop rearm es (io_step start stop rearm e io)"

text \<open>How many calls of \<open>start\<close> in a run do not throw.\<close>

fun started :: "(start_env \<Rightarrow> server_io \<Rightarrow> start_result) \<Rightarrow> (server_io \<Rightarrow> server_io) \<Rightarrow> (bool \<Rightarrow> server_io \<Rightarrow> server_io)
    \<Rightarrow> io_event list \<Rightarrow> server_io \<Rightarrow> nat" where
  "started start stop rearm [] io = 0"
| "started start stop rearm (e # es) io =
     (case e of Start env \<Rightarrow> if fst (start env io) = None then 1 else 0 | _ \<Rightarrow> 0)
       + started start stop rearm es (io_step start stop rearm e io)"

lemmas start_defs = dns_server_start_def tftp_server_start_def smtp_server_start_def telnet_server_start_def ftp_server_start_def
lemmas stop_defs = tftp_server_stop_def smtp_server_stop_def telnet_server_stop_def ftp_server_stop_def
lemmas io_defs = open_sock_def bind_sock_def listen_sock_def close_sock_def async_start_def waitSignal_def restart_and_run_def
  context_stop_def rearm_always_def rearm_if_open_def

section \<open>Interfaces\<close>

text \<open>
  \<open>serving io io'\<close>: between the two states a \<open>start\<close> has gone through; \<open>startable\<close>: what all the
  \<open>start\<close> functions promise; \<open>restartable\<close>: what \<open>stop\<close> and the loop of handlers add to it.
\<close>

definition serving :: "server_io \<Rightarrow> server_io \<Rightarrow> bool" where
  "serving io io' \<longleftrightarrow> Sock_Bound \<le> io_sock io' \<and> io_running io' \<and> io_pending io' = io_pending io + 1 \<and> io_ended io' = io_ended io"

text \<open>While handlers run the socket is open, so every handler starts the next operation.\<close>

definition open_while_running :: "server_io \<Rightarrow> bool" where
  "open_while_running io \<longleftrightarrow> (io_running io \<longrightarrow> io_sock io \<noteq> Sock_Closed)"

definition operations :: "server_io \<Rightarrow> nat" where
  "operations io = io_pending io + io_ended io"

locale startable =
  fixes start :: "start_env \<Rightarrow> server_io \<Rightarrow> start_result"
  assumes start_busy: "io_sock io \<noteq> Sock_Closed \<Longrightarrow> \<exists>x. start env io = (Some x, io)"
    and start_granted: "io_sock io = Sock_Closed \<Longrightarrow> all_granted env \<Longrightarrow> fst (start env io) = None"
    and start_done: "start env io = (None, io') \<Longrightarrow> serving io io'"
    and start_threw: "start env io = (Some x, io') \<Longrightarrow> \<exists>st \<ge> io_sock io. io' = io\<lparr>io_sock := st\<rparr>"
begin

lemma start_raises: "io_sock io \<le> io_sock (snd (start env io))"
proof (cases "start env io")
  case (Pair r io')
  show ?thesis
  proof (cases r)
    case None
    with Pair start_busy [of io env] have "io_sock io = Sock_Closed" by auto
    then show ?thesis by simp
  next
    case (Some x)
    with Pair start_threw [of env io x io'] show ?thesis by auto
  qed
qed

lemma start_open_threw:
  assumes "io_sock (snd (start env io)) \<noteq> Sock_Closed"
  shows "\<exists>x. start env' (snd (start env io)) = (Some x, snd (start env io))"
  by (rule start_busy [OF assms])

end

locale restartable = startable start
  for start :: "start_env \<Rightarrow> server_io \<Rightarrow> start_result" +
  fixes stop :: "server_io \<Rightarrow> server_io" and rearm :: "bool \<Rightarrow> server_io \<Rightarrow> server_io" and catches :: bool
  assumes stop_result: "stop io = io\<lparr>io_sock := Sock_Closed, io_pending := 0, io_ended := io_ended io + io_pending io,
      io_running := False\<rparr>"
    and rearm_open: "io_sock io \<noteq> Sock_Closed \<Longrightarrow> rearm False io = io\<lparr>io_pending := io_pending io + 1\<rparr>"
    and rearm_threw: "io_sock io \<noteq> Sock_Closed \<Longrightarrow> rearm True io = (if catches then rearm False io else io\<lparr>io_running := False\<rparr>)"
begin

lemma stop_then_start:
  assumes "all_granted env"
  shows "\<exists>io'. start env (stop io) = (None, io') \<and> serving (stop io) io'"
proof -
  have "io_sock (stop io) = Sock_Closed" by (simp add: stop_result)
  from start_granted [OF this assms] obtain io' where "start env (stop io) = (None, io')"
    by (cases "start env (stop io)") auto
  with start_done show ?thesis by blast
qed

lemma start_open: "open_while_running io \<Longrightarrow> open_while_running (snd (start env io))"
proof (cases "start env io")
  case (Pair r io')
  assume inv: "open_while_running io"
  show ?thesis
  proof (cases r)
    case None
    with Pair start_done have "Sock_Bound \<le> io_sock io'" by (auto simp: serving_def)
    then show ?thesis using Pair by (auto simp: open_while_running_def less_eq_sock_state_def)
  next
    case (Some x)
    with Pair start_threw obtain st where "io_sock io \<le> st" "io' = io\<lparr>io_sock := st\<rparr>" by blast
    then show ?thesis using Pair inv by (auto simp: open_while_running_def)
  qed
qed

lemma step_open: "open_while_running io \<Longrightarrow> open_while_running (io_step start stop rearm e io)"
  using start_open
  by (cases e) (auto simp: open_while_running_def rearm_open rearm_threw stop_result on_io_signal_def Let_def)

lemma step_operations:
  assumes "open_while_running io" "e \<noteq> Accept_Threw"
  shows "operations (io_step start stop rearm e io)
    = (case e of Start env \<Rightarrow> if fst (start env io) = None then 1 else 0 | _ \<Rightarrow> 0) + operations io"
proof (cases e)
  case (Start env)
  show ?thesis
  proof (cases "start env io")
    case (Pair r io')
    show ?thesis
    proof (cases r)
      case None
      with Pair start_done have "serving io io'" by blast
      then show ?thesis using Start Pair None by (simp add: serving_def operations_def)
    next
      case (Some x)
      with Pair start_threw obtain st where "io' = io\<lparr>io_sock := st\<rparr>" by blast
      then show ?thesis using Start Pair Some by (simp add: operations_def)
    qed
  qed
qed (use assms in \<open>auto simp: operations_def open_while_running_def rearm_open stop_result on_io_signal_def Let_def\<close>)

lemma run_operations:
  "open_while_running io \<Longrightarrow> Accept_Threw \<notin> set es \<Longrightarrow>
     operations (io_run start stop rearm es io) = started start stop rearm es io + operations io"
proof (induction es arbitrary: io)
  case (Cons e es)
  have e: "e \<noteq> Accept_Threw" "Accept_Threw \<notin> set es" using Cons.prems(2) by auto
  show ?case
    using Cons.IH [OF step_open [OF Cons.prems(1)] e(2)] step_operations [OF Cons.prems(1) e(1)]
    unfolding io_run.simps started.simps by (simp only: add.assoc add.left_commute)
qed simp

end

interpretation dns_life: startable dns_server_start
  by unfold_locales
    (auto simp: dns_server_start_def io_defs all_granted_def serving_def less_eq_sock_state_def split: if_splits)

interpretation tftp_life: restartable "tftp_server_start reuse" tftp_server_stop rearm_always False for reuse
  by unfold_locales
    (auto simp: start_defs stop_defs io_defs all_granted_def serving_def less_eq_sock_state_def split: if_splits)

interpretation smtp_life: restartable smtp_server_start smtp_server_stop rearm_always False
  by unfold_locales
    (auto simp: start_defs stop_defs io_defs all_granted_def serving_def less_eq_sock_state_def split: if_splits)

lemma smtp_destroy_closes: "io_sock (smtp_server_destroy io) = Sock_Closed"
  by (simp add: smtp_server_destroy_def smtp_life.stop_result)

interpretation telnet_life: restartable telnet_server_start telnet_server_stop rearm_if_open True
  by unfold_locales
    (auto simp: start_defs stop_defs io_defs all_granted_def serving_def less_eq_sock_state_def split: if_splits)

interpretation ftp_life: restartable ftp_server_start ftp_server_stop rearm_if_open True
  by unfold_locales
    (auto simp: start_defs stop_defs io_defs all_granted_def serving_def less_eq_sock_state_def split: if_splits)

end
