(* ===== verification/DNS_Programs.thy ===== *)
theory DNS_Programs
  imports DNS_Client_Properties Server_Lifecycle
begin

text \<open>
  The two DNS programs: \<open>DNSResolver::printRecords\<close>, \<open>dns/server/main.cpp\<close>, and what a user of the
  client sees of a records file served by the server.
\<close>

section \<open>The server program\<close>

definition printRecords :: "dns_records \<Rightarrow> item list" where
  "printRecords records =
     [Str (''TRACE ( DNSResolver::printRecords() ) Records, known to DNS resolver:'' @ [NL])]
     @ concat (map (\<lambda>record. [Str (fst record), Str '' ---- '', Str (snd record), Str [NL]]) records)
     @ [Str (''-------------------------------'' @ [NL])]"

text \<open>The exit status when \<open>start\<close> throws, or else the server whose event loop runs.\<close>

definition dns_server_main :: "start_env \<Rightarrow> string option \<Rightarrow> int + dns_server" where
  "dns_server_main env content =
     (let records = loadRecordsFromFile content [] in
      case fst (dns_server_start env new_server_io) of
        Some x \<Rightarrow> Inl (-1)
      | None \<Rightarrow> Inr (dns_start records))"

lemma dns_server_main_granted:
  assumes "all_granted env"
  shows "dns_server_main env content = Inr (dns_start (loadRecordsFromFile content []))"
  using dns_life.start_granted [of new_server_io env] assms by (simp add: dns_server_main_def new_server_io_def)

section \<open>A records file, seen through both programs\<close>

type_synonym record_line = "string \<times> string \<times> string"

definition records_text :: "record_line list \<Rightarrow> string" where
  "records_text es = concat (map (\<lambda>(ip, ws, dn). ip @ ws @ dn @ [NL]) es)"

lemma findAddress_lines:
  "findAddress (map (\<lambda>(ip, ws, dn). (ip, dn)) es) name
    = (case find (\<lambda>(ip, ws, dn). dn = name) es of Some (ip, ws, dn) \<Rightarrow> ip | None \<Rightarrow> [])"
  by (induction es) (auto simp: findAddress_def split: option.splits)

lemma loaded_record:
  assumes "\<forall>e \<in> set es. ok_line e" "find (\<lambda>(ip, ws, dn). dn = name) es = Some (ip, ws, name)"
    and "find_sub ''.in-addr.arpa'' name = None"
  shows "lookup_rdata (loadRecordsFromFile (Some (records_text es)) []) name = ip"
  using assms(2,3) records_file_loads [OF assms(1), of "[]"]
  by (simp add: records_text_def lookup_rdata_def getIpAddrFromQname_def findAddress_lines)

text \<open>The reply of the resolver to the client's query, as header, question and record.\<close>

definition client_reply :: "dns_records \<Rightarrow> bool \<Rightarrow> string \<Rightarrow> u16 \<Rightarrow> u16 \<Rightarrow> u32 \<Rightarrow> dns_response" where
  "client_reply recs rec name j1 j2 j3 = process_query recs (client_query rec name) (new_response j1 j2 j3 0)"

definition address_record :: "string \<Rightarrow> u32 \<Rightarrow> string \<Rightarrow> resource_record" where
  "address_record name ttl ip = \<lparr>rr_name = name, rr_type = 1, rr_cls = 1, rr_ttl = ttl,
     rr_data = encodeDomainName ip, rr_text = dotted (encodeDomainName ip)\<rparr>"

definition address_question :: "string \<Rightarrow> question" where
  "address_question name = \<lparr>q_name = name, q_type = 1, q_cls = 1\<rparr>"

lemma client_reply_fields:
  assumes "lookup_rdata recs name = ip" "ip \<noteq> []"
  shows "qCount (client_reply recs rec name j1 j2 j3) = 1" "aCount (client_reply recs rec name j1 j2 j3) = 1"
    "nsCount (client_reply recs rec name j1 j2 j3) = 0" "arCount (client_reply recs rec name j1 j2 j3) = 0"
    "msg_id (client_reply recs rec name j1 j2 j3) = 0xAAAA" "flags (client_reply recs rec name j1 j2 j3) = 0x8000"
  using assms by (simp_all add: client_reply_def process_query_def Let_def new_response_def
      setRCode_def setFieldRcode_def setFlagQR_def put_flag_def)

lemma client_reply_encoded:
  assumes "lookup_rdata recs name = ip"
  shows "encodeResponse (client_reply recs rec name j1 j2 j3) = encodeHeader (client_reply recs rec name j1 j2 j3)
    @ concat (map enc_question [address_question name]) @ concat (map enc_record [address_record name j3 ip])"
  using assms by (simp add: encodeResponse_def Let_def enc_question_def enc_record_def address_question_def address_record_def
      client_reply_def process_query_def new_response_def setRCode_def setFieldRcode_def setFlagQR_def)

lemma reply_header_text:
  assumes "qCount h = 1" "aCount h = 1" "nsCount h = 0" "arCount h = 0" "msg_id h = 0xAAAA" "flags h = 0x8000"
  shows "header_text h = ''ID: 0xaaaa, FLAGS: 8000'' @ [NL] @ ''Question count: 1'' @ [NL] @ ''Answer record count: 1''
    @ [NL] @ ''Name server (Authority record) count: 0'' @ [NL] @ ''Additional record count: 0''"
proof -
  have "hex_of_nat 43690 = ''aaaa''" "hex_of_nat 32768 = ''8000''"
    by (simp_all add: hex_of_nat.simps hex_char_def char_of_def bit_simps digit_char_def)
  then show ?thesis
    using assms by (simp add: header_text_def id_text_def zero_pad_def dec_of_nat.simps digit_char_def char_of_def bit_simps)
qed

lemma address_lines:
  "question_line (address_question name) = '' name: '' @ name @ '', type: 1, class: 1'' @ [NL]"
  "answer_line (address_record name ttl ip) = '' name: '' @ name @ '', type: 1, class: 1, TTL: '' @ dec_of_nat (unat ttl)
     @ '', rlength: '' @ dec_of_nat (length ip + 2) @ '', Address: '' @ dotted (encodeDomainName ip) @ [NL]"
  by (simp_all add: question_line_def answer_line_def address_question_def address_record_def dec_of_nat.simps digit_char_def
      char_of_def bit_simps)

section \<open>Property\<close>

text \<open>C11: a records file, the server program that loads it and a client that asks the server for one of the names:
  the server comes up and replies, and the client prints a header without error (flags 8000), the question and exactly
  one answer, for the first line of that name in the file. But what it prints as the address is not the address of
  the file: it is the octets of the address's text encoded as a domain name, in decimal, so that 1.2 appears as
  1.49.1.50.0. The time to live is whatever the storage of the server's response object held.\<close>
theorem records_file_to_screen:
  assumes "all_granted senv" "\<forall>e \<in> set es. ok_line e" "find (\<lambda>(ip, ws, dn). dn = name) es = Some (ip, ws, name)"
    and "ip \<noteq> []" "valid_name 64 name" "find_sub ''.in-addr.arpa'' name = None" "2 * length name + length ip + 32 \<le> 512"
    and "n_send env = None"
  shows "\<exists>srv s' b out. dns_server_main senv (Some (records_text es)) = Inr srv
    \<and> dns_step srv (Received (Datagram (encodeQuery (client_query rec name))) j1 j2 j3) s' \<and> sending s' = Some b
    \<and> resolve_output path host port rec name (env\<lparr>n_arrival := Inr b\<rparr>) = Some (Inr out)
    \<and> os_text (print out cout) = exchange_text host port (length name + 18) (length b) (length b)
        @ ''ID: 0xaaaa, FLAGS: 8000'' @ [NL] @ ''Question count: 1'' @ [NL] @ ''Answer record count: 1''
        @ [NL] @ ''Name server (Authority record) count: 0'' @ [NL] @ ''Additional record count: 0''
        @ [NL] @ ''Questions: '' @ [NL] @ '' name: '' @ name @ '', type: 1, class: 1'' @ [NL]
        @ [NL] @ ''Answers: '' @ [NL] @ '' name: '' @ name @ '', type: 1, class: 1, TTL: '' @ dec_of_nat (unat j3)
          @ '', rlength: '' @ dec_of_nat (length ip + 2) @ '', Address: '' @ dotted (encodeDomainName ip) @ [NL]
        @ [NL] @ ''Name servers: '' @ [NL] @ [NL] @ ''Additional records: '' @ [NL]"
proof -
  define recs where "recs = loadRecordsFromFile (Some (records_text es)) []"
  have ip: "lookup_rdata recs name = ip" unfolding recs_def by (rule loaded_record [OF assms(2,3,6)])
  define h where "h = client_reply recs rec name j1 j2 j3"
  note f = client_reply_fields [OF ip assms(4), of rec j1 j2 j3, folded h_def]
  define d where "d = encodeResponse h"
  have d: "d = encodeHeader h @ concat (map enc_question [address_question name]) @ concat (map enc_record [address_record name j3 ip])"
    unfolding d_def h_def by (rule client_reply_encoded [OF ip])
  have len: "length d = 2 * length name + length ip + 32" unfolding d by (simp add: address_question_def address_record_def)
  let ?s' = "(dns_start recs)\<lparr>receiving := False, sending := Some d\<rparr>"
  have main: "dns_server_main senv (Some (records_text es)) = Inr (dns_start recs)"
    unfolding recs_def by (rule dns_server_main_granted [OF assms(1)])
  have step: "dns_step (dns_start recs) (Received (Datagram (encodeQuery (client_query rec name))) j1 j2 j3) ?s'"
    using dns_step_query [of "dns_start recs" "client_query rec name" j1 j2 j3] assms(5) client_query_flags(2) [of rec name]
    by (simp add: dns_start_def d_def h_def client_reply_def)
  have ne: "encodeDomainName ip \<noteq> []" by (metis length_encodeDomainName list.size(3) add_is_0 zero_neq_numeral)
  have q: "\<forall>q \<in> set [address_question name]. ok_question q" using assms(5) by (simp add: ok_question_def address_question_def)
  have rec: "\<forall>rr \<in> set [address_record name j3 ip]. ok_record rr \<and> has_text rr"
    using assms(5,7) ne by (simp add: ok_record_def address_record_def text_matches_def has_text_def)
  have "unat (qCount h) = length [address_question name]" "unat (aCount h) = length [address_record name j3 ip]"
    by (simp_all add: f)
  from printed_response [OF q rec this f(3,4,5) d, of "env\<lparr>n_arrival := Inr d\<rparr>" cout path host port "rec" name] assms(7,8) len
  obtain out where out: "resolve_output path host port rec name (env\<lparr>n_arrival := Inr d\<rparr>) = Some (Inr out)"
    "os_text (print out cout) = exchange_text host port (length name + 18) (length d) (length d)
        @ header_text h
        @ [NL] @ ''Questions: '' @ [NL] @ concat (map question_line [address_question name])
        @ [NL] @ ''Answers: '' @ [NL] @ concat (map answer_line [address_record name j3 ip])
        @ [NL] @ ''Name servers: '' @ [NL] @ [NL] @ ''Additional records: '' @ [NL]"
    by auto
  note head = reply_header_text [OF f(1-6)]
  show ?thesis
    using main step out unfolding head
    by (intro exI [of _ "dns_start recs"] exI [of _ ?s'] exI [of _ d] exI [of _ out]) (simp add: address_lines)
qed

definition sample_start :: start_env where
  "sample_start = \<lparr>a_address = True, a_open = True, a_option = True, a_bind = True, a_listen = True\<rparr>"

theorem records_file_to_screen_witness:
  "\<exists>srv s' b out t. dns_server_main sample_start (Some (''1.2  a.b'' @ [NL])) = Inr srv
    \<and> dns_step srv (Received (Datagram (encodeQuery (client_query False ''a.b''))) 0 0 0) s' \<and> sending s' = Some b
    \<and> resolve_output ''c.cpp'' ''127.0.0.1'' 10053 False ''a.b'' ((sample_env [])\<lparr>n_arrival := Inr b\<rparr>) = Some (Inr out)
    \<and> os_text (print out cout) = t @ '' name: a.b, type: 1, class: 1, TTL: 0, rlength: 5, Address: 1.49.1.50.0'' @ [NL]
        @ [NL] @ ''Name servers: '' @ [NL] @ [NL] @ ''Additional records: '' @ [NL]"
proof -
  let ?es = "[(''1.2'', ''  '', ''a.b'')]"
  have pre: "all_granted sample_start" "\<forall>e \<in> set ?es. ok_line e"
    "find (\<lambda>(ip, ws, dn). dn = ''a.b'') ?es = Some (''1.2'', ''  '', ''a.b'')" "''1.2'' \<noteq> []" "valid_name 64 ''a.b''"
    "find_sub ''.in-addr.arpa'' ''a.b'' = None" "2 * length ''a.b'' + length ''1.2'' + 32 \<le> 512" "n_send (sample_env []) = None"
    by (simp_all add: sample_start_def all_granted_def ok_line_def isspace_def valid_name_def valid_label_def dot_free_def)
  have line: "records_text ?es = ''1.2  a.b'' @ [NL]" by (simp add: records_text_def)
  have dec: "dec_of_nat (unat (0 :: u32)) = ''0''" "dec_of_nat (length ''1.2'' + 2) = ''5''"
    by (simp_all add: dec_of_nat.simps digit_char_def char_of_def bit_simps)
  have dot: "dotted (encodeDomainName ''1.2'') = ''1.49.1.50.0''"
    by (simp add: encodeDomainName_wire wire_label_def dotted_def to_bytes_def u8_of_char_def
        dec_of_nat.simps digit_char_def char_of_def bit_simps)
  define more where "more = exchange_text ''127.0.0.1'' 10053 (length ''a.b'' + 18)"
  define head where "head = ''ID: 0xaaaa, FLAGS: 8000'' @ [NL] @ ''Question count: 1'' @ [NL] @ ''Answer record count: 1''
        @ [NL] @ ''Name server (Authority record) count: 0'' @ [NL] @ ''Additional record count: 0''
        @ [NL] @ ''Questions: '' @ [NL] @ '' name: a.b, type: 1, class: 1'' @ [NL] @ [NL] @ ''Answers: '' @ [NL]"
  from records_file_to_screen [OF pre, of False 0 0 0 "''c.cpp''" "''127.0.0.1''" 10053] obtain srv s' b out where
    out: "dns_server_main sample_start (Some (records_text ?es)) = Inr srv"
    "dns_step srv (Received (Datagram (encodeQuery (client_query False ''a.b''))) 0 0 0) s'" "sending s' = Some b"
    "resolve_output ''c.cpp'' ''127.0.0.1'' 10053 False ''a.b'' ((sample_env [])\<lparr>n_arrival := Inr b\<rparr>) = Some (Inr out)"
    "os_text (print out cout) = (more (length b) (length b) @ head)
      @ '' name: a.b, type: 1, class: 1, TTL: 0, rlength: 5, Address: 1.49.1.50.0'' @ [NL]
        @ [NL] @ ''Name servers: '' @ [NL] @ [NL] @ ''Additional records: '' @ [NL]"
    unfolding dec dot more_def [symmetric] by (auto simp: head_def)
  from out show ?thesis unfolding line by blast
qed

end
