(* ===== verification/DNS_Language.thy ===== *)
theory DNS_Language
  imports DNS_Properties
begin

text \<open>
  The language of the query decoder: which datagrams it reads, as what, and which make it leave its buffer.
\<close>

section \<open>Names\<close>

text \<open>What a successful walk has read: labels of one to 255 octets up to the first zero length.\<close>

lemma decode_name_labels_sound:
  "decode_name_labels data pos name cnt = Inr (s, n) \<Longrightarrow>
     \<exists>ls post. (\<forall>l \<in> set ls. octet_label l) \<and> pos < length data
       \<and> drop pos data = wire_labels ls @ 0 # post
       \<and> s = name @ join_with (CHR ''.'') ls \<and> n = cnt + length (wire_labels ls) + 1"
proof (induction data pos name cnt rule: decode_name_labels.induct)
  case (1 data pos name cnt)
  from "1.prems" obtain len where len: "rd data pos = Inr len"
    by (subst (asm) decode_name_labels.simps) (auto simp: bind_res_eq_Inr)
  then have pos: "pos < length data" "drop pos data = len # drop (pos + 1) data"
    by (auto simp: rd_eq_Inr Cons_nth_drop_Suc)
  show ?case
  proof (cases "len = 0")
    case True
    with "1.prems" len have "s = name" "n = cnt + 1"
      by (subst (asm) decode_name_labels.simps; simp)+
    then show ?thesis using pos True by (intro exI [of _ "[] :: string list"] exI [of _ "drop (pos + 1) data"]) simp
  next
    case False
    let ?p = "pos + 1 + unat len"
    from "1.prems" len False obtain label b where
      lab: "rd_range data (pos + 1) (unat len) = Inr label" and b: "rd data ?p = Inr b"
      by (subst (asm) decode_name_labels.simps) (auto simp: bind_res_eq_Inr Let_def)
    let ?name = "if b \<noteq> 0 then (name @ of_bytes label) @ ''.'' else name @ of_bytes label"
    from "1.prems" len False lab b have rest: "decode_name_labels data ?p ?name (cnt + 1 + unat len) = Inr (s, n)"
      by (subst (asm) decode_name_labels.simps) (simp add: Let_def)
    from "1.IH" [OF len False lab refl refl b this] obtain ls post where
      ls: "\<forall>l \<in> set ls. octet_label l" "?p < length data" "drop ?p data = wire_labels ls @ 0 # post"
        "s = ?name @ join_with (CHR ''.'') ls" "n = cnt + 1 + unat len + length (wire_labels ls) + 1"
      by blast
    have label: "length label = unat len" "label = take (unat len) (drop (pos + 1) data)"
      using lab by (auto simp: rd_range_eq_Inr)
    have split: "drop (pos + 1) data = label @ drop ?p data"
      using append_take_drop_id [of "unat len" "drop (pos + 1) data"] label(2) by (simp add: add_ac)
    have "unat len < 256" "unat len \<noteq> 0" using unsigned_less [of len] False by (simp_all add: unat_eq_zero)
    with label(1) have wl: "wire_label (of_bytes label) = len # label" "octet_label (of_bytes label)"
      by (auto simp: wire_label_def octet_label_def length_0_conv [symmetric] simp del: length_0_conv)
    have "b = 0 \<longleftrightarrow> ls = []"
      using b ls by (cases ls) (auto simp: rd_eq_Inr wire_label_def octet_label_def dest!: arg_cong [where f = hd] simp: hd_drop_conv_nth)
    then show ?thesis using pos split wl ls label(1)
      by (intro exI [of _ "of_bytes label # ls"] exI [of _ post]) (auto simp: join_with_Cons)
  qed
qed

lemma decodeName_iff:
  "decodeName data pos = Inr (s, n) \<longleftrightarrow>
    (\<exists>ls post. (\<forall>l \<in> set ls. octet_label l) \<and> pos < length data
       \<and> drop pos data = wire_labels ls @ 0 # post
       \<and> s = join_with (CHR ''.'') ls \<and> n = length (wire_labels ls) + 1)" (is "_ \<longleftrightarrow> ?R")
proof
  assume ?R
  then obtain ls post where ls: "\<forall>l \<in> set ls. octet_label l" "pos < length data"
    "drop pos data = wire_labels ls @ 0 # post" "s = join_with (CHR ''.'') ls" "n = length (wire_labels ls) + 1"
    by blast
  have data: "data = take pos data @ wire_labels ls @ 0 # post" "length (take pos data) = pos"
    using ls by (metis append_take_drop_id) (use ls in simp)
  have "decode_name_labels (take pos data @ wire_labels ls @ 0 # post) (length (take pos data)) [] 0 = Inr (s, n)"
    using ls decode_name_labels_wire [of ls "take pos data" post "[]" 0]
      decode_name_labels_end [of "take pos data" post "[]" 0] by (cases "ls = []") auto
  then show "decodeName data pos = Inr (s, n)"
    using data unfolding decodeName_def by metis
qed (use decode_name_labels_sound [of data pos "[]" 0] in \<open>auto simp: decodeName_def\<close>)


lemma decodeName_fault: "decodeName data pos = Inl f \<Longrightarrow> f = Out_Of_Bounds"
proof -
  have "decode_name_labels data pos name cnt = Inl f \<Longrightarrow> f = Out_Of_Bounds" for name cnt
  proof (induction data pos name cnt rule: decode_name_labels.induct)
    case (1 data pos name cnt)
    show ?case
    proof (cases "\<exists>len label b. rd data pos = Inr len \<and> len \<noteq> 0 \<and> rd_range data (pos + 1) (unat len) = Inr label
        \<and> rd data (pos + 1 + unat len) = Inr b")
      case True
      then obtain len label b where r: "rd data pos = Inr len" "len \<noteq> 0" "rd_range data (pos + 1) (unat len) = Inr label"
        "rd data (pos + 1 + unat len) = Inr b" by blast
      with "1.prems" have "decode_name_labels data (pos + 1 + unat len)
          (if b \<noteq> 0 then (name @ of_bytes label) @ ''.'' else name @ of_bytes label) (cnt + 1 + unat len) = Inl f"
        by (subst (asm) decode_name_labels.simps) (simp add: Let_def)
      then show ?thesis using "1.IH" [OF r(1,2,3) refl refl r(4)] by simp
    next
      case False
      with "1.prems" show ?thesis
        by (subst (asm) decode_name_labels.simps) (auto simp: bind_res_def rd_def rd_range_def Let_def split: if_splits)
    qed
  qed
  then show "decodeName data pos = Inl f \<Longrightarrow> f = Out_Of_Bounds" by (simp add: decodeName_def)
qed

section \<open>Queries\<close>

text \<open>\<open>spells d q n\<close>: the datagram is a header, labels and the root octet, a type and a class, and \<open>q\<close> is
  the query with these in its fields; \<open>n\<close> octets of it count, anything may follow.\<close>

definition spells :: "bytes \<Rightarrow> dns_query \<Rightarrow> nat \<Rightarrow> bool" where
  "spells d q n \<longleftrightarrow> (\<exists>ls. (\<forall>l \<in> set ls. octet_label l) \<and> qname q = join_with (CHR ''.'') ls
     \<and> n \<le> length d
     \<and> take n d = encodeHeader q @ wire_labels ls @ 0 # be16 (qtype q) @ be16 (qclass q))"

lemma rd_be16_iff: "rd_be16 bs i = Inr w \<longleftrightarrow> i + 2 \<le> length bs \<and> take 2 (drop i bs) = be16 w"
proof (cases "i + 2 \<le> length bs")
  case True
  then have "drop i bs = bs ! i # bs ! (i + 1) # drop (i + 2) bs"
    by (metis Cons_nth_drop_Suc Suc_1 add_2_eq_Suc' add_Suc_right less_eq_Suc_le Suc_eq_plus1 Suc_leD add.right_neutral)
  then have two: "take 2 (drop i bs) = [bs ! i, bs ! (i + 1)]" by (simp add: numeral_2_eq_2)
  have "[a, b] = be16 w \<longleftrightarrow> join16 a b = w" for a b
  proof
    assume "[a, b] = be16 w"
    then show "join16 a b = w" by (simp add: be16_def)
  qed auto
  then show ?thesis using True two by simp
qed (simp add: rd_be16_short)


lemma decodeQuery_iff: "decodeQuery d q0 = Inr (q, n) \<longleftrightarrow> spells d q n"
proof
  assume "decodeQuery d q0 = Inr (q, n)"
  then obtain q1 :: dns_query and h name c t cls where h: "decodeHeader d q0 = Inr (q1, h)" and nm: "decodeName d h = Inr (name, c)"
    and t: "rd_be16 d (h + c) = Inr t" and cls: "rd_be16 d (h + c + 2) = Inr cls"
    and q: "q = q1\<lparr>qname := name, qtype := t, qclass := cls\<rparr>" "n = h + c + 4"
    by (auto simp: decodeQuery_def bind_res_eq_Inr)
  have hd: "h = 12" "encodeHeader q1 = take 12 d" "12 \<le> length d"
    using header_accepts [of d q0 q1 h] h by auto
  obtain ls post where ls: "\<forall>l \<in> set ls. octet_label l" "drop 12 d = wire_labels ls @ 0 # post"
    "name = join_with (CHR ''.'') ls" "c = length (wire_labels ls) + 1"
    using nm unfolding hd(1) decodeName_iff by blast
  have post: "post = drop (12 + c) d"
    using arg_cong [OF ls(2), of "drop c"] ls(4) by (simp add: add_ac)
  have "take 2 post = be16 t" "take 2 (drop 2 post) = be16 cls" and len: "n \<le> length d"
    using t cls hd q(2) by (auto simp: rd_be16_iff post add_ac)
  then have "take 4 post = be16 t @ be16 cls"
    using take_add [of 2 2 post] by simp
  then have "take n d = take 12 d @ wire_labels ls @ 0 # be16 t @ be16 cls"
    using take_add [of 12 "c + 4" d] ls(2,4) q(2) hd(1) by (simp add: add_ac)
  moreover have "encodeHeader q = encodeHeader q1" by (simp add: q encodeHeader_def)
  ultimately show "spells d q n"
    unfolding spells_def using ls len q hd by (intro exI [of _ ls]) simp
next
  assume "spells d q n"
  then obtain ls where ls: "\<forall>l \<in> set ls. octet_label l" "qname q = join_with (CHR ''.'') ls" "n \<le> length d"
    "take n d = encodeHeader q @ wire_labels ls @ 0 # be16 (qtype q) @ be16 (qclass q)"
    by (auto simp: spells_def)
  then obtain post where d: "d = encodeHeader q @ wire_labels ls @ 0 # be16 (qtype q) @ be16 (qclass q) @ post"
    using append_take_drop_id [of n d] by (metis append_assoc append_Cons)
  let ?c = "length (wire_labels ls) + 1"
  have n: "n = 12 + ?c + 4"
    using arg_cong [OF ls(4), of length] ls(3) by simp
  have nm: "decodeName d 12 = Inr (qname q, ?c)"
    using ls(1,2) unfolding decodeName_iff d by auto
  have hd: "decodeHeader d q0 = Inr (q0\<lparr>msg_id := msg_id q, flags := flags q, qCount := qCount q,
      aCount := aCount q, nsCount := nsCount q, arCount := arCount q\<rparr>, 12)"
    unfolding d by (rule decodeHeader_encode)
  have t: "rd_be16 d (12 + ?c) = Inr (qtype q)" "rd_be16 d (12 + ?c + 2) = Inr (qclass q)"
    unfolding d rd_be16_iff by simp_all
  show "decodeQuery d q0 = Inr (q, n)"
    unfolding decodeQuery_def hd bind_res_Inr prod.case nm t n by simp
qed


lemma decodeQuery_fault: "decodeQuery d q0 = Inl f \<longleftrightarrow> f = Out_Of_Bounds \<and> \<not> (\<exists>q n. spells d q n)"
proof -
  have "f = Out_Of_Bounds" if "decodeQuery d q0 = Inl f" for f
  proof (cases "decodeHeader d q0")
    case (Inl e)
    then show ?thesis using that header_accepts [of d q0 _ _ e] by (simp add: decodeQuery_def)
  next
    case (Inr r)
    then show ?thesis using that decodeName_fault [of d "snd r" f]
      by (cases r; cases "decodeName d (snd r)")
        (auto simp: decodeQuery_def bind_res_def rd_be16_def rd_def split: if_splits)
  qed
  moreover have "(\<exists>q n. spells d q n) \<longleftrightarrow> \<not> (\<exists>e. decodeQuery d q0 = Inl e)"
    unfolding decodeQuery_iff [of d q0, symmetric] by (cases "decodeQuery d q0") auto
  ultimately show ?thesis by (cases "decodeQuery d q0") auto
qed

lemma spells_prefix: "spells (take k d) q n \<Longrightarrow> n \<le> k \<and> spells d q n"
  by (auto simp: spells_def min_def split: if_splits)

text \<open>C34: what the server does with a datagram, for all datagrams. It reads beyond the end of the buffer exactly
  when the octets do not start with a question: twelve octets of header, labels of one to 255 octets closed by a zero,
  a type and a class. In particular every question that was cut short does this, wherever it was cut. A question is
  answered from the records, and one marked as a response is dropped; in neither case is a receive outstanding.\<close>
theorem datagram_outcomes:
  "(on_received (Datagram d) j1 j2 j3 s = Inl f \<longleftrightarrow> f = Out_Of_Bounds \<and> \<not> (\<exists>q n. spells d q n))
   \<and> (spells d q n \<longrightarrow>
       on_received (Datagram d) j1 j2 j3 s = Inr (if getFlagQR q then s\<lparr>receiving := False\<rparr>
         else s\<lparr>receiving := False, sending := Some (encodeResponse
                  (process_query (resolver_records s) q (new_response j1 j2 j3 0)))\<rparr>)
       \<and> (\<forall>k < n. on_received (Datagram (take k d)) j1 j2 j3 s = Inl Out_Of_Bounds))"
proof -
  have fault: "on_received (Datagram d) j1 j2 j3 s = Inl f \<longleftrightarrow> f = Out_Of_Bounds \<and> \<not> (\<exists>q n. spells d q n)" for d f
  proof -
    have "on_received (Datagram d) j1 j2 j3 s = Inl f \<longleftrightarrow> decodeQuery d new_query = Inl f"
      by (cases "decodeQuery d new_query") (auto simp: on_received_def Let_def split: if_splits)
    then show ?thesis by (simp only: decodeQuery_fault)
  qed
  have answer: "on_received (Datagram d) j1 j2 j3 s = Inr (if getFlagQR q then s\<lparr>receiving := False\<rparr>
         else s\<lparr>receiving := False, sending := Some (encodeResponse
                  (process_query (resolver_records s) q (new_response j1 j2 j3 0)))\<rparr>)" if "spells d q n"
    using that unfolding decodeQuery_iff [of d new_query, symmetric] by (simp add: on_received_def)
  have cut: "\<not> spells (take k d) q' n'" if "spells d q n" "k < n" for k q' n'
  proof
    assume "spells (take k d) q' n'"
    from spells_prefix [OF this] that show False
      unfolding decodeQuery_iff [of d new_query, symmetric] by simp
  qed
  show ?thesis using fault answer cut by blast
qed

lemma sample_question: "spells (encodeQuery sample_query @ [7, 7]) sample_query 33"
  unfolding decodeQuery_iff [of _ new_query, symmetric]
  using decodeQuery_encode [of sample_query "[7, 7]" new_query]
  by (simp add: sample_query_def valid_name_def valid_label_def dot_free_def)

theorem datagram_outcomes_witness:
  "on_received (Datagram (encodeQuery sample_query @ [7, 7])) 0 0 0 (dns_start []) =
     Inr ((dns_start [])\<lparr>receiving := False, sending := Some (encodeResponse
            (process_query [] sample_query (new_response 0 0 0 0)))\<rparr>)
   \<and> on_received (Datagram (take 32 (encodeQuery sample_query @ [7, 7]))) 0 0 0 (dns_start []) = Inl Out_Of_Bounds"
  using datagram_outcomes [of "encodeQuery sample_query @ [7, 7]" 0 0 0 "dns_start []" undefined sample_query 33] sample_question
  by (simp add: dns_start_def sample_query_def new_query_def getFlagQR_def)

end
