(* ===== verification/DNS_Trails.thy ===== *)
theory DNS_Trails
  imports DNS_Properties
begin

text \<open>
  The loop of \<open>dns_response.cpp\<close> that follows compression pointers, decided: whether it returns shows after
  as many pointers as the message has octets.
\<close>

section \<open>The trail of a pointer\<close>

definition live :: "bytes \<Rightarrow> nat \<Rightarrow> bool" where
  "live msg p \<longleftrightarrow> p \<noteq> 0 \<and> (case decodeDomainName msg p of Inr _ \<Rightarrow> True | Inl _ \<Rightarrow> False)"

definition leads_to :: "bytes \<Rightarrow> nat \<Rightarrow> nat" where
  "leads_to msg p = (case decodeDomainName msg p of Inr (n, part, p') \<Rightarrow> p' | Inl _ \<Rightarrow> 0)"

text \<open>\<open>trail_ends k msg p\<close>: following pointers from \<open>p\<close>, the end or a fault comes before the \<open>k\<close>-th name.\<close>

primrec trail_ends :: "nat \<Rightarrow> bytes \<Rightarrow> nat \<Rightarrow> bool" where
  "trail_ends 0 msg p = False"
| "trail_ends (Suc k) msg p \<longleftrightarrow> \<not> live msg p \<or> trail_ends k msg (leads_to msg p)"

lemma trail_ends_iff: "trail_ends k msg p \<longleftrightarrow> (\<exists>i < k. \<not> live msg ((leads_to msg ^^ i) p))"
proof (induction k arbitrary: p)
  case (Suc k)
  have "(\<exists>i < Suc k. \<not> live msg ((leads_to msg ^^ i) p))
      \<longleftrightarrow> \<not> live msg p \<or> (\<exists>i < k. \<not> live msg ((leads_to msg ^^ i) (leads_to msg p)))"
    unfolding Ex_less_Suc2 by (simp add: funpow_swap1)
  then show ?case using Suc by simp
qed simp

lemma live_bound: "live msg p \<Longrightarrow> p \<in> {1..<length msg}"
  using decodeDomainName_bounds [of msg p] by (fastforce simp: live_def split: sum.splits)

lemma live_decodes: "live msg p \<Longrightarrow> \<exists>n part. decodeDomainName msg p = Inr (n, part, leads_to msg p)"
  by (auto simp: live_def leads_to_def split: sum.splits)

text \<open>A trail that ends is followed to its end; one that is live for as long as the message revisits a position.\<close>

lemma trail_ends_returns: "trail_ends k msg p \<Longrightarrow> \<exists>r. follow_pointers msg p name = Some r"
proof (induction k arbitrary: p name)
  case (Suc k)
  show ?case
  proof (cases "live msg p")
    case True
    then obtain n part where "decodeDomainName msg p = Inr (n, part, leads_to msg p)" "p \<noteq> 0"
      using live_decodes [OF True] True by (auto simp: live_def)
    with Suc True show ?thesis by (simp add: follow_pointers_step)
  next
    case False
    then show ?thesis by (auto simp: follow_pointers.simps [of msg p] live_def split: sum.splits)
  qed
qed simp

lemma long_trail_hangs:
  assumes "\<not> trail_ends (length msg) msg p" "msg \<noteq> []"
  shows "follow_pointers msg p name = None"
proof -
  let ?f = "\<lambda>i. (leads_to msg ^^ i) p"
  have live: "live msg (?f i)" if "i < length msg" for i
    using assms(1) that by (auto simp: trail_ends_iff)
  have "?f ` {..<length msg} \<subseteq> {1..<length msg}" using live live_bound by blast
  then have "card (?f ` {..<length msg}) \<le> length msg - 1"
    using card_mono [of "{1..<length msg}"] by fastforce
  also have "\<dots> < card {..<length msg}" using assms(2) by simp
  finally have "\<not> inj_on ?f {..<length msg}" using pigeonhole by blast
  then obtain i j where ij: "i < j" "j < length msg" "?f i = ?f j"
    unfolding inj_on_def by (metis lessThan_iff nat_neq_iff)
  let ?S = "?f ` {..<j}"
  have step: "leads_to msg (?f m) \<in> ?S" if "m < j" for m
  proof (cases "Suc m = j")
    case True
    then have "leads_to msg (?f m) = ?f i" using ij(3) by auto
    then show ?thesis using ij(1) by blast
  next
    case False
    then have "Suc m < j" using that by simp
    then show ?thesis by (intro image_eqI [of _ _ "Suc m"]) simp_all
  qed
  show ?thesis
  proof (rule follow_pointers_cycle [where S = ?S])
    fix q assume "q \<in> ?S"
    then obtain m where m: "m < j" "q = ?f m" by blast
    then have "live msg q" using live ij(2) by simp
    then show "q \<noteq> 0 \<and> (\<exists>n part q'. decodeDomainName msg q = Inr (n, part, q') \<and> q' \<in> ?S)"
      using live_decodes [of msg q] step [OF m(1)] m(2) by (auto simp: live_def)
  next
    show "p \<in> ?S" using ij(1) by (intro image_eqI [of _ _ 0]) simp_all
  qed
qed

text \<open>C31: whether the decoder of responses returns from a name is decided by the message, for every message and
  position: it returns exactly when the position is not that of a name, or when following the pointer behind the first
  part meets the end, or octets that are no name, before as many parts as the message has octets. Otherwise it revisits
  a position and never returns.\<close>
theorem name_reading_decided:
  "(\<exists>r. readName msg pos = Some r) \<longleftrightarrow>
    (\<forall>n part p. decodeDomainName msg pos = Inr (n, part, p) \<longrightarrow> trail_ends (length msg) msg p)"
proof (cases "decodeDomainName msg pos")
  case (Inr res)
  obtain n part p where d: "decodeDomainName msg pos = Inr (n, part, p)" using Inr by (cases res) auto
  then have "msg \<noteq> []" using decodeDomainName_bounds [OF d] by auto
  moreover have "(\<exists>r. readName msg pos = Some r) \<longleftrightarrow> (\<exists>r. follow_pointers msg p part = Some r)"
    by (auto simp: readName_def d bind_out_def split: option.splits sum.splits)
  ultimately show ?thesis
    using d trail_ends_returns [of "length msg" msg p part] long_trail_hangs [of msg p part]
    by (cases "trail_ends (length msg) msg p") auto
qed (simp add: readName_def)

definition looping_message :: bytes where
  "looping_message = [9, 192, 3, 192, 1]"

theorem name_reading_decided_witness:
  "(\<exists>r. readName sample_message 8 = Some r) \<and> \<not> (\<exists>r. readName looping_message 1 = Some r)"
proof -
  have ends: "decodeDomainName sample_message 8 = Inr (2, [], 4)" "trail_ends (length sample_message) sample_message 4"
    by code_simp+
  have loop: "decodeDomainName looping_message 1 = Inr (2, [], 3)" "\<not> trail_ends (length looping_message) looping_message 3"
    by code_simp+
  show ?thesis
    using name_reading_decided [of sample_message 8] name_reading_decided [of looping_message 1] ends loop
    by simp
qed

end
