(* ===== verification/TFTP_Common.thy ===== *)
theory TFTP_Common
  imports Std_String
begin

text \<open>
  What the TFTP server and client share: modes, message and error codes, the layout of the
  datagrams both build (16-bit fields in host byte order, as \<open>memcpy\<close> leaves them), C strings
  read from a buffer, and the block loop that both \<open>TFTPSessionRead::sendBlockOfData\<close> and
  \<open>TFTPClient::putFile\<close> run over an input file.
\<close>

section \<open>Codes\<close>

definition BUFFER_SIZE :: nat where
  "BUFFER_SIZE = 516"

datatype TransferMode = Binary | ASCII

datatype MessageType = RRQ | WRQ | DATA | ACK | ERROR | OACK

fun msg_code :: "MessageType \<Rightarrow> u16" where
  "msg_code RRQ = 1"
| "msg_code WRQ = 2"
| "msg_code DATA = 3"
| "msg_code ACK = 4"
| "msg_code ERROR = 5"
| "msg_code OACK = 6"

datatype ErrorCode = EC_NoError | FileNotFound | AccessViolation | DiskFull | IllegalOperation
  | UnknownTransferId | FileAlreadyExists | NoSuchUser | TerminateTransfer

fun error_code :: "ErrorCode \<Rightarrow> u16" where
  "error_code EC_NoError = 0"
| "error_code FileNotFound = 1"
| "error_code AccessViolation = 2"
| "error_code DiskFull = 3"
| "error_code IllegalOperation = 4"
| "error_code UnknownTransferId = 5"
| "error_code FileAlreadyExists = 6"
| "error_code NoSuchUser = 7"
| "error_code TerminateTransfer = 8"

datatype State = Undefined | Active | Failed | Finished

text \<open>The files by name, \<open>None\<close> for one that does not exist.\<close>

type_synonym files = "string \<Rightarrow> bytes option"

section \<open>Datagrams\<close>

definition error_datagram :: "ErrorCode \<Rightarrow> string \<Rightarrow> bytes" where
  "error_datagram code t =
     (let n = if length t < 512 then length t else 511
      in le16 (msg_code ERROR) @ le16 (error_code code) @ to_bytes (take n t) @ [0])"

definition data_datagram :: "u16 \<Rightarrow> bytes \<Rightarrow> bytes" where
  "data_datagram block payload = le16 (msg_code DATA) @ le16 block @ payload"

definition ack_datagram :: "u16 \<Rightarrow> bytes" where
  "ack_datagram block = le16 (msg_code ACK) @ le16 block"

lemma length_error_datagram: "length (error_datagram c t) \<le> BUFFER_SIZE"
  by (simp add: error_datagram_def BUFFER_SIZE_def)

lemma length_data_datagram [simp]: "length (data_datagram b p) = 4 + length p"
  by (simp add: data_datagram_def)

lemma length_ack_datagram [simp]: "length (ack_datagram b) = 4"
  by (simp add: ack_datagram_def)

lemma msg_code_inj [simp]: "msg_code a = msg_code b \<longleftrightarrow> a = b"
  by (cases a; cases b) simp_all

lemma datagram_type [simp, codec_simps]:
  "rd_le16 (data_datagram b p @ post) 0 = Inr (msg_code DATA)"
  "rd_le16 (ack_datagram b @ post) 0 = Inr (msg_code ACK)"
  "rd_le16 (error_datagram c t @ post) 0 = Inr (msg_code ERROR)"
  by (simp_all only: data_datagram_def ack_datagram_def error_datagram_def Let_def append_assoc rd_le16_0)

lemma datagram_block [simp, codec_simps]:
  "rd_le16 (data_datagram b p @ post) 2 = Inr b"
  "rd_le16 (ack_datagram b @ post) 2 = Inr b"
  using rd_le16_at [of "le16 (msg_code DATA)" b "p @ post"] rd_le16_at [of "le16 (msg_code ACK)" b post]
  by (simp_all add: data_datagram_def ack_datagram_def del: rd_le16_at rd_le16_ok)

text \<open>\<open>std::string(p)\<close> on a pointer into a buffer: up to the first NUL, which must be there.\<close>

definition c_string :: "bytes \<Rightarrow> nat \<Rightarrow> string resl" where
  "c_string buf i =
     (if 0 \<in> set (drop i buf) then Inr (of_bytes (takeWhile (\<lambda>b. b \<noteq> 0) (drop i buf)))
      else Inl Out_Of_Bounds)"

lemma c_string_at [codec_simps]:
  assumes "CHR 0x00 \<notin> set s"
  shows "c_string (pre @ to_bytes s @ 0 # post) (length pre) = Inr s"
proof -
  have "\<forall>b \<in> set (to_bytes s). b \<noteq> 0"
    using assms by (auto simp: to_bytes_def)
  then have "takeWhile (\<lambda>b. b \<noteq> 0) (to_bytes s @ 0 # post) = to_bytes s"
    by (simp add: takeWhile_append2)
  then show ?thesis by (simp add: c_string_def)
qed

text \<open>The request of \<open>getFile\<close> and \<open>putFile\<close>: the file name is cut at 78 characters.\<close>

definition MAX_FILENAME_LENGTH :: nat where
  "MAX_FILENAME_LENGTH = 78"

definition mode_name :: "TransferMode \<Rightarrow> string" where
  "mode_name m = (case m of Binary \<Rightarrow> ''octet'' | ASCII \<Rightarrow> ''netascii'')"

definition request_datagram :: "MessageType \<Rightarrow> string \<Rightarrow> TransferMode \<Rightarrow> bytes" where
  "request_datagram t fname m =
     le16 (msg_code t) @ to_bytes (take (min (length fname) MAX_FILENAME_LENGTH) fname) @ [0]
     @ to_bytes (mode_name m) @ [0]"

lemma length_request_datagram: "length (request_datagram t fname m) \<le> 90"
  by (cases m) (simp_all add: request_datagram_def mode_name_def MAX_FILENAME_LENGTH_def)

section \<open>The block loop\<close>

abbreviation LF :: u8 where "LF \<equiv> 10"
abbreviation CR :: u8 where "CR \<equiv> 13"

text \<open>
  The inner \<open>while (n < 512)\<close> of the netascii branch: \<open>n\<close> bytes written so far (\<open>out\<close>), the
  \<open>lineFeed\<close> flag, the rest of the file. \<open>peek() == EOF\<close> is an empty rest.
\<close>

fun ascii_fill :: "nat \<Rightarrow> bool \<Rightarrow> bytes \<Rightarrow> bytes \<Rightarrow> bytes \<times> bool \<times> bytes" where
  "ascii_fill n lineFeed out rest =
     (if n < 512 then
        (let (n, out, lineFeed) = (if lineFeed then (n + 1, out @ [LF], False) else (n, out, lineFeed)) in
         case rest of
           [] \<Rightarrow> (out, lineFeed, [])
         | x # xs \<Rightarrow>
             if x = LF then
               (let out = out @ [CR]; n = n + 1 in
                if n = 512 then (out, True, xs)
                else ascii_fill (n + 1) lineFeed (out @ [x]) xs)
             else ascii_fill (n + 1) lineFeed (out @ [x]) xs)
      else (out, lineFeed, rest))"

declare ascii_fill.simps [simp del]

text \<open>One block: the payload, the flag and what is left of the file.\<close>

fun read_block :: "TransferMode \<Rightarrow> bool \<times> bytes \<Rightarrow> bytes \<times> (bool \<times> bytes)" where
  "read_block ASCII (lineFeed, rest) = ascii_fill 0 lineFeed [] rest"
| "read_block Binary (lineFeed, rest) = (take 512 rest, (lineFeed, drop 512 rest))"

text \<open>The receivers' side: netascii drops every carriage return.\<close>

definition stored_bytes :: "TransferMode \<Rightarrow> bytes \<Rightarrow> bytes" where
  "stored_bytes m payload = (if m = ASCII then filter (\<lambda>b. b \<noteq> CR) payload else payload)"

subsection \<open>A source of blocks\<close>

text \<open>
  The contract of a block source: it hands out its pending bytes 512 at a time. A file of
  \<open>n\<close> pending bytes takes \<open>n div 512 + 1\<close> blocks, all but the last of them full.
\<close>

fun take_blocks :: "('s \<Rightarrow> bytes \<times> 's) \<Rightarrow> nat \<Rightarrow> 's \<Rightarrow> bytes list" where
  "take_blocks nb 0 s = []"
| "take_blocks nb (Suc k) s = (let (b, s') = nb s in b # take_blocks nb k s')"

locale block_source =
  fixes next_block :: "'s \<Rightarrow> bytes \<times> 's"
    and pending :: "'s \<Rightarrow> bytes"
  assumes block: "fst (next_block s) = take 512 (pending s)"
    and rest: "pending (snd (next_block s)) = drop 512 (pending s)"
begin

lemma block_length: "length (fst (next_block s)) \<le> 512"
  by (simp add: block)

lemma short_block_is_last: "length (fst (next_block s)) < 512 \<Longrightarrow> pending (snd (next_block s)) = []"
  by (simp add: block rest)

lemma full_block: "length (fst (next_block s)) = 512 \<longleftrightarrow> 512 \<le> length (pending s)"
  by (simp add: block min_def)

lemma concat_take_blocks: "concat (take_blocks next_block k s) = take (512 * k) (pending s)"
proof (induction k arbitrary: s)
  case (Suc k)
  have "take (512 * k) (drop 512 (pending s)) = drop 512 (take (512 * Suc k) (pending s))"
    by (simp add: drop_take)
  moreover have "take 512 (pending s) = take 512 (take (512 * Suc k) (pending s))"
    by (simp add: min_def)
  ultimately show ?case
    using Suc.IH [of "snd (next_block s)"]
    by (simp add: case_prod_unfold Let_def block rest del: take_take)
qed simp

lemma nth_take_blocks:
  "i < k \<Longrightarrow> take_blocks next_block k s ! i = take 512 (drop (512 * i) (pending s))"
proof (induction k arbitrary: s i)
  case (Suc k)
  show ?case
  proof (cases i)
    case 0
    then show ?thesis by (simp add: case_prod_unfold Let_def block)
  next
    case (Suc j)
    with Suc.IH [of j "snd (next_block s)"] Suc.prems show ?thesis
      by (simp add: case_prod_unfold Let_def rest add.commute)
  qed
qed simp

lemma length_take_blocks [simp]: "length (take_blocks next_block k s) = k"
  by (induction k arbitrary: s) (simp_all add: case_prod_unfold Let_def)

text \<open>The whole transfer: everything is handed out, full blocks first, a short one last.\<close>

lemma transfer_blocks:
  defines "bs \<equiv> \<lambda>s. take_blocks next_block (length (pending s) div 512 + 1) s"
  shows "concat (bs s) = pending s"
    and "\<And>i. i < length (pending s) div 512 \<Longrightarrow> length (bs s ! i) = 512"
    and "length (last (bs s)) < 512"
proof -
  let ?n = "length (pending s)"
  have n: "?n < 512 * (?n div 512 + 1)" by (simp add: dividend_less_times_div)
  then show "concat (bs s) = pending s" by (simp add: bs_def concat_take_blocks del: take_blocks.simps)
  show "length (bs s ! i) = 512" if "i < ?n div 512" for i
  proof -
    have "512 * i + 512 \<le> 512 * (?n div 512)" using that by simp
    also have "\<dots> \<le> ?n" by simp
    finally show ?thesis using that
      by (auto simp: bs_def nth_take_blocks min_def simp del: take_blocks.simps)
  qed
  have "bs s \<noteq> []" by (simp add: bs_def case_prod_unfold Let_def)
  then have "last (bs s) = bs s ! (?n div 512)" by (simp add: last_conv_nth bs_def del: take_blocks.simps)
  also have "\<dots> = take 512 (drop (512 * (?n div 512)) (pending s))"
    by (simp add: bs_def nth_take_blocks del: take_blocks.simps)
  finally show "length (last (bs s)) < 512" using n by simp
qed

end

subsection \<open>Both modes are block sources\<close>

text \<open>The netascii form of a file: a carriage return before every line feed.\<close>

definition netascii :: "bytes \<Rightarrow> bytes" where
  "netascii f = concat (map (\<lambda>b. if b = LF then [CR, LF] else [b]) f)"

definition pending_bytes :: "TransferMode \<Rightarrow> bool \<times> bytes \<Rightarrow> bytes" where
  "pending_bytes m s = (case m of Binary \<Rightarrow> snd s
     | ASCII \<Rightarrow> (if fst s then [LF] else []) @ netascii (snd s))"

lemma netascii_simps [simp]:
  "netascii [] = []" "netascii (x # xs) = (if x = LF then [CR, LF] else [x]) @ netascii xs"
  by (simp_all add: netascii_def)

lemma length_netascii: "length (netascii f) = length f + count_list f LF"
  by (induction f) auto

lemma ascii_fill_no_flag:
  "n \<le> 512 \<Longrightarrow> ascii_fill n False out rest = (out', lf', rest') \<Longrightarrow>
     out' = out @ take (512 - n) (netascii rest)
     \<and> (if lf' then [LF] else []) @ netascii rest' = drop (512 - n) (netascii rest)"
proof (induction rest arbitrary: n out)
  case Nil
  then show ?case by (subst (asm) ascii_fill.simps) (auto split: if_splits)
next
  case (Cons x xs)
  consider (full) "n = 512" | (split) "n = 511" "x = LF" | (more) "n < 512" "n < 511 \<or> x \<noteq> LF"
    using Cons.prems(1) by linarith
  then show ?case
  proof cases
    case full
    with Cons.prems(2) show ?thesis by (subst (asm) ascii_fill.simps) simp
  next
    case split
    with Cons.prems(2) show ?thesis by (subst (asm) ascii_fill.simps) simp
  next
    case more
    let ?w = "if x = LF then [CR, LF] else [x]"
    have "ascii_fill (n + length ?w) False (out @ ?w) xs = (out', lf', rest')"
      using Cons.prems(2) more by (subst (asm) ascii_fill.simps) (auto split: if_splits)
    moreover have "n + length ?w \<le> 512" using more by auto
    ultimately have "out' = (out @ ?w) @ take (512 - (n + length ?w)) (netascii xs)
       \<and> (if lf' then [LF] else []) @ netascii rest' = drop (512 - (n + length ?w)) (netascii xs)"
      by (intro Cons.IH) simp_all
    moreover have "take (512 - n) (netascii (x # xs)) = ?w @ take (512 - (n + length ?w)) (netascii xs)"
      using more by (auto simp: take_Cons' diff_diff_eq)
    moreover have "drop (512 - n) (netascii (x # xs)) = drop (512 - (n + length ?w)) (netascii xs)"
      using more by (auto simp: drop_Cons' diff_diff_eq)
    ultimately show ?thesis by simp
  qed
qed

lemma ascii_fill_flag: "ascii_fill 0 True [] rest = ascii_fill 1 False [LF] rest"
  by (subst (1 2) ascii_fill.simps) simp

lemma read_block_pending:
  "fst (read_block m s) = take 512 (pending_bytes m s)
   \<and> pending_bytes m (snd (read_block m s)) = drop 512 (pending_bytes m s)"
proof (cases m)
  case Binary
  then show ?thesis by (cases s) (simp add: pending_bytes_def)
next
  case ASCII
  obtain lf r where s: "s = (lf, r)" by (cases s)
  obtain out lf' r' where f: "ascii_fill 0 lf [] r = (out, lf', r')" by (cases "ascii_fill 0 lf [] r")
  show ?thesis
  proof (cases lf)
    case False
    with f ascii_fill_no_flag [of 0 "[]" r out lf' r'] show ?thesis
      by (simp add: ASCII s pending_bytes_def)
  next
    case True
    with f have "ascii_fill 1 False [LF] r = (out, lf', r')" by (simp add: ascii_fill_flag)
    from ascii_fill_no_flag [OF _ this] f True show ?thesis
      by (simp add: ASCII s pending_bytes_def)
  qed
qed

interpretation file_blocks: block_source "read_block m" "pending_bytes m" for m
  by unfold_locales (simp_all add: read_block_pending)

subsection \<open>A receiver of the blocks rebuilds the file\<close>

lemma stored_bytes_append [simp]: "stored_bytes m (a @ b) = stored_bytes m a @ stored_bytes m b"
  by (simp add: stored_bytes_def)

lemma stored_bytes_Nil [simp]: "stored_bytes m [] = []"
  by (simp add: stored_bytes_def)

lemma stored_bytes_concat: "stored_bytes m (concat bs) = concat (map (stored_bytes m) bs)"
  by (induction bs) simp_all

lemma filter_netascii: "filter (\<lambda>b. b \<noteq> CR) (netascii f) = filter (\<lambda>b. b \<noteq> CR) f"
  by (induction f) auto

lemma stored_pending: "stored_bytes m (pending_bytes m (False, f)) = stored_bytes m f"
  by (cases m) (simp_all add: stored_bytes_def pending_bytes_def filter_netascii)

lemma stored_bytes_id: "m = Binary \<or> CR \<notin> set f \<Longrightarrow> stored_bytes m f = f"
  by (auto simp: stored_bytes_def filter_id_conv)

end
