(* ===== verification/TFTP_Sessions.thy ===== *)
theory TFTP_Sessions
  imports TFTP_Common
begin

text \<open>
  \<open>tftp/tftp-server.cpp\<close>, the two session classes. A handler maps the session to its new state
  and the datagrams it hands to \<open>send\<close> (at most one). The base class's members are the record
  \<open>tftp_base\<close>; the derived classes extend it. Streams are modelled by what their flags decide:
  \<open>open\<close> on an open stream fails and sets \<open>failbit\<close>, and a failed stream delivers and stores
  nothing.
\<close>

section \<open>State\<close>

record tftp_base =
  transferMode :: TransferMode
  blockCounter :: u16
  sstate :: State

record read_session = tftp_base +
  in_open :: bool
  in_bad :: bool
  in_rest :: bytes
  readComplete :: bool
  lineFeed :: bool

record write_session = tftp_base +
  out_open :: "string option"
  out_bad :: bool

definition new_read_session :: read_session where
  "new_read_session = \<lparr>transferMode = ASCII, blockCounter = 0, sstate = Undefined, in_open = False,
     in_bad = False, in_rest = [], readComplete = False, lineFeed = False\<rparr>"

definition new_write_session :: write_session where
  "new_write_session = \<lparr>transferMode = ASCII, blockCounter = 0, sstate = Undefined,
     out_open = None, out_bad = False\<rparr>"

definition incrementBlockCounter :: "'a tftp_base_scheme \<Rightarrow> 'a tftp_base_scheme" where
  "incrementBlockCounter s = s\<lparr>blockCounter := blockCounter s + 1\<rparr>"

text \<open>The transfer mode named by a request.\<close>

definition parse_mode :: "string \<Rightarrow> TransferMode option" where
  "parse_mode m = (if m = ''octet'' then Some Binary else if m = ''netascii'' then Some ASCII else None)"

section \<open>Reading sessions\<close>

definition open_in :: "bytes option \<Rightarrow> read_session \<Rightarrow> read_session" where
  "open_in content s =
     (if in_open s then s\<lparr>in_bad := True\<rparr>
      else case content of
             None \<Rightarrow> s\<lparr>in_bad := True\<rparr>
           | Some d \<Rightarrow> s\<lparr>in_open := True, in_bad := False, in_rest := d\<rparr>)"

definition readable :: "read_session \<Rightarrow> bytes" where
  "readable s = (if in_bad s then [] else in_rest s)"

definition sendBlockOfData :: "read_session \<Rightarrow> read_session \<times> bytes list" where
  "sendBlockOfData s =
     (case read_block (transferMode s) (lineFeed s, readable s) of
        (payload, lf, rest) \<Rightarrow>
          let s' = (incrementBlockCounter s)\<lparr>lineFeed := lf,
                     in_rest := (if in_bad s then in_rest s else rest),
                     readComplete := (readComplete s \<or> length payload < 512)\<rparr>
          in (s', [data_datagram (blockCounter s') payload]))"

definition read_onDataReceived :: "files \<Rightarrow> bytes \<Rightarrow> read_session \<Rightarrow> (read_session \<times> bytes list) resl" where
  "read_onDataReceived fs data s =
     bind_res (rd_le16 data 0) (\<lambda>msgType.
       if msgType = msg_code RRQ then
         (let s = s\<lparr>sstate := Active\<rparr> in
          bind_res (c_string data 2) (\<lambda>filename.
            if filename = [] then Inr (s, [])
            else bind_res (c_string data (2 + length filename + 1)) (\<lambda>mode.
              case parse_mode mode of
                None \<Rightarrow> Inr (s, [])
              | Some m \<Rightarrow>
                  (let s = open_in (fs filename) (s\<lparr>transferMode := m\<rparr>)
                   in if in_bad s then Inr (s, [error_datagram FileNotFound []])
                      else Inr (sendBlockOfData s)))))
       else if msgType = msg_code ACK then
         bind_res (rd_le16 data 2) (\<lambda>block.
           if block \<noteq> blockCounter s then Inr (s, [error_datagram UnknownTransferId []])
           else if readComplete s then Inr (s\<lparr>in_open := False, sstate := Finished\<rparr>, [])
           else Inr (sendBlockOfData s))
       else Inr (s, []))"

section \<open>Writing sessions\<close>

text \<open>
  What the file system answers besides the files themselves: whether the calls
  \<open>current_path\<close>, \<open>exists\<close> and \<open>status\<close> succeed, whether others may write the current
  directory, which names are directories, which files can be created.
\<close>

record write_env =
  cwd_ok :: bool
  exists_ok :: bool
  status_ok :: bool
  others_write :: bool
  is_dir :: "string \<Rightarrow> bool"
  can_create :: "string \<Rightarrow> bool"

definition open_out :: "write_env \<Rightarrow> string \<Rightarrow> write_session \<times> files \<Rightarrow> write_session \<times> files" where
  "open_out env f sf =
     (let (s, fs) = sf in
      if out_open s \<noteq> None \<or> \<not> can_create env f then (s\<lparr>out_bad := True\<rparr>, fs)
      else (s\<lparr>out_open := Some f, out_bad := False\<rparr>, fs(f \<mapsto> [])))"

definition put_out :: "bytes \<Rightarrow> write_session \<Rightarrow> files \<Rightarrow> files" where
  "put_out d s fs =
     (case out_open s of
        None \<Rightarrow> fs
      | Some f \<Rightarrow> if out_bad s then fs
                  else case fs f of None \<Rightarrow> fs | Some old \<Rightarrow> fs(f \<mapsto> old @ d))"

definition sendAcknowledge :: "write_session \<Rightarrow> bytes list" where
  "sendAcknowledge s = [ack_datagram (blockCounter s)]"

text \<open>
  \<open>amount - bytesCount\<close> wraps for a datagram shorter than its header. The copy of a netascii
  transfer then runs out of the buffer; \<open>ofstream::write\<close> gets the size as a negative
  \<open>streamsize\<close>, takes nothing and leaves the stream failed, and the size is not below 512. The last
  two statements of the DATA branch are skipped when the acknowledgement cannot be sent.
\<close>

definition write_onDataReceived ::
  "write_env \<Rightarrow> bytes \<Rightarrow> nat \<Rightarrow> bool \<Rightarrow> write_session \<times> files \<Rightarrow> ((write_session \<times> files) \<times> bytes list) resl"
where
  "write_onDataReceived env data amount send_ok sf =
     (let (s, fs) = sf in
      bind_res (rd_le16 data 0) (\<lambda>msgType.
       if msgType = msg_code WRQ then
         (let s = s\<lparr>sstate := Active\<rparr> in
          bind_res (c_string data 2) (\<lambda>filename.
            if filename = [] then Inr ((s, fs), [])
            else bind_res (c_string data (2 + length filename + 1)) (\<lambda>mode.
              case parse_mode mode of
                None \<Rightarrow> Inr ((s, fs), [])
              | Some m \<Rightarrow>
                  (let s = s\<lparr>transferMode := m\<rparr> in
                   if \<not> cwd_ok env then Inr ((s, fs), [])
                   else if \<not> exists_ok env then Inr ((s, fs), [])
                   else if fs filename \<noteq> None \<or> is_dir env filename
                   then Inr ((s, fs), [error_datagram FileAlreadyExists []])
                   else if \<not> status_ok env then Inr ((s, fs), [])
                   else if \<not> others_write env then Inr ((s, fs), [error_datagram AccessViolation []])
                   else (let (s, fs) = open_out env filename (s, fs)
                         in Inr ((s, fs), sendAcknowledge s))))))
       else if msgType = msg_code DATA then
         bind_res (rd_le16 data 2) (\<lambda>block.
           let s = incrementBlockCounter s in
           if block \<noteq> blockCounter s then Inr ((s, fs), [error_datagram UnknownTransferId []])
           else if amount < 4 \<and> transferMode s = ASCII then Inl Out_Of_Bounds
           else if amount < 4 then Inr ((s\<lparr>out_bad := True\<rparr>, fs), sendAcknowledge s)
           else bind_res (rd_range data 4 (amount - 4)) (\<lambda>payload.
             let fs = put_out (stored_bytes (transferMode s) payload) s fs;
                 ack = sendAcknowledge s
             in if \<not> send_ok then Inr ((s, fs), ack)
                else if length payload < 512
                then Inr ((s\<lparr>out_open := None, sstate := Finished\<rparr>, fs), ack)
                else Inr ((s, fs), ack)))
       else Inr ((s, fs), [])))"

section \<open>Handlers produce at most one datagram, and it fits the buffer\<close>

lemma sendBlockOfData_state:
  "blockCounter (fst (sendBlockOfData s)) = blockCounter s + 1"
  "sstate (fst (sendBlockOfData s)) = sstate s"
  "transferMode (fst (sendBlockOfData s)) = transferMode s"
  "in_bad (fst (sendBlockOfData s)) = in_bad s"
  "in_open (fst (sendBlockOfData s)) = in_open s"
  by (simp_all add: sendBlockOfData_def incrementBlockCounter_def Let_def split: prod.splits)

text \<open>What a reading session has still to send.\<close>

definition to_send :: "read_session \<Rightarrow> bytes" where
  "to_send s = pending_bytes (transferMode s) (lineFeed s, readable s)"

lemma sendBlockOfData_block:
  "snd (sendBlockOfData s) = [data_datagram (blockCounter s + 1) (take 512 (to_send s))]"
  "to_send (fst (sendBlockOfData s)) = drop 512 (to_send s)"
  "readComplete (fst (sendBlockOfData s)) = (readComplete s \<or> length (to_send s) < 512)"
proof -
  obtain p lf r where b: "read_block (transferMode s) (lineFeed s, readable s) = (p, lf, r)"
    by (metis prod_cases3)
  have p: "p = take 512 (to_send s)" and r: "pending_bytes (transferMode s) (lf, r) = drop 512 (to_send s)"
    using read_block_pending [of "transferMode s" "(lineFeed s, readable s)"] b by (simp_all add: to_send_def)
  have "snd (snd (read_block m (l, []))) = []" for m l
    by (cases m; cases l) (simp_all add: ascii_fill.simps [of _ _ _ "[]"])
  then have bad: "in_bad s \<Longrightarrow> r = []" using b by (metis readable_def snd_conv)
  note def = sendBlockOfData_def incrementBlockCounter_def Let_def b prod.case
  show "snd (sendBlockOfData s) = [data_datagram (blockCounter s + 1) (take 512 (to_send s))]"
    unfolding def by (simp add: p)
  have "readable (fst (sendBlockOfData s)) = r" "lineFeed (fst (sendBlockOfData s)) = lf"
    unfolding def using bad by (simp_all add: readable_def)
  then show "to_send (fst (sendBlockOfData s)) = drop 512 (to_send s)"
    by (simp add: to_send_def sendBlockOfData_state r)
  show "readComplete (fst (sendBlockOfData s)) = (readComplete s \<or> length (to_send s) < 512)"
    unfolding def by (auto simp add: p)
qed

definition fits :: "bytes list \<Rightarrow> bool" where
  "fits out \<longleftrightarrow> length out \<le> 1 \<and> (\<forall>d \<in> set out. length d \<le> BUFFER_SIZE)"

lemma fits_simps [simp]:
  "fits []" "fits [error_datagram c t]" "fits (snd (sendBlockOfData s))" "fits (sendAcknowledge w)"
  using length_error_datagram [of c t]
  by (simp_all add: fits_def sendBlockOfData_block sendAcknowledge_def BUFFER_SIZE_def)

lemma read_onDataReceived_fits: "holds (\<lambda>(s', out). fits out) (read_onDataReceived fs data s)"
  by (simp add: read_onDataReceived_def Let_def case_prod_unfold split: option.split)

lemma write_onDataReceived_fits: "holds (\<lambda>(sf', out). fits out) (write_onDataReceived env data n ok sf)"
  by (simp add: write_onDataReceived_def Let_def case_prod_unfold split: option.split)

end
