(* ===== verification/TFTP_Server.thy ===== *)
theory TFTP_Server
  imports TFTP_Sessions Machines
begin

text \<open>
  \<open>tftp/tftp-server.cpp: TFTPServer\<close>: the table of sessions keyed by the peer's endpoint, the one
  receive buffer all datagrams land in, and the completion handler of \<open>receive()\<close> that
  dispatches a datagram.
\<close>

section \<open>State\<close>

datatype endpoint = Endpoint (ep_addr: u32) (ep_port: u16)

datatype session = Read_Session read_session | Write_Session write_session

record tftp_server =
  sessions :: "endpoint \<Rightarrow> session option"
  recvBuffer :: bytes
  srv_files :: files
  outbox :: "(endpoint \<times> bytes) list"

definition new_tftp_server :: "bytes \<Rightarrow> files \<Rightarrow> tftp_server" where
  "new_tftp_server junk fs = \<lparr>sessions = (\<lambda>_. None), recvBuffer = junk, srv_files = fs, outbox = []\<rparr>"

fun session_state :: "session \<Rightarrow> State" where
  "session_state (Read_Session r) = sstate r"
| "session_state (Write_Session w) = sstate w"

section \<open>The completion handler\<close>

text \<open>The virtual call \<open>session->onDataReceived(_recvBuffer, n)\<close>.\<close>

fun onDataReceived :: "write_env \<Rightarrow> bytes \<Rightarrow> nat \<Rightarrow> bool \<Rightarrow> session \<Rightarrow> files
    \<Rightarrow> ((session \<times> files) \<times> bytes list) resl" where
  "onDataReceived env buf n send_ok (Read_Session r) fs =
     bind_res (read_onDataReceived fs buf r) (\<lambda>(r', out). Inr ((Read_Session r', fs), out))"
| "onDataReceived env buf n send_ok (Write_Session w) fs =
     bind_res (write_onDataReceived env buf n send_ok (w, fs))
       (\<lambda>((w', fs'), out). Inr ((Write_Session w', fs'), out))"

text \<open>The handler's call and the bookkeeping of what was sent.\<close>

definition deliver :: "write_env \<Rightarrow> endpoint \<Rightarrow> nat \<Rightarrow> bool \<Rightarrow> session \<Rightarrow> tftp_server
    \<Rightarrow> (session \<times> tftp_server) resl" where
  "deliver env ep n send_ok sess srv =
     bind_res (onDataReceived env (recvBuffer srv) n send_ok sess (srv_files srv))
       (\<lambda>((sess', fs'), out).
          Inr (sess', srv\<lparr>sessions := (sessions srv)(ep \<mapsto> sess'), srv_files := fs',
                         outbox := outbox srv @ (if send_ok then map (Pair ep) out else [])\<rparr>))"

text \<open>The server's own \<open>send\<close> and \<open>sendErrorMessage\<close>; the one call ignores the result.\<close>

definition server_send :: "bytes \<Rightarrow> endpoint \<Rightarrow> bool \<Rightarrow> tftp_server \<Rightarrow> bool \<times> tftp_server" where
  "server_send d ep send_ok srv =
     (if send_ok then (True, srv\<lparr>outbox := outbox srv @ [(ep, d)]\<rparr>) else (False, srv))"

definition server_sendErrorMessage :: "ErrorCode \<Rightarrow> string \<Rightarrow> endpoint \<Rightarrow> bool \<Rightarrow> tftp_server \<Rightarrow> bool \<times> tftp_server" where
  "server_sendErrorMessage code msg ep send_ok srv = server_send (error_datagram code msg) ep send_ok srv"

lemma server_sendErrorMessage_outbox [simp]:
  "snd (server_sendErrorMessage code msg ep send_ok srv)
     = srv\<lparr>outbox := outbox srv @ (if send_ok then [(ep, error_datagram code msg)] else [])\<rparr>"
  by (simp add: server_sendErrorMessage_def server_send_def)

definition on_datagram :: "write_env \<Rightarrow> endpoint \<Rightarrow> bytes \<Rightarrow> bool \<Rightarrow> tftp_server \<Rightarrow> tftp_server resl" where
  "on_datagram env ep dgram send_ok srv =
     (let n = min (length dgram) BUFFER_SIZE;
          srv = srv\<lparr>recvBuffer := overwrite (recvBuffer srv) 0 (take BUFFER_SIZE dgram)\<rparr>
      in bind_res (rd_le16 (recvBuffer srv) 0) (\<lambda>msgType.
           case sessions srv ep of
             None \<Rightarrow>
               if msgType = msg_code RRQ
               then bind_res (deliver env ep n send_ok (Read_Session new_read_session) srv)
                      (\<lambda>(sess, srv). Inr srv)
               else if msgType = msg_code WRQ
               then bind_res (deliver env ep n send_ok (Write_Session new_write_session) srv)
                      (\<lambda>(sess, srv). Inr srv)
               else Inr (snd (server_sendErrorMessage IllegalOperation [] ep send_ok srv))
           | Some sess \<Rightarrow>
               bind_res (deliver env ep n send_ok sess srv) (\<lambda>(sess, srv).
                 if session_state sess = Finished
                 then Inr (srv\<lparr>sessions := (sessions srv)(ep := None)\<rparr>)
                 else Inr srv)))"

text \<open>A failed receive is logged; either way \<open>receive()\<close> is called again.\<close>

datatype tftp_event = Tftp_Error | Tftp_Datagram write_env endpoint bytes bool

fun tftp_step :: "tftp_event \<Rightarrow> tftp_server \<Rightarrow> tftp_server resl" where
  "tftp_step Tftp_Error srv = Inr srv"
| "tftp_step (Tftp_Datagram env ep dgram send_ok) srv = on_datagram env ep dgram send_ok srv"

fun tftp_run :: "tftp_event list \<Rightarrow> tftp_server \<Rightarrow> tftp_server resl" where
  "tftp_run [] srv = Inr srv"
| "tftp_run (e # es) srv = bind_res (tftp_step e srv) (tftp_run es)"

section \<open>Sessions do not disturb each other\<close>

lemma onDataReceived_fits: "holds (\<lambda>(sf', out). fits out) (onDataReceived env buf n ok sess fs)"
proof (cases sess)
  case (Read_Session r)
  show ?thesis unfolding Read_Session onDataReceived.simps
    by (rule holds_bind [OF read_onDataReceived_fits]) (simp add: case_prod_unfold)
next
  case (Write_Session w)
  show ?thesis unfolding Write_Session onDataReceived.simps
    by (rule holds_bind [OF write_onDataReceived_fits]) (simp add: case_prod_unfold)
qed

definition grows :: "endpoint \<Rightarrow> tftp_server \<Rightarrow> tftp_server \<Rightarrow> bool" where
  "grows ep srv srv' \<longleftrightarrow> (\<exists>out. outbox srv' = outbox srv @ map (Pair ep) out \<and> fits out)"

lemma growsI: "fits out \<Longrightarrow>
    outbox srv' = outbox srv @ (if ok then map (Pair ep) out else []) \<Longrightarrow> grows ep srv srv'"
  by (cases ok) (auto simp: grows_def intro: exI [of _ "[]"])

lemma deliver_frame:
  "holds (\<lambda>(sess', srv'). sessions srv' = (sessions srv)(ep \<mapsto> sess')
     \<and> recvBuffer srv' = recvBuffer srv \<and> grows ep srv srv')
   (deliver env ep n ok sess srv)"
  unfolding deliver_def
  by (rule holds_bind [OF onDataReceived_fits]) (auto simp: case_prod_unfold intro!: growsI)

lemma on_datagram_frame:
  "holds (\<lambda>srv'. (\<forall>ep'. ep' \<noteq> ep \<longrightarrow> sessions srv' ep' = sessions srv ep')
     \<and> length (recvBuffer srv') = length (overwrite (recvBuffer srv) 0 (take BUFFER_SIZE d))
     \<and> grows ep srv srv') (on_datagram env ep d ok srv)"
proof -
  let ?srv = "srv\<lparr>recvBuffer := overwrite (recvBuffer srv) 0 (take BUFFER_SIZE d)\<rparr>"
  let ?P = "\<lambda>srv'. (\<forall>ep'. ep' \<noteq> ep \<longrightarrow> sessions srv' ep' = sessions srv ep')
     \<and> length (recvBuffer srv') = length (recvBuffer ?srv) \<and> grows ep srv srv'"
  have del: "holds ?P (bind_res (deliver env ep n ok sess ?srv) (\<lambda>(sess', srv').
      if c sess' then Inr (srv'\<lparr>sessions := (sessions srv')(ep := None)\<rparr>) else Inr srv'))" for n sess c
    by (rule holds_bind [OF deliver_frame]) (auto simp: grows_def)
  have ill: "grows ep srv (?srv\<lparr>outbox := outbox srv @ (if ok then [(ep, error_datagram c t)] else [])\<rparr>)" for c t
    by (rule growsI [where out = "[error_datagram c t]" and ok = ok]) (simp_all del: fits_simps add: fits_simps(2))
  show ?thesis
    unfolding on_datagram_def Let_def
    using del [where c = "\<lambda>_. False"] del [where c = "\<lambda>s. session_state s = Finished"] ill
    by (cases ok; simp split: option.split)
qed

section \<open>Invariant\<close>

text \<open>The buffer keeps its size, and no finished session stays in the table.\<close>

definition tftp_inv :: "tftp_server \<Rightarrow> bool" where
  "tftp_inv srv \<longleftrightarrow> length (recvBuffer srv) = BUFFER_SIZE
     \<and> (\<forall>ep sess. sessions srv ep = Some sess \<longrightarrow> session_state sess \<noteq> Finished)"

lemma tftp_inv_new: "length junk = BUFFER_SIZE \<Longrightarrow> tftp_inv (new_tftp_server junk fs)"
  by (simp add: tftp_inv_def new_tftp_server_def)

lemma new_session_not_finished:
  "holds (\<lambda>(s', out). sstate s' \<noteq> Finished) (read_onDataReceived fs buf new_read_session)"
  "rd_le16 buf 0 = Inr (msg_code WRQ) \<Longrightarrow>
     holds (\<lambda>((s', fs'), out). sstate s' \<noteq> Finished) (write_onDataReceived env buf n ok (new_write_session, fs))"
  by (simp_all add: read_onDataReceived_def write_onDataReceived_def Let_def case_prod_unfold
      sendBlockOfData_state open_in_def open_out_def new_read_session_def new_write_session_def
      split: option.split)

lemma onDataReceived_new:
  assumes "rd_le16 buf 0 = Inr t"
  shows "t = msg_code RRQ \<Longrightarrow> holds (\<lambda>((s', fs'), out). session_state s' \<noteq> Finished)
           (onDataReceived env buf n ok (Read_Session new_read_session) fs)"
    and "t = msg_code WRQ \<Longrightarrow> holds (\<lambda>((s', fs'), out). session_state s' \<noteq> Finished)
           (onDataReceived env buf n ok (Write_Session new_write_session) fs)"
  unfolding onDataReceived.simps
   apply (rule holds_bind [OF new_session_not_finished(1)], simp add: case_prod_unfold)
  apply (rule holds_bind [OF new_session_not_finished(2)])
  using assms by (simp_all add: case_prod_unfold)

lemma deliver_state:
  assumes "holds (\<lambda>((s', fs'), out). Q s') (onDataReceived env (recvBuffer srv) n ok sess (srv_files srv))"
  shows "holds (\<lambda>(sess', srv'). Q sess') (deliver env ep n ok sess srv)"
  unfolding deliver_def by (rule holds_bind [OF assms]) (simp add: case_prod_unfold)

lemma on_datagram_inv:
  assumes "tftp_inv srv"
  shows "holds tftp_inv (on_datagram env ep d ok srv)"
proof -
  let ?buf = "overwrite (recvBuffer srv) 0 (take BUFFER_SIZE d)"
  let ?srv = "srv\<lparr>recvBuffer := ?buf\<rparr>"
  have len: "length ?buf = BUFFER_SIZE" using assms by (simp add: tftp_inv_def)
  have other: "sessions ?srv ep' = Some x \<Longrightarrow> session_state x \<noteq> Finished" for ep' x
    using assms by (simp add: tftp_inv_def)
  have del: "holds tftp_inv (bind_res (deliver env ep n ok sess ?srv) (\<lambda>(sess', srv').
      if session_state sess' = Finished then Inr (srv'\<lparr>sessions := (sessions srv')(ep := None)\<rparr>)
      else Inr srv'))" for n sess
    by (rule holds_bind [OF deliver_frame]) (use other len in \<open>auto simp: tftp_inv_def\<close>)
  have new: "holds tftp_inv (bind_res (deliver env ep n ok sess ?srv) (\<lambda>(sess', srv'). Inr srv'))"
    if "holds (\<lambda>((s', fs'), out). session_state s' \<noteq> Finished)
          (onDataReceived env ?buf n ok sess (srv_files srv))" for n sess
    by (rule holds_bind [OF holds_conj [OF deliver_frame deliver_state]])
      (use that other len in \<open>auto simp: tftp_inv_def\<close>)
  have ill: "tftp_inv (?srv\<lparr>outbox := out\<rparr>)" for out
    using assms len by (simp add: tftp_inv_def)
  show ?thesis
    unfolding on_datagram_def Let_def
  proof (rule holds_bind [of "\<lambda>t. rd_le16 ?buf 0 = Inr t"], goal_cases)
    case 1
    show ?case by (simp add: holds_def)
  next
    case (2 t)
    then have t: "rd_le16 ?buf 0 = Inr t" by simp
    show ?case
    proof (cases "sessions srv ep")
      case None
      then show ?thesis
        using new [OF onDataReceived_new(1) [OF t]] new [OF onDataReceived_new(2) [OF t]] ill
        by (simp del: msg_code.simps holds_simps(3) if_split_asm)
    next
      case (Some sess)
      then show ?thesis using del by (simp del: holds_simps(3))
    qed
  qed
qed

section \<open>Files are only written by the session that created them\<close>

definition unopened :: "string \<Rightarrow> tftp_server \<Rightarrow> bool" where
  "unopened f srv \<longleftrightarrow> (\<forall>ep w. sessions srv ep = Some (Write_Session w) \<longrightarrow> out_open w \<noteq> Some f)"

definition file_kept :: "string \<Rightarrow> bytes \<Rightarrow> session \<times> files \<Rightarrow> bool" where
  "file_kept f d sf \<longleftrightarrow> snd sf f = Some d \<and> (\<forall>w. fst sf = Write_Session w \<longrightarrow> out_open w \<noteq> Some f)"

lemma write_onDataReceived_keeps:
  assumes "fs f = Some d" "out_open w \<noteq> Some f"
  shows "holds (\<lambda>((w', fs'), out). fs' f = Some d \<and> out_open w' \<noteq> Some f) (write_onDataReceived env buf n ok (w, fs))"
  using assms
  by (auto simp: write_onDataReceived_def Let_def open_out_def put_out_def incrementBlockCounter_def
      split: option.split)

lemma onDataReceived_keeps:
  assumes "file_kept f d (sess, fs)"
  shows "holds (\<lambda>(sf', out). file_kept f d sf') (onDataReceived env buf n ok sess fs)"
proof (cases sess)
  case (Write_Session w)
  have "fs f = Some d" "out_open w \<noteq> Some f" using assms Write_Session by (auto simp: file_kept_def)
  from write_onDataReceived_keeps [where fs = fs and f = f and w = w, OF this, of env buf n ok] show ?thesis
    unfolding Write_Session onDataReceived.simps
    by (rule holds_bind) (auto simp: file_kept_def)
qed (use assms in \<open>auto simp: file_kept_def\<close>)

lemma deliver_keeps:
  assumes "srv_files srv f = Some d" "unopened f srv" "file_kept f d (sess, srv_files srv)"
  shows "holds (\<lambda>(sess', srv'). srv_files srv' f = Some d \<and> unopened f srv') (deliver env ep n ok sess srv)"
  unfolding deliver_def
  by (rule holds_bind [OF onDataReceived_keeps [OF assms(3)]])
    (use assms(2) in \<open>auto simp: file_kept_def unopened_def\<close>)

lemma on_datagram_keeps:
  assumes "srv_files srv f = Some d" "unopened f srv"
  shows "holds (\<lambda>srv'. srv_files srv' f = Some d \<and> unopened f srv') (on_datagram env ep dg ok srv)"
proof -
  let ?srv = "srv\<lparr>recvBuffer := overwrite (recvBuffer srv) 0 (take BUFFER_SIZE dg)\<rparr>"
  have s: "srv_files ?srv f = Some d" "unopened f ?srv" using assms by (simp_all add: unopened_def)
  have del: "holds (\<lambda>srv'. srv_files srv' f = Some d \<and> unopened f srv')
      (bind_res (deliver env ep n ok sess ?srv) (\<lambda>(sess', srv').
        if c sess' then Inr (srv'\<lparr>sessions := (sessions srv')(ep := None)\<rparr>) else Inr srv'))"
    if "file_kept f d (sess, srv_files ?srv)" for n sess c
    by (rule holds_bind [OF deliver_keeps [OF s that]]) (auto simp: unopened_def)
  have new: "file_kept f d (Read_Session r, srv_files ?srv)"
      "file_kept f d (Write_Session new_write_session, srv_files ?srv)" for r
    using assms(1) by (simp_all add: file_kept_def new_write_session_def)
  have old: "file_kept f d (sess, srv_files ?srv)" if "sessions srv ep = Some sess" for sess
    using that assms by (auto simp: file_kept_def unopened_def)
  show ?thesis
    unfolding on_datagram_def Let_def
    using del [OF new(1), where c = "\<lambda>_. False"] del [OF new(2), where c = "\<lambda>_. False"]
      del [OF old, where c = "\<lambda>s. session_state s = Finished"] s
    by (auto simp: unopened_def split: option.split)
qed

interpretation tftp: fault_machine tftp_step tftp_run
  by unfold_locales (auto simp: bind_res_eq_Inr)

lemma tftp_run_keeps:
  "srv_files srv f = Some d \<Longrightarrow> unopened f srv \<Longrightarrow>
    holds (\<lambda>srv'. srv_files srv' f = Some d \<and> unopened f srv') (tftp_run es srv)"
proof (rule tftp.frun_holds)
  fix e srv
  assume "srv_files srv f = Some d \<and> unopened f srv"
  then show "holds (\<lambda>srv'. srv_files srv' f = Some d \<and> unopened f srv') (tftp_step e srv)"
    using on_datagram_keeps by (cases e) auto
qed simp

lemma tftp_run_inv: "tftp_inv srv \<Longrightarrow> holds tftp_inv (tftp_run es srv)"
proof (rule tftp.frun_holds)
  fix e srv
  assume "tftp_inv srv"
  then show "holds tftp_inv (tftp_step e srv)" using on_datagram_inv by (cases e) auto
qed

end
