(* ===== verification/TFTP_Client.thy ===== *)
theory TFTP_Client
  imports TFTP_Common
begin

text \<open>
  \<open>tftp/tftp-client.cpp: TFTPClient\<close>. \<open>getFile\<close> and \<open>putFile\<close> are loops around a blocking
  receive; one turn of each loop is a step function of what arrived (\<open>None\<close> for a receive
  error) and of whether the datagram the turn sends goes out. A loop over a list of arrivals
  that runs out of them is blocked in \<open>recv\<close>. The build decides whether \<open>assert\<close> is compiled:
  \<open>_sendBytesCount\<close> is only ever assigned inside one. \<open>outFailed\<close> is the error state of \<open>getFile\<close>'s output stream;
  \<open>can_remove\<close> is the answer of the file system to \<open>fs::remove\<close>.
\<close>

section \<open>State\<close>

record tftp_client =
  cl_mode :: TransferMode
  ndebug :: bool
  sendBuffer :: bytes
  recvBuf :: bytes
  sendBytesCount :: nat
  recvBytesCount :: nat
  cl_sent :: "bytes list"
  cl_files :: files
  outFailed :: bool
  can_remove :: "string \<Rightarrow> bool"

definition new_client :: "bool \<Rightarrow> TransferMode \<Rightarrow> bytes \<Rightarrow> bytes \<Rightarrow> (string \<Rightarrow> bool) \<Rightarrow> files \<Rightarrow> tftp_client" where
  "new_client nd m junk1 junk2 rm fs = \<lparr>cl_mode = m, ndebug = nd, sendBuffer = junk1, recvBuf = junk2,
     sendBytesCount = 0, recvBytesCount = 0, cl_sent = [], cl_files = fs,
     outFailed = False, can_remove = rm\<rparr>"

section \<open>Sending and receiving\<close>

text \<open>
  A message put at the front of the send buffer, the statement
  \<open>assert((_sendBytesCount = bytesCount) <= BUFFER_SIZE)\<close>, and \<open>send()\<close>.
\<close>

definition client_send :: "bytes \<Rightarrow> bool \<Rightarrow> tftp_client \<Rightarrow> tftp_client resl" where
  "client_send msg ok c =
     (if length msg > BUFFER_SIZE then Inl Out_Of_Bounds
      else let c = c\<lparr>sendBuffer := overwrite (sendBuffer c) 0 msg\<rparr>;
               c = (if ndebug c then c else c\<lparr>sendBytesCount := length msg\<rparr>)
           in Inr (if ok then c\<lparr>cl_sent := cl_sent c @ [take (sendBytesCount c) (sendBuffer c)]\<rparr> else c))"

definition client_recv :: "bytes option \<Rightarrow> tftp_client \<Rightarrow> bool \<times> tftp_client" where
  "client_recv arrival c =
     (case arrival of
        None \<Rightarrow> (False, c\<lparr>recvBytesCount := 0\<rparr>)
      | Some d \<Rightarrow> (True, c\<lparr>recvBuf := overwrite (recvBuf c) 0 (take BUFFER_SIZE d),
                           recvBytesCount := min (length d) BUFFER_SIZE\<rparr>))"

text \<open>The text of an error message; an unknown code is an assertion failure.\<close>

definition error_text :: "u16 \<Rightarrow> string option" where
  "error_text code =
     (if code = error_code EC_NoError then Some '' No Error''
      else if code = error_code FileNotFound then Some '' File not found''
      else if code = error_code AccessViolation then Some '' Access violation''
      else if code = error_code DiskFull then Some '' Disk full or allocation exceeded''
      else if code = error_code IllegalOperation then Some '' Illegal TFTP operation''
      else if code = error_code UnknownTransferId then Some '' Unknown transfer ID''
      else if code = error_code FileAlreadyExists then Some '' File already exists''
      else if code = error_code NoSuchUser then Some '' No such user''
      else if code = error_code TerminateTransfer then Some '' Terminate transfer due to option negotiation''
      else None)"

definition writeErrorMessage :: "tftp_client \<Rightarrow> string resl" where
  "writeErrorMessage c =
     bind_res (rd_le16 (recvBuf c) 2) (\<lambda>errCode.
       let msgText = of_bytes (takeWhile (\<lambda>b. b \<noteq> 0) (drop 4 (recvBuf c)));
           details = (if msgText \<noteq> [] then '' details: '' @ msgText else []);
           num = '' ('' @ dec_of_nat (unat errCode) @ '') ''
       in case error_text errCode of
            Some t \<Rightarrow> Inr (''Error message was sent by server:'' @ t @ num @ details @ [CHR 0x0A])
          | None \<Rightarrow> if ndebug c
                    then Inr (''Error message was sent by server:'' @ num @ details @ [CHR 0x0A])
                    else Inl Assert_Failed)"

section \<open>getFile\<close>

datatype turn = Continue u16 | Return bool

definition append_file :: "string \<Rightarrow> bytes \<Rightarrow> files \<Rightarrow> files" where
  "append_file f d fs = (case fs f of None \<Rightarrow> fs | Some old \<Rightarrow> fs(f \<mapsto> old @ d))"

definition removeOutFile :: "string \<Rightarrow> tftp_client \<Rightarrow> tftp_client" where
  "removeOutFile dst c = (if can_remove c dst then c\<lparr>cl_files := (cl_files c)(dst := None)\<rparr> else c)"

text \<open>
  The block of a DATA datagram goes into the output stream; the result says whether it was the last.
  \<open>blockSize\<close> is a wrapping subtraction. For a datagram shorter than the header the assertion fails; without
  assertions the copy of a netascii transfer leaves the buffer, and \<open>ofstream::write\<close> gets the size as a negative
  \<open>streamsize\<close>, takes nothing and leaves the stream failed, and the size is not below 512.
\<close>

definition store_block :: "string \<Rightarrow> tftp_client \<Rightarrow> (bool \<times> tftp_client) resl" where
  "store_block dst c =
     (if recvBytesCount c < 4 then
        (if \<not> ndebug c then Inl Assert_Failed
         else if cl_mode c = ASCII then Inl Out_Of_Bounds
         else Inr (False, c\<lparr>outFailed := True\<rparr>))
      else bind_res (rd_range (recvBuf c) 4 (recvBytesCount c - 4)) (\<lambda>block.
        Inr (length block < 512,
             if outFailed c then c
             else c\<lparr>cl_files := append_file dst (stored_bytes (cl_mode c) block) (cl_files c)\<rparr>)))"

text \<open>One turn of the receive loop.\<close>

definition get_turn :: "u16 \<Rightarrow> string \<Rightarrow> bytes option \<Rightarrow> bool \<Rightarrow> tftp_client \<Rightarrow> (turn \<times> tftp_client) resl" where
  "get_turn expected dst arrival send_ok c =
     (let (got, c) = client_recv arrival c in
      if \<not> got then Inr (Return False, c)
      else bind_res (rd_le16 (recvBuf c) 0) (\<lambda>msgType.
        if msgType = msg_code ERROR
        then bind_res (writeErrorMessage c) (\<lambda>_. Inr (Return False, removeOutFile dst c))
        else (let expected = expected + 1 in
          if msgType = msg_code DATA then
            bind_res (rd_le16 (recvBuf c) 2) (\<lambda>blockNum.
              if blockNum \<noteq> expected then Inr (Return False, removeOutFile dst c)
              else bind_res (store_block dst c) (\<lambda>(last_block, c).
                bind_res (client_send (ack_datagram blockNum) send_ok c) (\<lambda>c.
                  if \<not> send_ok then Inr (Return False, removeOutFile dst c)
                  else if last_block then Inr (Return True, c)
                  else Inr (Continue expected, c))))
          else Inr (Continue expected, c))))"

fun get_loop :: "u16 \<Rightarrow> string \<Rightarrow> (bytes option \<times> bool) list \<Rightarrow> tftp_client \<Rightarrow> (bool option \<times> tftp_client) resl"
where
  "get_loop expected dst [] c = Inr (None, c)"
| "get_loop expected dst ((arrival, ok) # evs) c =
     bind_res (get_turn expected dst arrival ok c) (\<lambda>(t, c).
       case t of Return b \<Rightarrow> Inr (Some b, c) | Continue e \<Rightarrow> get_loop e dst evs c)"

text \<open>Opening the output file, the request, and whether the loop is entered.\<close>

definition get_request :: "bool \<Rightarrow> bool \<Rightarrow> string \<Rightarrow> string \<Rightarrow> tftp_client \<Rightarrow> (bool \<times> tftp_client) resl" where
  "get_request can_open send_ok src dst c =
     (if \<not> can_open then Inr (False, c)
      else let c = c\<lparr>cl_files := (cl_files c)(dst \<mapsto> []), outFailed := False\<rparr>
           in bind_res (client_send (request_datagram RRQ src (cl_mode c)) send_ok c) (\<lambda>c. Inr (send_ok, c)))"

definition getFile :: "bool \<Rightarrow> bool \<Rightarrow> string \<Rightarrow> string \<Rightarrow> (bytes option \<times> bool) list \<Rightarrow> tftp_client
    \<Rightarrow> (bool option \<times> tftp_client) resl" where
  "getFile can_open send_ok src dst evs c =
     bind_res (get_request can_open send_ok src dst c) (\<lambda>(go, c).
       if go then get_loop 0 dst evs c else Inr (Some False, c))"

section \<open>putFile\<close>

text \<open>The loop's variables: \<open>currBlockNumber\<close>, \<open>complete\<close>, \<open>lineFeed\<close> and the input stream.\<close>

record put_state =
  currBlock :: u16
  complete :: bool
  put_lf :: bool
  put_rest :: bytes

datatype put_turn_result = Put_Continue | Put_Return bool

definition put_turn :: "bytes option \<Rightarrow> bool \<Rightarrow> put_state \<times> tftp_client
    \<Rightarrow> (put_turn_result \<times> put_state \<times> tftp_client) resl" where
  "put_turn arrival send_ok pc =
     (let (p, c) = pc; (got, c) = client_recv arrival c in
      if \<not> got then Inr (Put_Return False, p, c)
      else bind_res (rd_le16 (recvBuf c) 0) (\<lambda>msgType.
        if msgType = msg_code ERROR
        then bind_res (writeErrorMessage c) (\<lambda>_. Inr (Put_Return False, p, c))
        else if msgType = msg_code ACK then
          bind_res (rd_le16 (recvBuf c) 2) (\<lambda>blockNum.
            if blockNum \<noteq> currBlock p then Inr (Put_Return False, p, c)
            else if complete p then Inr (Put_Return True, p, c)
            else (case read_block (cl_mode c) (put_lf p, put_rest p) of (payload, lf, rest) \<Rightarrow>
              let p = p\<lparr>currBlock := currBlock p + 1, put_lf := lf, put_rest := rest,
                        complete := (length payload < 512)\<rparr>
              in bind_res (client_send (data_datagram (currBlock p) payload) send_ok c) (\<lambda>c.
                   if send_ok then Inr (Put_Continue, p, c) else Inr (Put_Return False, p, c))))
        else Inr (Put_Continue, p, c)))"

fun put_loop :: "(bytes option \<times> bool) list \<Rightarrow> put_state \<times> tftp_client \<Rightarrow> (bool option \<times> put_state \<times> tftp_client) resl"
where
  "put_loop [] (p, c) = Inr (None, p, c)"
| "put_loop ((arrival, ok) # evs) (p, c) =
     bind_res (put_turn arrival ok (p, c)) (\<lambda>(t, p, c).
       case t of Put_Return b \<Rightarrow> Inr (Some b, p, c) | Put_Continue \<Rightarrow> put_loop evs (p, c))"

definition put_request :: "bool \<Rightarrow> string \<Rightarrow> string \<Rightarrow> tftp_client \<Rightarrow> ((put_state option) \<times> tftp_client) resl" where
  "put_request send_ok src dst c =
     (case cl_files c src of
        None \<Rightarrow> Inr (None, c)
      | Some d \<Rightarrow>
          bind_res (client_send (request_datagram WRQ dst (cl_mode c)) send_ok c) (\<lambda>c.
            Inr (if send_ok
                 then Some \<lparr>currBlock = 0, complete = False, put_lf = False, put_rest = d\<rparr> else None, c)))"

definition putFile :: "bool \<Rightarrow> string \<Rightarrow> string \<Rightarrow> (bytes option \<times> bool) list \<Rightarrow> tftp_client
    \<Rightarrow> (bool option \<times> tftp_client) resl" where
  "putFile send_ok src dst evs c =
     bind_res (put_request send_ok src dst c) (\<lambda>(go, c).
       case go of None \<Rightarrow> Inr (Some False, c)
       | Some p \<Rightarrow> bind_res (put_loop evs (p, c)) (\<lambda>(r, p, c). Inr (r, c)))"

section \<open>The command line\<close>

datatype command_result = Usage | Get_Done bool | Put_Done bool | Unknown_Command string

text \<open>How \<open>main\<close> reads its arguments: (binary, host, command, source, destination).\<close>

definition parse_args :: "string list \<Rightarrow> (bool \<times> string \<times> string \<times> string \<times> string) resl option" where
  "parse_args argv =
     (if length argv < 5 then None
      else if length argv = 5
      then Some (bind_res (uppercase (argv ! 2)) (\<lambda>command.
             Inr (False, argv ! 1, command, argv ! 3, argv ! 4)))
      else Some (bind_res (uppercase (argv ! 3)) (\<lambda>command.
             bind_res (rd argv 5) (\<lambda>dst.
             Inr (length argv = 6 \<and> argv ! 1 = ''-i'', argv ! 2, command, argv ! 4, dst)))))"

section \<open>Sending in a debug build\<close>

definition client_ok :: "tftp_client \<Rightarrow> bool" where
  "client_ok c \<longleftrightarrow> length (sendBuffer c) = BUFFER_SIZE \<and> length (recvBuf c) = BUFFER_SIZE"

lemma client_send_debug:
  assumes "client_ok c" "\<not> ndebug c" "length msg \<le> BUFFER_SIZE"
  shows "client_send msg True c = Inr (c\<lparr>sendBuffer := overwrite (sendBuffer c) 0 msg,
           sendBytesCount := length msg, cl_sent := cl_sent c @ [msg]\<rparr>)"
  using assms by (simp add: client_send_def)

lemma client_send_ndebug:
  assumes "ndebug c" "sendBytesCount c = 0" "length msg \<le> BUFFER_SIZE"
  shows "client_send msg True c = Inr (c\<lparr>sendBuffer := overwrite (sendBuffer c) 0 msg,
           cl_sent := cl_sent c @ [[]]\<rparr>)"
  using assms by (simp add: client_send_def)

lemma client_recv_some:
  assumes "client_ok c" "length d \<le> BUFFER_SIZE"
  shows "client_recv (Some d) c = (True, c\<lparr>recvBuf := d @ drop (length d) (recvBuf c),
           recvBytesCount := length d\<rparr>)"
  using assms by (simp add: client_recv_def overwrite_0_append)

text \<open>A turn on the expected block: it is stored and acknowledged.\<close>

lemma get_turn_data:
  assumes "client_ok c" "\<not> ndebug c" "length payload \<le> 512" "cl_files c dst = Some w" "\<not> outFailed c"
  shows "\<exists>c'. get_turn e dst (Some (data_datagram (e + 1) payload)) True c
      = Inr (if length payload < 512 then Return True else Continue (e + 1), c')
    \<and> client_ok c' \<and> \<not> ndebug c' \<and> \<not> outFailed c' \<and> cl_mode c' = cl_mode c
    \<and> cl_files c' = (cl_files c)(dst \<mapsto> w @ stored_bytes (cl_mode c) payload)
    \<and> cl_sent c' = cl_sent c @ [ack_datagram (e + 1)]"
proof -
  let ?d = "data_datagram (e + 1) payload"
  let ?buf = "?d @ drop (length ?d) (recvBuf c)"
  have r: "rd_range ?buf 4 (length payload) = Inr payload"
    by (simp add: rd_range_def data_datagram_def le16_def)
  show ?thesis
    using assms r
    by (auto simp: get_turn_def store_block_def client_recv_some BUFFER_SIZE_def Let_def client_send_debug client_ok_def
        append_file_def simp del: rd_le16_ok)
qed

lemma put_turn_ack:
  assumes "client_ok c" "\<not> ndebug c" "currBlock p = k" "\<not> complete p"
    and "pending_bytes (cl_mode c) (put_lf p, put_rest p) = q"
  shows "\<exists>p' c'. put_turn (Some (ack_datagram k)) True (p, c) = Inr (Put_Continue, p', c')
    \<and> client_ok c' \<and> \<not> ndebug c' \<and> cl_mode c' = cl_mode c \<and> cl_files c' = cl_files c
    \<and> currBlock p' = k + 1 \<and> complete p' = (length q < 512)
    \<and> pending_bytes (cl_mode c) (put_lf p', put_rest p') = drop 512 q
    \<and> cl_sent c' = cl_sent c @ [data_datagram (k + 1) (take 512 q)]"
proof -
  obtain b lf r where rb: "read_block (cl_mode c) (put_lf p, put_rest p) = (b, lf, r)"
    by (metis prod_cases3)
  have b: "b = take 512 q" and r: "pending_bytes (cl_mode c) (lf, r) = drop 512 q"
    using read_block_pending [of "cl_mode c" "(put_lf p, put_rest p)"] rb assms(5) by simp_all
  show ?thesis
    using assms rb r unfolding put_turn_def
    by (auto simp: client_recv_some BUFFER_SIZE_def Let_def client_send_debug client_ok_def b
        simp del: rd_le16_ok)
qed

lemma put_turn_done:
  assumes "client_ok c" "currBlock p = k" "complete p"
  shows "\<exists>c'. put_turn (Some (ack_datagram k)) ok (p, c) = Inr (Put_Return True, p, c')
    \<and> cl_files c' = cl_files c \<and> cl_sent c' = cl_sent c"
  using assms
  by (auto simp: put_turn_def client_recv_some BUFFER_SIZE_def Let_def simp del: rd_le16_ok)

section \<open>Sending in a build without assertions\<close>

text \<open>\<open>mute c\<close>: nothing but empty datagrams has left a client built with \<open>NDEBUG\<close>.\<close>

definition mute :: "tftp_client \<Rightarrow> bool" where
  "mute c \<longleftrightarrow> ndebug c \<and> sendBytesCount c = 0 \<and> set (cl_sent c) \<subseteq> {[]}"

lemma mute_fields [simp]:
  "mute (c\<lparr>cl_files := fs\<rparr>) = mute c" "mute (c\<lparr>outFailed := b'\<rparr>) = mute c" "mute (c\<lparr>recvBuf := b, recvBytesCount := n\<rparr>) = mute c"
  "mute (c\<lparr>recvBytesCount := n\<rparr>) = mute c" "mute (removeOutFile dst c) = mute c"
  by (simp_all add: mute_def removeOutFile_def)

lemma mute_send: "mute c \<Longrightarrow> holds mute (client_send msg ok c)"
  by (simp add: client_send_def mute_def Let_def)

lemma mute_recv: "mute c \<Longrightarrow> mute (snd (client_recv a c))"
  by (simp add: client_recv_def mute_def split: option.split)

lemma get_turn_mute:
  assumes "mute c"
  shows "holds (\<lambda>(t, c'). mute c') (get_turn e dst a ok c)"
proof -
  obtain got c1 where r: "client_recv a c = (got, c1)" by (cases "client_recv a c")
  with mute_recv [OF assms, of a] have c1: "mute c1" by simp
  have b: "mute c2" if "store_block dst c1 = Inr (l, c2)" for l c2
    using that c1 by (auto simp: store_block_def bind_res_eq_Inr split: if_splits)
  have s: "client_send msg ok c2 = Inr c3 \<Longrightarrow> mute c2 \<Longrightarrow> mute c3" for msg c2 c3
    using mute_send [of c2 msg ok] by simp
  show ?thesis
    unfolding get_turn_def r Let_def prod.case
    using c1 s b by (auto simp del: rd_le16_ok)
qed

lemma put_turn_mute:
  assumes "mute c"
  shows "holds (\<lambda>(t, p', c'). mute c') (put_turn a ok (p, c))"
proof -
  obtain got c1 where r: "client_recv a c = (got, c1)" by (cases "client_recv a c")
  with mute_recv [OF assms, of a] have c1: "mute c1" by simp
  have s: "client_send msg ok c1 = Inr c2 \<Longrightarrow> mute c2" for msg c2
    using mute_send [of c1 msg ok] c1 by simp
  obtain pl lf rest where b: "read_block (cl_mode c1) (put_lf p, put_rest p) = (pl, lf, rest)"
    by (metis prod_cases3)
  show ?thesis
    unfolding put_turn_def Let_def prod.case r b
    using c1 s by (auto simp del: rd_le16_ok)
qed

lemma get_loop_mute: "mute c \<Longrightarrow> holds (\<lambda>(r, c'). mute c') (get_loop e dst evs c)"
proof (induction e dst evs c rule: get_loop.induct)
  case (2 e dst a ok evs c)
  show ?case unfolding get_loop.simps
  proof (rule holds_bind [of "\<lambda>(t, c'). get_turn e dst a ok c = Inr (t, c') \<and> mute c'"])
    show "holds (\<lambda>(t, c'). get_turn e dst a ok c = Inr (t, c') \<and> mute c') (get_turn e dst a ok c)"
      using get_turn_mute [OF "2.prems", of e dst a ok] by (auto simp: holds_def)
  qed (use "2.IH" in \<open>auto split: turn.split\<close>)
qed simp

lemma put_loop_mute: "mute (snd pc) \<Longrightarrow> holds (\<lambda>(r, p', c'). mute c') (put_loop evs pc)"
proof (induction evs pc rule: put_loop.induct)
  case (2 a ok evs p c)
  show ?case unfolding put_loop.simps
  proof (rule holds_bind [of "\<lambda>(t, p', c'). put_turn a ok (p, c) = Inr (t, p', c') \<and> mute c'"])
    show "holds (\<lambda>(t, p', c'). put_turn a ok (p, c) = Inr (t, p', c') \<and> mute c') (put_turn a ok (p, c))"
      using put_turn_mute [of c a ok p] "2.prems" by (auto simp: holds_def)
  qed (use "2.IH" in \<open>auto split: put_turn_result.split\<close>)
qed simp

lemma getFile_mute:
  assumes "mute c"
  shows "holds (\<lambda>(r, c'). mute c') (getFile can_open ok src dst evs c)"
  unfolding getFile_def get_request_def Let_def
  using assms mute_send [of "c\<lparr>cl_files := (cl_files c)(dst \<mapsto> []), outFailed := False\<rparr>"] get_loop_mute
  by (fastforce simp: holds_def bind_res_eq_Inr split: if_splits)

lemma putFile_mute:
  assumes "mute c"
  shows "holds (\<lambda>(r, c'). mute c') (putFile ok src dst evs c)"
  unfolding putFile_def put_request_def
  using assms mute_send [of c] put_loop_mute
  by (fastforce simp: holds_def bind_res_eq_Inr split: if_splits option.splits)

end
