(* ===== verification/TFTP_Transfer.thy ===== *)
theory TFTP_Transfer
  imports TFTP_Server TFTP_Client
begin

text \<open>
  The client's loops against the server's handler over a network that delivers every datagram
  once and in order: a download (\<open>getFile\<close> with \<open>TFTPSessionRead\<close>) and an upload (\<open>putFile\<close>
  with \<open>TFTPSessionWrite\<close>). The server is the whole session table, other peers included.
\<close>

section \<open>Requests as the server reads them\<close>

definition plain_name :: "string \<Rightarrow> bool" where
  "plain_name f \<longleftrightarrow> f \<noteq> [] \<and> length f \<le> MAX_FILENAME_LENGTH \<and> CHR 0x00 \<notin> set f"

lemma parse_mode_name [simp]: "parse_mode (mode_name m) = Some m"
  by (cases m) (simp_all add: parse_mode_def mode_name_def)

lemma request_parts:
  assumes "plain_name f"
  shows "rd_le16 (request_datagram t f m @ post) 0 = Inr (msg_code t)"
    and "c_string (request_datagram t f m @ post) 2 = Inr f"
    and "c_string (request_datagram t f m @ post) (2 + length f + 1) = Inr (mode_name m)"
proof -
  have f: "take (min (length f) MAX_FILENAME_LENGTH) f = f"
    using assms by (simp add: plain_name_def)
  have m: "CHR 0x00 \<notin> set (mode_name m)" by (cases m) (simp_all add: mode_name_def)
  show "rd_le16 (request_datagram t f m @ post) 0 = Inr (msg_code t)"
    by (simp only: request_datagram_def append_assoc rd_le16_0)
  show "c_string (request_datagram t f m @ post) 2 = Inr f"
    using c_string_at [of f "le16 (msg_code t)"] assms
    by (simp add: request_datagram_def f plain_name_def)
  show "c_string (request_datagram t f m @ post) (2 + length f + 1) = Inr (mode_name m)"
    using c_string_at [OF m, of "le16 (msg_code t) @ to_bytes f @ [0]" post]
    by (simp add: request_datagram_def f)
qed

section \<open>The reading session, request by request\<close>

lemma read_session_request:
  assumes "plain_name f" "fs f = Some d"
  shows "\<exists>r. read_onDataReceived fs (request_datagram RRQ f m @ post) new_read_session
      = Inr (r, [data_datagram 1 (take 512 (pending_bytes m (False, d)))])
    \<and> sstate r = Active \<and> \<not> in_bad r \<and> transferMode r = m \<and> blockCounter r = 1
    \<and> to_send r = drop 512 (pending_bytes m (False, d))
    \<and> readComplete r = (length (pending_bytes m (False, d)) < 512)"
proof -
  let ?s = "open_in (fs f) (new_read_session\<lparr>sstate := Active, transferMode := m\<rparr>)"
  have s: "\<not> in_bad ?s" "sstate ?s = Active" "transferMode ?s = m" "blockCounter ?s = 0"
    "\<not> readComplete ?s" "to_send ?s = pending_bytes m (False, d)"
    using assms(2) by (simp_all add: open_in_def new_read_session_def to_send_def readable_def)
  have "read_onDataReceived fs (request_datagram RRQ f m @ post) new_read_session
        = Inr (sendBlockOfData ?s)"
    using request_parts [OF assms(1), of RRQ m post] assms(1) s(1)
    by (simp add: read_onDataReceived_def Let_def plain_name_def del: rd_le16_ok)
  moreover have "sendBlockOfData ?s = (fst (sendBlockOfData ?s), snd (sendBlockOfData ?s))" by simp
  ultimately show ?thesis using s
    by (metis add_0 sendBlockOfData_block sendBlockOfData_state)
qed

lemma read_session_ack:
  assumes "blockCounter r = k"
  shows "readComplete r \<Longrightarrow> \<exists>r'. read_onDataReceived fs (ack_datagram k @ post) r = Inr (r', [])
      \<and> sstate r' = Finished"
    and "\<not> readComplete r \<Longrightarrow> \<exists>r'. read_onDataReceived fs (ack_datagram k @ post) r
      = Inr (r', [data_datagram (k + 1) (take 512 (to_send r))])
      \<and> sstate r' = sstate r \<and> in_bad r' = in_bad r \<and> transferMode r' = transferMode r
      \<and> blockCounter r' = k + 1 \<and> to_send r' = drop 512 (to_send r)
      \<and> readComplete r' = (length (to_send r) < 512)"
proof -
  have eq: "read_onDataReceived fs (ack_datagram k @ post) r =
     (if readComplete r then Inr (r\<lparr>in_open := False, sstate := Finished\<rparr>, []) else Inr (sendBlockOfData r))"
    using assms by (simp add: read_onDataReceived_def del: rd_le16_ok)
  show "readComplete r \<Longrightarrow> \<exists>r'. read_onDataReceived fs (ack_datagram k @ post) r = Inr (r', [])
      \<and> sstate r' = Finished"
    using eq by simp
  show "\<exists>r'. read_onDataReceived fs (ack_datagram k @ post) r
      = Inr (r', [data_datagram (k + 1) (take 512 (to_send r))])
      \<and> sstate r' = sstate r \<and> in_bad r' = in_bad r \<and> transferMode r' = transferMode r
      \<and> blockCounter r' = k + 1 \<and> to_send r' = drop 512 (to_send r)
      \<and> readComplete r' = (length (to_send r) < 512)" if "\<not> readComplete r"
  proof (intro exI conjI)
    show "read_onDataReceived fs (ack_datagram k @ post) r
      = Inr (fst (sendBlockOfData r), [data_datagram (k + 1) (take 512 (to_send r))])"
      using eq that assms by (metis prod.collapse sendBlockOfData_block(1))
  qed (use that assms in \<open>simp_all add: sendBlockOfData_block sendBlockOfData_state\<close>)
qed

section \<open>The server around it\<close>

text \<open>The peer's session after a datagram, and what the server then sends.\<close>

lemma on_datagram_existing:
  assumes "length (recvBuffer srv) = BUFFER_SIZE" "length d \<le> BUFFER_SIZE" "sessions srv ep = Some sess"
    and "2 \<le> length d"
    and "onDataReceived env (d @ drop (length d) (recvBuffer srv)) (length d) True sess (srv_files srv)
         = Inr ((sess', fs'), out)"
  shows "\<exists>srv'. on_datagram env ep d True srv = Inr srv'
    \<and> length (recvBuffer srv') = BUFFER_SIZE \<and> srv_files srv' = fs'
    \<and> sessions srv' = (sessions srv)(ep := if session_state sess' = Finished then None else Some sess')
    \<and> outbox srv' = outbox srv @ map (Pair ep) out"
  using assms
  by (simp add: on_datagram_def deliver_def Let_def overwrite_0_append)

lemma on_datagram_new:
  assumes "length (recvBuffer srv) = BUFFER_SIZE" "length d \<le> BUFFER_SIZE" "sessions srv ep = None"
    and "2 \<le> length d"
    and "rd_le16 (d @ drop (length d) (recvBuffer srv)) 0 = Inr (msg_code t)"
    and "t = RRQ \<and> sess = Read_Session new_read_session \<or> t = WRQ \<and> sess = Write_Session new_write_session"
    and "onDataReceived env (d @ drop (length d) (recvBuffer srv)) (length d) True sess (srv_files srv)
         = Inr ((sess', fs'), out)"
  shows "\<exists>srv'. on_datagram env ep d True srv = Inr srv'
    \<and> length (recvBuffer srv') = BUFFER_SIZE \<and> srv_files srv' = fs'
    \<and> sessions srv' = (sessions srv)(ep \<mapsto> sess')
    \<and> outbox srv' = outbox srv @ map (Pair ep) out"
  using assms
  by (auto simp add: on_datagram_def deliver_def Let_def overwrite_0_append simp del: rd_le16_ok)

section \<open>A download\<close>

text \<open>
  \<open>download k e dst d c srv\<close>: the client takes the server's datagram \<open>d\<close>, the server takes the
  acknowledgement, and so on for at most \<open>k\<close> turns. \<open>None\<close>: still running, or blocked.
\<close>

fun download :: "write_env \<Rightarrow> endpoint \<Rightarrow> nat \<Rightarrow> u16 \<Rightarrow> string \<Rightarrow> bytes \<Rightarrow> tftp_client \<Rightarrow> tftp_server
    \<Rightarrow> (bool option \<times> tftp_client \<times> tftp_server) resl" where
  "download env ep 0 e dst d c srv = Inr (None, c, srv)"
| "download env ep (Suc k) e dst d c srv =
     bind_res (get_turn e dst (Some d) True c) (\<lambda>(t, c').
       if cl_sent c' = cl_sent c then Inr (case t of Return b \<Rightarrow> Some b | Continue _ \<Rightarrow> None, c', srv)
       else bind_res (on_datagram env ep (last (cl_sent c')) True srv) (\<lambda>srv'.
         case t of
           Return b \<Rightarrow> Inr (Some b, c', srv')
         | Continue e' \<Rightarrow>
             (case drop (length (outbox srv)) (outbox srv') of
                [] \<Rightarrow> Inr (None, c', srv')
              | (_, d') # _ \<Rightarrow> download env ep k e' dst d' c' srv')))"

definition download_file :: "write_env \<Rightarrow> endpoint \<Rightarrow> nat \<Rightarrow> string \<Rightarrow> string \<Rightarrow> tftp_client \<Rightarrow> tftp_server
    \<Rightarrow> (bool option \<times> tftp_client \<times> tftp_server) resl" where
  "download_file env ep k src dst c srv =
     bind_res (get_request True True src dst c) (\<lambda>(go, c).
     bind_res (on_datagram env ep (last (cl_sent c)) True srv) (\<lambda>srv'.
       case drop (length (outbox srv)) (outbox srv') of
         [] \<Rightarrow> Inr (None, c, srv')
       | (_, d) # _ \<Rightarrow> download env ep k 0 dst d c srv'))"

text \<open>
  The loop invariant: the server's session has just sent the first 512 of the bytes \<open>p\<close> and has
  the rest to send; the client has stored \<open>w\<close>.
\<close>

lemma download_completes:
  assumes "client_ok c" "\<not> ndebug c" "cl_files c dst = Some w" "cl_mode c = m"
    and "length (recvBuffer srv) = BUFFER_SIZE" "sessions srv ep = Some (Read_Session r)"
    and "sstate r = Active" "\<not> in_bad r" "transferMode r = m" "blockCounter r = e + 1"
    and "to_send r = drop 512 p" "readComplete r = (length p < 512)"
    and "length p div 512 < k" "\<not> outFailed c"
  shows "\<exists>c' srv'. download env ep k e dst (data_datagram (e + 1) (take 512 p)) c srv
      = Inr (Some True, c', srv')
    \<and> cl_files c' = (cl_files c)(dst \<mapsto> w @ stored_bytes m p)
    \<and> sessions srv' = (sessions srv)(ep := None) \<and> srv_files srv' = srv_files srv"
  using assms
proof (induction k arbitrary: c srv r e p w)
  case (Suc k)
  obtain c1 where
    c1: "get_turn e dst (Some (data_datagram (e + 1) (take 512 p))) True c
        = Inr (if length p < 512 then Return True else Continue (e + 1), c1)"
      "client_ok c1" "\<not> ndebug c1" "cl_mode c1 = m"
      "cl_files c1 = (cl_files c)(dst \<mapsto> w @ stored_bytes m (take 512 p))"
      "cl_sent c1 = cl_sent c @ [ack_datagram (e + 1)]" and good1: "\<not> outFailed c1"
    using get_turn_data [of c "take 512 p" dst w e] Suc.prems(1-4,14) by auto
  let ?ack = "ack_datagram (e + 1)"
  let ?buf = "?ack @ drop (length ?ack) (recvBuffer srv)"
  show ?case
  proof (cases "length p < 512")
    case True
    obtain r1 where r1: "read_onDataReceived (srv_files srv) ?buf r = Inr (r1, [])" "sstate r1 = Finished"
      using read_session_ack(1) Suc.prems(10,12) True by blast
    then have "\<exists>srv'. on_datagram env ep ?ack True srv = Inr srv' \<and> srv_files srv' = srv_files srv
        \<and> sessions srv' = (sessions srv)(ep := None)"
      using on_datagram_existing [OF Suc.prems(5) _ Suc.prems(6), of ?ack env "Read_Session r1" "srv_files srv" "[]"]
      by (auto simp: BUFFER_SIZE_def)
    with c1 True show ?thesis by (auto simp: fun_upd_def)
  next
    case False
    obtain r1 where r1: "read_onDataReceived (srv_files srv) ?buf r
          = Inr (r1, [data_datagram (e + 1 + 1) (take 512 (drop 512 p))])"
        "sstate r1 = Active" "\<not> in_bad r1" "transferMode r1 = m" "blockCounter r1 = e + 1 + 1"
        "to_send r1 = drop 512 (drop 512 p)" "readComplete r1 = (length (drop 512 p) < 512)"
      using read_session_ack(2) [OF Suc.prems(10), of "srv_files srv" "drop (length ?ack) (recvBuffer srv)"]
        Suc.prems(7-12) False by auto
    then obtain srv1 where srv1: "on_datagram env ep ?ack True srv = Inr srv1"
        "length (recvBuffer srv1) = BUFFER_SIZE" "srv_files srv1 = srv_files srv"
        "sessions srv1 = (sessions srv)(ep \<mapsto> Read_Session r1)"
        "outbox srv1 = outbox srv @ [(ep, data_datagram (e + 1 + 1) (take 512 (drop 512 p)))]"
      using on_datagram_existing [OF Suc.prems(5) _ Suc.prems(6), of ?ack env "Read_Session r1" "srv_files srv"]
      by (fastforce simp: BUFFER_SIZE_def)
    have k: "length (drop 512 p) div 512 < k" using Suc.prems(13) False by (simp add: le_div_geq)
    have fl: "cl_files c1 dst = Some (w @ stored_bytes m (take 512 p))" using c1(5) by simp
    have sess: "sessions srv1 ep = Some (Read_Session r1)" using srv1(4) by simp
    obtain c2 srv2 where
      2: "download env ep k (e + 1) dst (data_datagram (e + 1 + 1) (take 512 (drop 512 p))) c1 srv1
          = Inr (Some True, c2, srv2)"
        "cl_files c2 = (cl_files c1)(dst \<mapsto> (w @ stored_bytes m (take 512 p)) @ stored_bytes m (drop 512 p))"
        "sessions srv2 = (sessions srv1)(ep := None)" "srv_files srv2 = srv_files srv1"
      using Suc.IH [OF c1(2,3) fl c1(4) srv1(2) sess r1(2-7) k good1] by blast
    have "stored_bytes m (take 512 p) @ stored_bytes m (drop 512 p) = stored_bytes m p"
      by (simp flip: stored_bytes_append)
    then have "cl_files c2 = (cl_files c)(dst \<mapsto> w @ stored_bytes m p)"
        "sessions srv2 = (sessions srv)(ep := None)"
      using 2(2,3) c1(5) srv1(4) by auto
    moreover have "download env ep (Suc k) e dst (data_datagram (e + 1) (take 512 p)) c srv
        = Inr (Some True, c2, srv2)"
      using 2(1) c1(1,6) srv1(1,5) False by simp
    moreover have "srv_files srv2 = srv_files srv" using 2(4) srv1(3) by simp
    ultimately show ?thesis by blast
  qed
qed simp

lemma client_send_request:
  assumes "client_ok c" "\<not> ndebug c"
  shows "\<exists>c'. client_send (request_datagram t f m) True c = Inr c'
    \<and> client_ok c' \<and> \<not> ndebug c' \<and> (outFailed c' \<longleftrightarrow> outFailed c) \<and> cl_mode c' = cl_mode c \<and> cl_files c' = cl_files c
    \<and> cl_sent c' = cl_sent c @ [request_datagram t f m]"
  using assms length_request_datagram [of t f m]
  by (simp add: client_send_debug client_ok_def BUFFER_SIZE_def)

lemma length_request_ge: "2 \<le> length (request_datagram t f m)"
  by (simp add: request_datagram_def)

lemma download_file_completes:
  assumes "client_ok c" "\<not> ndebug c" "length (recvBuffer srv) = BUFFER_SIZE" "sessions srv ep = None"
    and "plain_name src" "srv_files srv src = Some f"
    and "length (pending_bytes (cl_mode c) (False, f)) div 512 < k"
  shows "\<exists>c' srv'. download_file env ep k src dst c srv = Inr (Some True, c', srv')
    \<and> cl_files c' = (cl_files c)(dst \<mapsto> stored_bytes (cl_mode c) f)
    \<and> sessions srv' = sessions srv \<and> srv_files srv' = srv_files srv"
proof -
  let ?m = "cl_mode c" and ?p = "pending_bytes (cl_mode c) (False, f)"
  let ?req = "request_datagram RRQ src ?m"
  let ?c = "c\<lparr>cl_files := (cl_files c)(dst \<mapsto> []), outFailed := False\<rparr>"
  have "client_ok ?c" "\<not> ndebug ?c" using assms(1,2) by (simp_all add: client_ok_def)
  then obtain c1 where c1: "client_send ?req True ?c = Inr c1" "client_ok c1" "\<not> ndebug c1"
      "cl_mode c1 = ?m" "cl_files c1 = (cl_files c)(dst \<mapsto> [])" "cl_sent c1 = cl_sent c @ [?req]" "\<not> outFailed c1"
    using client_send_request [of ?c RRQ src ?m] by auto
  let ?buf = "?req @ drop (length ?req) (recvBuffer srv)"
  obtain r where r: "read_onDataReceived (srv_files srv) ?buf new_read_session
        = Inr (r, [data_datagram 1 (take 512 ?p)])"
      "sstate r = Active" "\<not> in_bad r" "transferMode r = ?m" "blockCounter r = 0 + 1"
      "to_send r = drop 512 ?p" "readComplete r = (length ?p < 512)"
    using read_session_request [where fs = "srv_files srv", OF assms(5,6), of ?m] by auto
  have len: "length ?req \<le> BUFFER_SIZE"
    using length_request_datagram [of RRQ src ?m] by (simp add: BUFFER_SIZE_def)
  have on: "onDataReceived env ?buf (length ?req) True (Read_Session new_read_session) (srv_files srv)
      = Inr ((Read_Session r, srv_files srv), [data_datagram 1 (take 512 ?p)])"
    using r(1) by simp
  obtain srv1 where srv1: "on_datagram env ep ?req True srv = Inr srv1"
      "length (recvBuffer srv1) = BUFFER_SIZE" "srv_files srv1 = srv_files srv"
      "sessions srv1 = (sessions srv)(ep \<mapsto> Read_Session r)"
      "outbox srv1 = outbox srv @ [(ep, data_datagram 1 (take 512 ?p))]"
    using on_datagram_new [OF assms(3) len assms(4) length_request_ge request_parts(1) [OF assms(5)] _ on]
    by auto
  have fl: "cl_files c1 dst = Some []" using c1(5) by simp
  have sess: "sessions srv1 ep = Some (Read_Session r)" using srv1(4) by simp
  obtain c2 srv2 where 2: "download env ep k 0 dst (data_datagram (0 + 1) (take 512 ?p)) c1 srv1
      = Inr (Some True, c2, srv2)"
      "cl_files c2 = (cl_files c1)(dst \<mapsto> [] @ stored_bytes ?m ?p)"
      "sessions srv2 = (sessions srv1)(ep := None)" "srv_files srv2 = srv_files srv1"
    using download_completes [OF c1(2,3) fl c1(4) srv1(2) sess r(2-7) assms(7) c1(7)] by blast
  have "download_file env ep k src dst c srv = Inr (Some True, c2, srv2)"
    using c1 srv1 2(1) by (simp add: download_file_def get_request_def)
  moreover have "cl_files c2 = (cl_files c)(dst \<mapsto> stored_bytes ?m f)"
    using 2(2) c1(5) by (simp add: stored_pending)
  moreover have "sessions srv2 = sessions srv"
    using 2(3) srv1(4) assms(4) by (auto simp: fun_upd_idem)
  ultimately show ?thesis using 2(4) srv1(3) by auto
qed

section \<open>An upload\<close>

definition good_env :: "write_env \<Rightarrow> string \<Rightarrow> bool" where
  "good_env env f \<longleftrightarrow> cwd_ok env \<and> exists_ok env \<and> status_ok env \<and> others_write env
     \<and> \<not> is_dir env f \<and> can_create env f"

lemma write_session_request:
  assumes "plain_name f" "fs f = None" "good_env env f"
  shows "\<exists>w. write_onDataReceived env (request_datagram WRQ f m @ post) n True (new_write_session, fs)
      = Inr ((w, fs(f \<mapsto> [])), [ack_datagram 0])
    \<and> sstate w = Active \<and> transferMode w = m \<and> blockCounter w = 0 \<and> out_open w = Some f \<and> \<not> out_bad w"
  using assms request_parts [OF assms(1), of WRQ m post]
  by (simp add: write_onDataReceived_def Let_def plain_name_def good_env_def open_out_def
      new_write_session_def sendAcknowledge_def del: rd_le16_ok)

lemma write_session_data:
  assumes "length payload \<le> 512" "blockCounter w = k" "out_open w = Some f" "\<not> out_bad w" "fs f = Some old"
  shows "\<exists>w'. write_onDataReceived env (data_datagram (k + 1) payload @ post) (4 + length payload) True (w, fs)
      = Inr ((w', fs(f \<mapsto> old @ stored_bytes (transferMode w) payload)), [ack_datagram (k + 1)])
    \<and> transferMode w' = transferMode w \<and> blockCounter w' = k + 1
    \<and> (if length payload < 512 then sstate w' = Finished
        else sstate w' = sstate w \<and> out_open w' = Some f \<and> \<not> out_bad w')"
proof -
  have "rd_range (data_datagram (k + 1) payload @ post) 4 (length payload) = Inr payload"
    by (simp add: rd_range_def data_datagram_def le16_def)
  then show ?thesis
    using assms
    by (simp add: write_onDataReceived_def Let_def incrementBlockCounter_def put_out_def
        sendAcknowledge_def del: rd_le16_ok)
qed

text \<open>The mirror image of \<open>download\<close>: the client takes an acknowledgement, the server a block.\<close>

fun upload :: "write_env \<Rightarrow> endpoint \<Rightarrow> nat \<Rightarrow> bytes \<Rightarrow> put_state \<Rightarrow> tftp_client \<Rightarrow> tftp_server
    \<Rightarrow> (bool option \<times> tftp_client \<times> tftp_server) resl" where
  "upload env ep 0 d p c srv = Inr (None, c, srv)"
| "upload env ep (Suc k) d p c srv =
     bind_res (put_turn (Some d) True (p, c)) (\<lambda>(t, p', c').
       case t of
         Put_Return b \<Rightarrow> Inr (Some b, c', srv)
       | Put_Continue \<Rightarrow>
           if cl_sent c' = cl_sent c then Inr (None, c', srv)
           else bind_res (on_datagram env ep (last (cl_sent c')) True srv) (\<lambda>srv'.
             case drop (length (outbox srv)) (outbox srv') of
               [] \<Rightarrow> Inr (None, c', srv')
             | (_, d') # _ \<Rightarrow> upload env ep k d' p' c' srv'))"

definition upload_file :: "write_env \<Rightarrow> endpoint \<Rightarrow> nat \<Rightarrow> string \<Rightarrow> string \<Rightarrow> tftp_client \<Rightarrow> tftp_server
    \<Rightarrow> (bool option \<times> tftp_client \<times> tftp_server) resl" where
  "upload_file env ep k src dst c srv =
     bind_res (put_request True src dst c) (\<lambda>(go, c).
       case go of
         None \<Rightarrow> Inr (Some False, c, srv)
       | Some p \<Rightarrow>
           bind_res (on_datagram env ep (last (cl_sent c)) True srv) (\<lambda>srv'.
             case drop (length (outbox srv)) (outbox srv') of
               [] \<Rightarrow> Inr (None, c, srv')
             | (_, d) # _ \<Rightarrow> upload env ep k d p c srv'))"

lemma upload_completes:
  assumes "client_ok c" "\<not> ndebug c" "cl_mode c = m"
    and "currBlock p = e" "\<not> complete p" "pending_bytes m (put_lf p, put_rest p) = q"
    and "length (recvBuffer srv) = BUFFER_SIZE" "sessions srv ep = Some (Write_Session w)"
    and "sstate w = Active" "transferMode w = m" "blockCounter w = e" "out_open w = Some f" "\<not> out_bad w"
    and "srv_files srv f = Some old" "length q div 512 + 1 < k"
  shows "\<exists>c' srv'. upload env ep k (ack_datagram e) p c srv = Inr (Some True, c', srv')
    \<and> cl_files c' = cl_files c \<and> srv_files srv' = (srv_files srv)(f \<mapsto> old @ stored_bytes m q)
    \<and> sessions srv' = (sessions srv)(ep := None)"
  using assms
proof (induction k arbitrary: c p srv w e q old)
  case (Suc k)
  obtain p1 c1 where c1: "put_turn (Some (ack_datagram e)) True (p, c) = Inr (Put_Continue, p1, c1)"
      "client_ok c1" "\<not> ndebug c1" "cl_mode c1 = m" "cl_files c1 = cl_files c"
      "currBlock p1 = e + 1" "complete p1 = (length q < 512)"
      "pending_bytes m (put_lf p1, put_rest p1) = drop 512 q"
      "cl_sent c1 = cl_sent c @ [data_datagram (e + 1) (take 512 q)]"
    using put_turn_ack [OF Suc.prems(1,2,4,5)] Suc.prems(3,6) by metis
  let ?d = "data_datagram (e + 1) (take 512 q)"
  let ?buf = "?d @ drop (length ?d) (recvBuffer srv)"
  let ?fs = "(srv_files srv)(f \<mapsto> old @ stored_bytes m (take 512 q))"
  obtain w1 where w1: "write_onDataReceived env ?buf (4 + length (take 512 q)) True (w, srv_files srv)
        = Inr ((w1, ?fs), [ack_datagram (e + 1)])"
      "transferMode w1 = m" "blockCounter w1 = e + 1"
      "if length (take 512 q) < 512 then sstate w1 = Finished
       else sstate w1 = Active \<and> out_open w1 = Some f \<and> \<not> out_bad w1"
    using write_session_data [where fs = "srv_files srv" and f = f and w = w and k = e
        and payload = "take 512 q" and env = env and post = "drop (length ?d) (recvBuffer srv)",
        OF _ Suc.prems(11-14)] Suc.prems(9,10) by auto
  have on: "onDataReceived env ?buf (length ?d) True (Write_Session w) (srv_files srv)
      = Inr ((Write_Session w1, ?fs), [ack_datagram (e + 1)])"
    using w1(1) by simp
  obtain srv1 where srv1: "on_datagram env ep ?d True srv = Inr srv1"
      "length (recvBuffer srv1) = BUFFER_SIZE" "srv_files srv1 = ?fs"
      "sessions srv1 = (sessions srv)(ep := if sstate w1 = Finished then None else Some (Write_Session w1))"
      "outbox srv1 = outbox srv @ [(ep, ack_datagram (e + 1))]"
    using on_datagram_existing [OF Suc.prems(7) _ Suc.prems(8) _ on] by (fastforce simp: BUFFER_SIZE_def)
  have go: "upload env ep (Suc k) (ack_datagram e) p c srv = upload env ep k (ack_datagram (e + 1)) p1 c1 srv1"
    using c1 srv1 by simp
  show ?case
  proof (cases "length q < 512")
    case True
    obtain k' where k: "k = Suc k'" using Suc.prems(15) by (cases k) auto
    obtain c2 where "put_turn (Some (ack_datagram (e + 1))) True (p1, c1) = Inr (Put_Return True, p1, c2)"
        "cl_files c2 = cl_files c1"
      using put_turn_done [OF c1(2,6)] c1(7) True by blast
    then have "upload env ep k (ack_datagram (e + 1)) p1 c1 srv1 = Inr (Some True, c2, srv1)" by (simp add: k)
    then show ?thesis using go srv1 w1(4) True \<open>cl_files c2 = cl_files c1\<close> c1(5) by auto
  next
    case False
    have k: "length (drop 512 q) div 512 + 1 < k" using Suc.prems(15) False by (simp add: le_div_geq)
    have nf: "sstate w1 = Active" "out_open w1 = Some f" "\<not> out_bad w1" using w1(4) False by auto
    have s1: "sessions srv1 ep = Some (Write_Session w1)" "srv_files srv1 f = Some (old @ stored_bytes m (take 512 q))"
      "\<not> complete p1"
      using srv1(3,4) nf c1(7) False by simp_all
    obtain c2 srv2 where 2: "upload env ep k (ack_datagram (e + 1)) p1 c1 srv1 = Inr (Some True, c2, srv2)"
        "cl_files c2 = cl_files c1"
        "srv_files srv2 = (srv_files srv1)(f \<mapsto> (old @ stored_bytes m (take 512 q)) @ stored_bytes m (drop 512 q))"
        "sessions srv2 = (sessions srv1)(ep := None)"
      using Suc.IH [OF c1(2,3,4,6) s1(3) c1(8) srv1(2) s1(1) nf(1) w1(2,3) nf(2,3) s1(2) k] by blast
    have "stored_bytes m (take 512 q) @ stored_bytes m (drop 512 q) = stored_bytes m q"
      by (simp flip: stored_bytes_append)
    with go 2 c1(5) srv1(3,4) show ?thesis by (auto simp del: upload.simps)
  qed
qed simp

lemma upload_file_completes:
  assumes "client_ok c" "\<not> ndebug c" "length (recvBuffer srv) = BUFFER_SIZE" "sessions srv ep = None"
    and "plain_name dst" "cl_files c src = Some f" "srv_files srv dst = None" "good_env env dst"
    and "length (pending_bytes (cl_mode c) (False, f)) div 512 + 1 < k"
  shows "\<exists>c' srv'. upload_file env ep k src dst c srv = Inr (Some True, c', srv')
    \<and> cl_files c' = cl_files c \<and> srv_files srv' = (srv_files srv)(dst \<mapsto> stored_bytes (cl_mode c) f)
    \<and> sessions srv' = sessions srv"
proof -
  let ?m = "cl_mode c" and ?req = "request_datagram WRQ dst (cl_mode c)"
  let ?p = "\<lparr>currBlock = 0, complete = False, put_lf = False, put_rest = f\<rparr>"
  obtain c1 where c1: "client_send ?req True c = Inr c1" "client_ok c1" "\<not> ndebug c1"
      "cl_mode c1 = ?m" "cl_files c1 = cl_files c" "cl_sent c1 = cl_sent c @ [?req]"
    using client_send_request [OF assms(1,2)] by blast
  let ?buf = "?req @ drop (length ?req) (recvBuffer srv)"
  let ?fs = "(srv_files srv)(dst \<mapsto> [])"
  obtain w where w: "write_onDataReceived env ?buf (length ?req) True (new_write_session, srv_files srv)
        = Inr ((w, ?fs), [ack_datagram 0])"
      "sstate w = Active" "transferMode w = ?m" "blockCounter w = 0" "out_open w = Some dst" "\<not> out_bad w"
    using write_session_request [where fs = "srv_files srv", OF assms(5,7,8)] by blast
  have len: "length ?req \<le> BUFFER_SIZE"
    using length_request_datagram [of WRQ dst ?m] by (simp add: BUFFER_SIZE_def)
  have on: "onDataReceived env ?buf (length ?req) True (Write_Session new_write_session) (srv_files srv)
      = Inr ((Write_Session w, ?fs), [ack_datagram 0])"
    using w(1) by simp
  obtain srv1 where srv1: "on_datagram env ep ?req True srv = Inr srv1"
      "length (recvBuffer srv1) = BUFFER_SIZE" "srv_files srv1 = ?fs"
      "sessions srv1 = (sessions srv)(ep \<mapsto> Write_Session w)"
      "outbox srv1 = outbox srv @ [(ep, ack_datagram 0)]"
    using on_datagram_new [OF assms(3) len assms(4) length_request_ge request_parts(1) [OF assms(5)] _ on]
    by auto
  have sess: "sessions srv1 ep = Some (Write_Session w)" and old: "srv_files srv1 dst = Some []"
    using srv1(3,4) by simp_all
  have p: "currBlock ?p = 0" "\<not> complete ?p"
    "pending_bytes ?m (put_lf ?p, put_rest ?p) = pending_bytes ?m (False, f)"
    by simp_all
  obtain c2 srv2 where 2: "upload env ep k (ack_datagram 0) ?p c1 srv1 = Inr (Some True, c2, srv2)"
      "cl_files c2 = cl_files c1"
      "srv_files srv2 = (srv_files srv1)(dst \<mapsto> [] @ stored_bytes ?m (pending_bytes ?m (False, f)))"
      "sessions srv2 = (sessions srv1)(ep := None)"
    using upload_completes [OF c1(2,3,4) p srv1(2) sess w(2-6) old assms(9)] by blast
  have "upload_file env ep k src dst c srv = Inr (Some True, c2, srv2)"
    using c1 srv1 2(1) assms(6) by (simp add: upload_file_def put_request_def)
  moreover have "srv_files srv2 = (srv_files srv)(dst \<mapsto> stored_bytes ?m f)"
    using 2(3) srv1(3) by (simp add: stored_pending)
  moreover have "sessions srv2 = sessions srv"
    using 2(4) srv1(4) assms(4) by (auto simp: fun_upd_idem)
  ultimately show ?thesis using 2(2) c1(5) by auto
qed

end
