(* ===== verification/TFTP_Properties.thy ===== *)
theory TFTP_Properties
  imports TFTP_Transfer
begin

text \<open>
  The properties of the TFTP programs: whole transfers between client and server, the block
  format, the isolation of sessions, the safety of existing files, and the runs in which the
  code does not do what the protocol asks.
\<close>

section \<open>Whole transfers\<close>

text \<open>C1: a download over a network that loses nothing completes: \<open>getFile\<close> (in a debug build) returns
  true and the local file is the server's file, without its carriage returns in netascii mode and as it is
  in binary mode; the server's files and its other sessions are as before, and the peer's session is gone.
  The number of turns that suffices is the number of blocks.\<close>
theorem download_correct:
  assumes "client_ok c" "\<not> ndebug c" "length (recvBuffer srv) = BUFFER_SIZE" "sessions srv ep = None"
    and "plain_name src" "srv_files srv src = Some f"
    and "length (pending_bytes (cl_mode c) (False, f)) div 512 < k"
  shows "\<exists>c' srv'. download_file env ep k src dst c srv = Inr (Some True, c', srv')
    \<and> cl_files c' dst = Some (if cl_mode c = Binary then f else filter (\<lambda>b. b \<noteq> CR) f)
    \<and> sessions srv' = sessions srv \<and> srv_files srv' = srv_files srv"
  using download_file_completes [OF assms, of env dst]
  by (cases "cl_mode c") (auto simp: stored_bytes_def)

definition sample_env :: write_env where
  "sample_env = \<lparr>cwd_ok = True, exists_ok = True, status_ok = True, others_write = True,
     is_dir = (\<lambda>_. False), can_create = (\<lambda>_. True)\<rparr>"

definition sample_client :: "TransferMode \<Rightarrow> files \<Rightarrow> tftp_client" where
  "sample_client m fs = new_client False m (replicate 516 0) (replicate 516 0) (\<lambda>_. True) fs"

definition sample_server :: "files \<Rightarrow> tftp_server" where
  "sample_server fs = new_tftp_server (replicate 516 0) fs"

lemma sample_ok [simp]:
  "client_ok (sample_client m fs)" "\<not> ndebug (sample_client m fs)" "cl_mode (sample_client m fs) = m"
  "cl_files (sample_client m fs) = fs" "length (recvBuffer (sample_server fs)) = BUFFER_SIZE"
  "sessions (sample_server fs) = (\<lambda>_. None)" "srv_files (sample_server fs) = fs"
  "good_env sample_env name" "tftp_inv (sample_server fs)" "can_remove (sample_client m fs) = (\<lambda>_. True)"
  by (simp_all add: sample_client_def new_client_def client_ok_def sample_server_def new_tftp_server_def
      BUFFER_SIZE_def sample_env_def good_env_def tftp_inv_def)

theorem download_correct_witness:
  "\<exists>c' srv'. download_file sample_env (Endpoint 1 2) 2 ''f'' ''g'' (sample_client ASCII (\<lambda>_. None))
      (sample_server [''f'' \<mapsto> [104, 13, 105, 10]]) = Inr (Some True, c', srv')
    \<and> cl_files c' ''g'' = Some [104, 105, 10]"
  using download_correct [of "sample_client ASCII (\<lambda>_. None)" "sample_server [''f'' \<mapsto> [104, 13, 105, 10]]"
      "Endpoint 1 2" "''f''" "[104, 13, 105, 10]" 2 sample_env "''g''"]
  by (auto simp: plain_name_def MAX_FILENAME_LENGTH_def pending_bytes_def)

text \<open>C7: an upload over a network that loses nothing completes: \<open>putFile\<close> (in a debug build) returns
  true and the server has the client's file under the new name, without its carriage returns in netascii
  mode; no other file and no session changes. The directory must be writable by others and the name new.\<close>
theorem upload_correct:
  assumes "client_ok c" "\<not> ndebug c" "length (recvBuffer srv) = BUFFER_SIZE" "sessions srv ep = None"
    and "plain_name dst" "cl_files c src = Some f" "srv_files srv dst = None" "good_env env dst"
    and "length (pending_bytes (cl_mode c) (False, f)) div 512 + 1 < k"
  shows "\<exists>c' srv'. upload_file env ep k src dst c srv = Inr (Some True, c', srv')
    \<and> srv_files srv' = (srv_files srv)(dst \<mapsto> if cl_mode c = Binary then f else filter (\<lambda>b. b \<noteq> CR) f)
    \<and> cl_files c' = cl_files c \<and> sessions srv' = sessions srv"
proof -
  have eq: "stored_bytes (cl_mode c) f = (if cl_mode c = Binary then f else filter (\<lambda>b. b \<noteq> CR) f)"
    by (cases "cl_mode c") (simp_all add: stored_bytes_def)
  from upload_file_completes [OF assms] show ?thesis unfolding eq by blast
qed

theorem upload_correct_witness:
  "\<exists>c' srv'. upload_file sample_env (Endpoint 1 2) 3 ''f'' ''g'' (sample_client Binary [''f'' \<mapsto> [104, 13, 10]])
      (sample_server (\<lambda>_. None)) = Inr (Some True, c', srv')
    \<and> srv_files srv' = [''g'' \<mapsto> [104, 13, 10]]"
  using upload_correct [of "sample_client Binary [''f'' \<mapsto> [104, 13, 10]]" "sample_server (\<lambda>_. None)"
      "Endpoint 1 2" "''g''" "''f''" "[104, 13, 10]" sample_env 3]
  by (auto simp: plain_name_def MAX_FILENAME_LENGTH_def pending_bytes_def)

text \<open>The block loop shared by server and client cuts a file into full blocks of 512 bytes and one
  shorter block, in either mode, however line feeds fall on block borders; concatenated they are the
  file (in netascii with a carriage return before every line feed), and what a receiver stores of them is
  the file, without carriage returns in netascii.\<close>
theorem file_in_blocks:
  "let bytes = pending_bytes m (False, f); n = length bytes div 512;
       bs = take_blocks (read_block m) (n + 1) (False, f)
   in bytes = (case m of Binary \<Rightarrow> f | ASCII \<Rightarrow> concat (map (\<lambda>b. if b = LF then [CR, LF] else [b]) f))
    \<and> concat bs = bytes \<and> map length (butlast bs) = replicate n 512 \<and> length (last bs) < 512
    \<and> concat (map (stored_bytes m) bs) = stored_bytes m f"
  unfolding Let_def
proof (intro conjI)
  let ?bytes = "pending_bytes m (False, f)"
  let ?n = "length ?bytes div 512"
  let ?bs = "take_blocks (read_block m) (?n + 1) (False, f)"
  show "?bytes = (case m of Binary \<Rightarrow> f | ASCII \<Rightarrow> concat (map (\<lambda>b. if b = LF then [CR, LF] else [b]) f))"
    by (cases m) (simp_all add: pending_bytes_def netascii_def)
  show c: "concat ?bs = ?bytes" by (rule file_blocks.transfer_blocks(1))
  show "length (last ?bs) < 512" by (rule file_blocks.transfer_blocks(3))
  have full: "length (?bs ! i) = 512" if "i < ?n" for i
    using that by (rule file_blocks.transfer_blocks(2))
  have len: "length ?bs = ?n + 1" by (rule file_blocks.length_take_blocks)
  then show "map length (butlast ?bs) = replicate ?n 512"
    using full by (intro nth_equalityI) (simp_all add: nth_butlast del: take_blocks.simps)
  have "concat (map (stored_bytes m) ?bs) = stored_bytes m (concat ?bs)"
    by (rule stored_bytes_concat [symmetric])
  then show "concat (map (stored_bytes m) ?bs) = stored_bytes m f"
    unfolding c by (simp add: stored_pending)
qed

section \<open>The server's table\<close>

text \<open>C30: a datagram changes no session but its sender's, and makes the server send at most one datagram,
  to that sender, of at most 516 bytes.\<close>
theorem sessions_isolated:
  assumes "on_datagram env ep d ok srv = Inr srv'"
  shows "(\<forall>ep'. ep' \<noteq> ep \<longrightarrow> sessions srv' ep' = sessions srv ep')
    \<and> (\<exists>out. outbox srv' = outbox srv @ map (Pair ep) out \<and> length out \<le> 1 \<and> (\<forall>x \<in> set out. length x \<le> 516))"
  using holdsD [OF on_datagram_frame assms] by (auto simp: grows_def fits_def BUFFER_SIZE_def)

theorem sessions_isolated_witness:
  "\<exists>srv'. on_datagram sample_env (Endpoint 1 2) [4, 0, 0, 0] True (sample_server (\<lambda>_. None)) = Inr srv'
    \<and> sessions srv' (Endpoint 3 4) = None \<and> length (outbox srv') \<le> 1"
proof -
  let ?srv = "sample_server (\<lambda>_. None)"
  obtain srv' where s: "on_datagram sample_env (Endpoint 1 2) [4, 0, 0, 0] True ?srv = Inr srv'"
    by (simp add: on_datagram_def Let_def overwrite_def rd_le16_def rd_def BUFFER_SIZE_def join16_def)
  have "outbox ?srv = []" by (simp add: sample_server_def new_tftp_server_def)
  with s sessions_isolated [OF s] show ?thesis by (intro exI [of _ srv']) auto
qed

text \<open>In every run from the start the receive buffer keeps its 516 bytes and no finished session stays
  in the table.\<close>
theorem no_finished_session:
  assumes "tftp_run es (new_tftp_server junk fs) = Inr srv" "length junk = BUFFER_SIZE"
  shows "length (recvBuffer srv) = BUFFER_SIZE
    \<and> (\<forall>ep sess. sessions srv ep = Some sess \<longrightarrow> session_state sess \<noteq> Finished)"
  using holdsD [OF tftp_run_inv assms(1)] tftp_inv_new [OF assms(2)] by (simp add: tftp_inv_def)

theorem no_finished_session_witness:
  "length (recvBuffer (new_tftp_server (replicate 516 0) (\<lambda>_. None))) = BUFFER_SIZE"
  using no_finished_session [of "[Tftp_Error]" "replicate 516 0" "\<lambda>_. None" "new_tftp_server (replicate 516 0) (\<lambda>_. None)"]
  by (simp add: BUFFER_SIZE_def)




section \<open>Runs that go wrong\<close>

text \<open>The datagrams of a peer that sends the blocks \<open>b\<close>, \<open>b + 1\<close>, ... with the given payloads.\<close>

fun blocks_from :: "write_env \<Rightarrow> endpoint \<Rightarrow> u16 \<Rightarrow> bytes list \<Rightarrow> tftp_event list" where
  "blocks_from env ep b [] = []"
| "blocks_from env ep b (p # ps) = Tftp_Datagram env ep (data_datagram b p) True # blocks_from env ep (b + 1) ps"

lemma refused_block:
  assumes "tftp_inv srv" "sessions srv ep = Some (Write_Session w)" "blockCounter w + 1 \<noteq> b" "length p \<le> 512"
  shows "\<exists>srv' w'. on_datagram env ep (data_datagram b p) True srv = Inr srv' \<and> tftp_inv srv'
    \<and> sessions srv' ep = Some (Write_Session w') \<and> blockCounter w' = blockCounter w + 1
    \<and> srv_files srv' = srv_files srv \<and> outbox srv' = outbox srv @ [(ep, error_datagram UnknownTransferId [])]"
proof -
  let ?d = "data_datagram b p" and ?w = "incrementBlockCounter w"
  have "session_state (Write_Session w) \<noteq> Finished" using assms(1,2) unfolding tftp_inv_def by blast
  then have len: "length (recvBuffer srv) = BUFFER_SIZE" "sstate w \<noteq> Finished"
    using assms(1) by (auto simp: tftp_inv_def)
  have "write_onDataReceived env (?d @ post) n True (w, fs)
      = Inr ((?w, fs), [error_datagram UnknownTransferId []])" for post n fs
    using assms(3,4) by (simp add: write_onDataReceived_def Let_def incrementBlockCounter_def del: rd_le16_ok)
  then obtain srv' where s: "on_datagram env ep ?d True srv = Inr srv'" "srv_files srv' = srv_files srv"
      "sessions srv' = (sessions srv)(ep \<mapsto> Write_Session ?w)"
      "outbox srv' = outbox srv @ [(ep, error_datagram UnknownTransferId [])]"
    using on_datagram_existing [where srv = srv and ep = ep and d = ?d and env = env and sess = "Write_Session w"
        and sess' = "Write_Session ?w" and fs' = "srv_files srv"] assms(2,4) len
    by (auto simp: BUFFER_SIZE_def incrementBlockCounter_def)
  have "tftp_inv srv'" using holdsD [OF on_datagram_inv [OF assms(1)] s(1)] .
  with s show ?thesis by (auto simp: incrementBlockCounter_def)
qed

text \<open>One duplicated block stops an upload. When a block the session has already taken arrives again,
  as a lost acknowledgement makes it, the session counts it although it refuses it; from then on every
  block of the peer, sent in order, is refused, and nothing more is stored.\<close>
theorem duplicate_block_stalls_upload:
  assumes "tftp_inv srv" "sessions srv ep = Some (Write_Session w)" "\<forall>p \<in> set ps. length p \<le> 512"
  shows "\<exists>srv'. tftp_run (blocks_from env ep (blockCounter w) ps) srv = Inr srv'
    \<and> srv_files srv' = srv_files srv
    \<and> outbox srv' = outbox srv @ replicate (length ps) (ep, error_datagram UnknownTransferId [])"
  using assms
proof (induction ps arbitrary: srv w)
  case (Cons p ps)
  obtain srv1 w1 where 1: "on_datagram env ep (data_datagram (blockCounter w) p) True srv = Inr srv1" "tftp_inv srv1"
      "sessions srv1 ep = Some (Write_Session w1)" "blockCounter w1 = blockCounter w + 1"
      "srv_files srv1 = srv_files srv" "outbox srv1 = outbox srv @ [(ep, error_datagram UnknownTransferId [])]"
    using refused_block [OF Cons.prems(1,2), of "blockCounter w" p env] Cons.prems(3) by auto
  with Cons.IH [OF 1(2,3)] Cons.prems(3) show ?case by auto
qed simp

definition uploading_server :: "endpoint \<Rightarrow> u16 \<Rightarrow> tftp_server" where
  "uploading_server ep k = (sample_server [''f'' \<mapsto> []])\<lparr>sessions := [ep \<mapsto>
     Write_Session (new_write_session\<lparr>sstate := Active, blockCounter := k, out_open := Some ''f''\<rparr>)]\<rparr>"

lemma uploading_server_ok:
  "tftp_inv (uploading_server ep k)"
  "sessions (uploading_server ep k) ep =
     Some (Write_Session (new_write_session\<lparr>sstate := Active, blockCounter := k, out_open := Some ''f''\<rparr>))"
  "srv_files (uploading_server ep k) = [''f'' \<mapsto> []]" "outbox (uploading_server ep k) = []"
  by (simp_all add: uploading_server_def tftp_inv_def sample_server_def new_tftp_server_def BUFFER_SIZE_def)

theorem duplicate_block_stalls_upload_witness:
  "\<exists>srv'. tftp_run (blocks_from sample_env (Endpoint 1 2) 1 [replicate 512 65, [66]]) (uploading_server (Endpoint 1 2) 1)
      = Inr srv'
    \<and> srv_files srv' ''f'' = Some []"
  using duplicate_block_stalls_upload [OF uploading_server_ok(1,2) [of "Endpoint 1 2" 1], of "[replicate 512 65, [66]]" sample_env]
  by (auto simp: uploading_server_ok simp del: blocks_from.simps tftp_run.simps)

text \<open>A peer with an open upload in netascii mode can make the server read out of its buffer with a datagram of two
  octets: the block number is whatever the buffer held, and the payload length wraps around.\<close>
theorem short_data_out_of_bounds:
  assumes "length (recvBuffer srv) = BUFFER_SIZE" "sessions srv ep = Some (Write_Session w)"
    and "rd_le16 (recvBuffer srv) 2 = Inr (blockCounter w + 1)" "transferMode w = ASCII"
  shows "on_datagram env ep (le16 (msg_code DATA)) ok srv = Inl Out_Of_Bounds"
proof -
  let ?d = "le16 (msg_code DATA)"
  have "rd_le16 (?d @ drop 2 (recvBuffer srv)) 2 = rd_le16 (recvBuffer srv) 2"
    using assms(1) by (simp add: nth_append BUFFER_SIZE_def)
  then have "write_onDataReceived env (?d @ drop 2 (recvBuffer srv)) 2 ok (w, srv_files srv) = Inl Out_Of_Bounds"
    using assms(3,4) by (simp add: write_onDataReceived_def Let_def incrementBlockCounter_def del: rd_le16_ok)
  then show ?thesis
    using assms(2) by (simp add: on_datagram_def deliver_def Let_def overwrite_0_append BUFFER_SIZE_def del: rd_le16_ok)
qed

theorem short_data_out_of_bounds_witness:
  "on_datagram sample_env (Endpoint 1 2) (le16 (msg_code DATA)) True (uploading_server (Endpoint 1 2) 0xFFFF)
    = Inl Out_Of_Bounds"
proof (rule short_data_out_of_bounds [OF _ uploading_server_ok(2)])
  show "length (recvBuffer (uploading_server (Endpoint 1 2) 0xFFFF)) = BUFFER_SIZE"
    using uploading_server_ok(1) by (simp add: tftp_inv_def)
qed (simp_all add: uploading_server_def sample_server_def new_tftp_server_def new_write_session_def rd_le16_def join16_def)

lemma step_rrq_missing:
  assumes "length (recvBuffer srv) = BUFFER_SIZE" "sessions srv ep = None" "plain_name f" "srv_files srv f = None"
  shows "\<exists>r srv1. on_datagram env ep (request_datagram RRQ f m) True srv = Inr srv1
    \<and> length (recvBuffer srv1) = BUFFER_SIZE \<and> srv_files srv1 = srv_files srv
    \<and> sessions srv1 = (sessions srv)(ep \<mapsto> Read_Session r) \<and> sstate r = Active
    \<and> outbox srv1 = outbox srv @ [(ep, error_datagram FileNotFound [])]"
proof -
  let ?r = "request_datagram RRQ f m"
  let ?s = "open_in None (new_read_session\<lparr>sstate := Active, transferMode := m\<rparr>)"
  have s: "in_bad ?s" "sstate ?s = Active" by (simp_all add: open_in_def new_read_session_def)
  have len: "length ?r \<le> BUFFER_SIZE" using length_request_datagram [of RRQ f m] by (simp add: BUFFER_SIZE_def)
  have "read_onDataReceived (srv_files srv) (?r @ post) new_read_session
      = Inr (?s, [error_datagram FileNotFound []])" for post
    using request_parts [OF assms(3), of RRQ m post] assms(3,4) s(1)
    by (simp add: read_onDataReceived_def Let_def plain_name_def del: rd_le16_ok)
  then have "onDataReceived env (?r @ drop (length ?r) (recvBuffer srv)) (length ?r) True
        (Read_Session new_read_session) (srv_files srv)
      = Inr ((Read_Session ?s, srv_files srv), [error_datagram FileNotFound []])"
    by simp
  from on_datagram_new [OF assms(1) len assms(2) length_request_ge request_parts(1) [OF assms(3)] _ this] s(2)
  show ?thesis by auto
qed

text \<open>A read request that fails leaves its session in the table, and the session captures the peer's
  endpoint: a later write request from it is swallowed without an answer and without creating the file.\<close>
theorem failed_read_blocks_peer:
  assumes "length (recvBuffer srv) = BUFFER_SIZE" "sessions srv ep = None"
    and "plain_name f" "srv_files srv f = None" "plain_name g"
  shows "\<exists>srv1 srv2. on_datagram env ep (request_datagram RRQ f m) True srv = Inr srv1
    \<and> on_datagram env' ep (request_datagram WRQ g m') True srv1 = Inr srv2
    \<and> outbox srv2 = outbox srv @ [(ep, error_datagram FileNotFound [])] \<and> srv_files srv2 = srv_files srv
    \<and> sessions srv2 ep \<noteq> None"
proof -
  obtain r srv1 where 1: "on_datagram env ep (request_datagram RRQ f m) True srv = Inr srv1"
      "length (recvBuffer srv1) = BUFFER_SIZE" "srv_files srv1 = srv_files srv"
      "sessions srv1 ep = Some (Read_Session r)" "sstate r = Active"
      "outbox srv1 = outbox srv @ [(ep, error_datagram FileNotFound [])]"
    using step_rrq_missing [OF assms(1-4), of env m] by auto
  let ?w = "request_datagram WRQ g m'"
  have len: "length ?w \<le> BUFFER_SIZE" using length_request_datagram [of WRQ g m'] by (simp add: BUFFER_SIZE_def)
  have "onDataReceived env' (?w @ drop (length ?w) (recvBuffer srv1)) (length ?w) True (Read_Session r) (srv_files srv1)
      = Inr ((Read_Session r, srv_files srv1), [])"
    using request_parts(1) [OF assms(5), of WRQ m' "drop (length ?w) (recvBuffer srv1)"]
    by (simp add: read_onDataReceived_def del: rd_le16_ok)
  from on_datagram_existing [OF 1(2) len 1(4) length_request_ge this] 1 show ?thesis by auto
qed

theorem failed_read_blocks_peer_witness:
  "\<exists>srv1 srv2. on_datagram sample_env (Endpoint 1 2) (request_datagram RRQ ''f'' ASCII) True (sample_server (\<lambda>_. None)) = Inr srv1
    \<and> on_datagram sample_env (Endpoint 1 2) (request_datagram WRQ ''g'' ASCII) True srv1 = Inr srv2
    \<and> srv_files srv2 ''g'' = None"
  using failed_read_blocks_peer [of "sample_server (\<lambda>_. None)" "Endpoint 1 2" "''f''" "''g''" sample_env ASCII sample_env ASCII]
  by (auto simp: plain_name_def MAX_FILENAME_LENGTH_def)

section \<open>The client on its own\<close>

lemma get_turn_unknown:
  assumes "client_ok c" "2 \<le> length d" "length d \<le> BUFFER_SIZE" "rd_le16 d 0 = Inr t"
    and "t \<noteq> msg_code ERROR" "t \<noteq> msg_code DATA"
  shows "\<exists>c'. get_turn e dst (Some d) ok c = Inr (Continue (e + 1), c') \<and> client_ok c' \<and> can_remove c' = can_remove c \<and> cl_files c' = cl_files c"
proof -
  have "rd_le16 (d @ post) 0 = rd_le16 d 0" for post
    using assms(2) by (cases d; cases "tl d") (auto simp: nth_append)
  then show ?thesis using assms
    by (auto simp: get_turn_def client_recv_some Let_def client_ok_def BUFFER_SIZE_def
        simp del: rd_le16_ok msg_code.simps)
qed

text \<open>One stray datagram of an unknown type ruins a download: \<open>getFile\<close> counts it as a block, so the
  block the server sends next, the one it was waiting for, is taken for a broken sequence; the function
  returns false and removes the output file.\<close>
theorem stray_datagram_ruins_download:
  assumes "client_ok c" "2 \<le> length d" "length d \<le> BUFFER_SIZE" "rd_le16 d 0 = Inr t"
    and "t \<noteq> msg_code ERROR" "t \<noteq> msg_code DATA" "length p \<le> 512" "can_remove c dst"
  shows "\<exists>c'. get_loop e dst ((Some d, ok1) # (Some (data_datagram (e + 1) p), ok2) # evs) c = Inr (Some False, c')
    \<and> cl_files c' dst = None"
proof -
  obtain c1 where 1: "get_turn e dst (Some d) ok1 c = Inr (Continue (e + 1), c1)" "client_ok c1" "can_remove c1 dst"
    using get_turn_unknown [OF assms(1-6)] assms(8) by metis
  have "\<exists>c2. get_turn (e + 1) dst (Some (data_datagram (e + 1) p)) ok2 c1 = Inr (Return False, c2) \<and> cl_files c2 dst = None"
    using 1(2,3) assms(7)
    by (simp add: get_turn_def client_recv_some Let_def BUFFER_SIZE_def removeOutFile_def del: rd_le16_ok)
  with 1 show ?thesis by auto
qed

theorem stray_datagram_ruins_download_witness:
  "\<exists>c'. get_loop 0 ''f'' [(Some [6, 0], True), (Some (data_datagram 1 [65]), True)] (sample_client Binary [''f'' \<mapsto> []])
      = Inr (Some False, c') \<and> cl_files c' ''f'' = None"
  using stray_datagram_ruins_download [of "sample_client Binary [''f'' \<mapsto> []]" "[6, 0]" 6 "[65]" "''f''" 0 True True "[]"]
  by (simp add: BUFFER_SIZE_def rd_le16_def join16_def)

text \<open>In a build without assertions the client sends only empty datagrams: the number of bytes to
  send is assigned inside \<open>assert\<close>, so it stays zero in every call of \<open>getFile\<close> and \<open>putFile\<close>.\<close>
theorem ndebug_client_is_mute:
  assumes "getFile can_open ok src dst evs (new_client True m j1 j2 rm fs) = Inr (r, c)
    \<or> putFile ok src dst evs (new_client True m j1 j2 rm fs) = Inr (r, c)"
  shows "set (cl_sent c) \<subseteq> {[]}"
proof -
  have new: "mute (new_client True m j1 j2 rm fs)" by (simp add: mute_def new_client_def)
  from assms have "mute c"
    using holdsD [OF getFile_mute [OF new]] holdsD [OF putFile_mute [OF new]] by fastforce
  then show ?thesis by (simp add: mute_def)
qed

theorem ndebug_client_is_mute_witness:
  "\<exists>c. getFile True True ''a'' ''b'' [] (new_client True Binary (replicate 516 0) (replicate 516 0) (\<lambda>_. True) (\<lambda>_. None)) = Inr (None, c)
    \<and> set (cl_sent c) \<subseteq> {[]} \<and> length (cl_sent c) = 1"
proof -
  let ?c = "new_client True Binary (replicate 516 0) (replicate 516 0) (\<lambda>_. True) (\<lambda>_. None)"
  have "length (request_datagram RRQ ''a'' Binary) \<le> BUFFER_SIZE"
    using length_request_datagram [of RRQ "''a''" Binary] by (simp add: BUFFER_SIZE_def)
  then obtain c where c: "getFile True True ''a'' ''b'' [] ?c = Inr (None, c)" "length (cl_sent c) = 1"
    by (simp add: getFile_def get_request_def client_send_def new_client_def Let_def)
  with ndebug_client_is_mute [of True True "''a''" "''b''" "[]" Binary "replicate 516 0" "replicate 516 0" "\<lambda>_. True" "\<lambda>_. None" None c]
  show ?thesis by auto
qed

end
