(* ===== verification/TFTP_Program.thy ===== *)
theory TFTP_Program
  imports TFTP_Properties
begin

text \<open>
  \<open>tftp/tftp-client.cpp: main\<close>: the arguments, the command and the exit status. \<open>send\<close> and \<open>recv\<close> convert the
  host to an address, which throws for anything else than a numeric address; the first call is
  the one that sends the request, after the local file has been opened.
\<close>

section \<open>The program\<close>

text \<open>The exit status, if the program ends, and the files. \<open>can_open\<close>: the output file can be opened; \<open>rm\<close>: which files can be removed.\<close>

definition tftp_main :: "bool \<Rightarrow> (string \<Rightarrow> bool) \<Rightarrow> bool \<Rightarrow> (string \<Rightarrow> bool) \<Rightarrow> bool \<Rightarrow> (bytes option \<times> bool) list \<Rightarrow> bytes \<Rightarrow> bytes
    \<Rightarrow> string list \<Rightarrow> files \<Rightarrow> (int option \<times> files) resl" where
  "tftp_main nd address_ok can_open rm send_ok evs junk1 junk2 argv fs =
     (let status = map_option (\<lambda>b. if b then 0 else -1) in
      case parse_args argv of
        None \<Rightarrow> Inr (Some (-1), fs)
      | Some args \<Rightarrow>
          bind_res args (\<lambda>(binaryMode, remoteHost, command, srcFilename, dstFilename).
            let c = new_client nd (if binaryMode then Binary else ASCII) junk1 junk2 rm fs in
            if command = ''GET''
            then (if can_open \<and> \<not> address_ok remoteHost then Inr (Some (-1), fs(dstFilename \<mapsto> []))
                  else bind_res (getFile can_open send_ok srcFilename dstFilename evs c)
                         (\<lambda>(r, c). Inr (status r, cl_files c)))
            else if command = ''PUT''
            then (if fs srcFilename \<noteq> None \<and> \<not> address_ok remoteHost then Inr (Some (-1), fs)
                  else bind_res (putFile send_ok srcFilename dstFilename evs c)
                         (\<lambda>(r, c). Inr (status r, cl_files c)))
            else Inr (Some 0, fs)))"

section \<open>The client's loop on what the server sends\<close>

definition arrivals :: "(endpoint \<times> bytes) list \<Rightarrow> (bytes option \<times> bool) list" where
  "arrivals ds = map (\<lambda>(_, d). (Some d, True)) ds"

lemma arrivals_simps [simp]: "arrivals [] = []" "arrivals ((ep, d) # ds) = (Some d, True) # arrivals ds"
  by (simp_all add: arrivals_def)

lemma on_datagram_outbox:
  assumes "on_datagram env ep d True srv = Inr srv'"
  shows "\<exists>out. outbox srv' = outbox srv @ out \<and> length out \<le> 1"
  using holdsD [OF on_datagram_frame assms] by (auto simp: grows_def fits_def)

lemma download_is_get_loop:
  "download env ep k e dst d c srv = Inr (Some b, c', srv') \<Longrightarrow>
     (\<exists>out. outbox srv' = outbox srv @ out \<and> get_loop e dst (arrivals ((ep, d) # out)) c = Inr (Some b, c'))"
proof (induction k arbitrary: e d c srv)
  case (Suc k)
  obtain t c1 where t: "get_turn e dst (Some d) True c = Inr (t, c1)"
    using Suc.prems by (cases "get_turn e dst (Some d) True c") auto
  show ?case
  proof (cases "cl_sent c1 = cl_sent c")
    case True
    then show ?thesis using Suc.prems t by (cases t) auto
  next
    case False
    then obtain srv1 where s1: "on_datagram env ep (last (cl_sent c1)) True srv = Inr srv1"
      using Suc.prems t by (auto simp: resl_simps)
    obtain o1 where o1: "outbox srv1 = outbox srv @ o1" "length o1 \<le> 1" using on_datagram_outbox [OF s1] by blast
    show ?thesis
    proof (cases t)
      case (Return r)
      then show ?thesis using Suc.prems t False s1 o1 by simp
    next
      case (Continue e')
      then obtain x d' where o: "o1 = [(x, d')]" "download env ep k e' dst d' c1 srv1 = Inr (Some b, c', srv')"
        using Suc.prems t False s1 o1 by (cases o1) auto
      from Suc.IH [OF o(2)] obtain out where
        "outbox srv' = outbox srv1 @ out" "get_loop e' dst (arrivals ((ep, d') # out)) c1 = Inr (Some b, c')" by blast
      then show ?thesis using o1 o(1) t Continue by (intro exI [of _ "(x, d') # out"]) simp
    qed
  qed
qed simp

lemma upload_is_put_loop:
  "upload env ep k d p c srv = Inr (Some b, c', srv') \<Longrightarrow>
     (\<exists>out p'. outbox srv' = outbox srv @ out \<and> put_loop (arrivals ((ep, d) # out)) (p, c) = Inr (Some b, p', c'))"
proof (induction k arbitrary: d p c srv)
  case (Suc k)
  obtain t p1 c1 where t: "put_turn (Some d) True (p, c) = Inr (t, p1, c1)"
    using Suc.prems by (cases "put_turn (Some d) True (p, c)") auto
  show ?case
  proof (cases t)
    case (Put_Return r)
    then show ?thesis using Suc.prems t by auto
  next
    case Put_Continue
    then have ne: "cl_sent c1 \<noteq> cl_sent c" using Suc.prems t by (auto split: if_splits)
    then obtain srv1 where s1: "on_datagram env ep (last (cl_sent c1)) True srv = Inr srv1"
      using Suc.prems t Put_Continue by (auto simp: resl_simps)
    obtain o1 where o1: "outbox srv1 = outbox srv @ o1" "length o1 \<le> 1" using on_datagram_outbox [OF s1] by blast
    obtain x d' where o: "o1 = [(x, d')]" "upload env ep k d' p1 c1 srv1 = Inr (Some b, c', srv')"
      using Suc.prems t ne s1 o1 Put_Continue by (cases o1) auto
    from Suc.IH [OF o(2)] obtain out p' where
      "outbox srv' = outbox srv1 @ out" "put_loop (arrivals ((ep, d') # out)) (p1, c1) = Inr (Some b, p', c')" by blast
    then show ?thesis using o1 o(1) t Put_Continue by (intro exI [of _ "(x, d') # out"] exI [of _ p']) simp
  qed
qed simp

lemma download_file_is_getFile:
  assumes "download_file env ep k src dst c srv = Inr (Some b, c', srv')"
  shows "getFile True True src dst (arrivals (drop (length (outbox srv)) (outbox srv'))) c = Inr (Some b, c')"
proof -
  obtain go c1 where g: "get_request True True src dst c = Inr (go, c1)"
    using assms by (cases "get_request True True src dst c") (auto simp: download_file_def)
  then have go by (auto simp: get_request_def resl_simps)
  obtain srv1 where s1: "on_datagram env ep (last (cl_sent c1)) True srv = Inr srv1"
    using assms g by (auto simp: download_file_def resl_simps)
  obtain o1 where o1: "outbox srv1 = outbox srv @ o1" "length o1 \<le> 1" using on_datagram_outbox [OF s1] by blast
  obtain x d where o: "o1 = [(x, d)]" "download env ep k 0 dst d c1 srv1 = Inr (Some b, c', srv')"
    using assms g s1 o1 by (cases o1) (auto simp: download_file_def)
  obtain out where "outbox srv' = outbox srv1 @ out" "get_loop 0 dst (arrivals ((ep, d) # out)) c1 = Inr (Some b, c')"
    using download_is_get_loop [OF o(2)] by blast
  then show ?thesis using g \<open>go\<close> o1 o(1) by (simp add: getFile_def)
qed

lemma upload_file_is_putFile:
  assumes "upload_file env ep k src dst c srv = Inr (Some True, c', srv')"
  shows "putFile True src dst (arrivals (drop (length (outbox srv)) (outbox srv'))) c = Inr (Some True, c')"
proof -
  obtain go c1 where g: "put_request True src dst c = Inr (go, c1)"
    using assms by (cases "put_request True src dst c") (auto simp: upload_file_def)
  then obtain p where p: "go = Some p" using assms by (cases go) (auto simp: upload_file_def)
  obtain srv1 where s1: "on_datagram env ep (last (cl_sent c1)) True srv = Inr srv1"
    using assms g p by (auto simp: upload_file_def resl_simps)
  obtain o1 where o1: "outbox srv1 = outbox srv @ o1" "length o1 \<le> 1" using on_datagram_outbox [OF s1] by blast
  obtain x d where o: "o1 = [(x, d)]" "upload env ep k d p c1 srv1 = Inr (Some True, c', srv')"
    using assms g p s1 o1 by (cases o1) (auto simp: upload_file_def)
  obtain out p' where "outbox srv' = outbox srv1 @ out" "put_loop (arrivals ((ep, d) # out)) (p, c1) = Inr (Some True, p', c')"
    using upload_is_put_loop [OF o(2)] by blast
  then show ?thesis using g p o1 o(1) by (simp add: putFile_def)
qed

section \<open>The command line\<close>

text \<open>What the four operands say, and the two forms in which they are given.\<close>

definition command_line :: "TransferMode \<Rightarrow> string \<Rightarrow> string \<Rightarrow> string \<Rightarrow> string \<Rightarrow> string \<Rightarrow> string list" where
  "command_line m prog host cmd src dst =
     (case m of ASCII \<Rightarrow> [prog, host, cmd, src, dst] | Binary \<Rightarrow> [prog, ''-i'', host, cmd, src, dst])"

lemma parse_command_line:
  "parse_args (command_line m prog host cmd src dst) = Some (bind_res (uppercase cmd) (\<lambda>command. Inr (m = Binary, host, command, src, dst)))"
  by (cases m) (simp_all add: parse_args_def command_line_def rd_def)

lemma main_get:
  assumes "map toupper cmd = ''GET''" "address_ok host"
    and "getFile True True src dst evs (new_client nd m junk1 junk2 rm fs) = Inr (Some True, c')"
  shows "tftp_main nd address_ok True rm True evs junk1 junk2 (command_line m prog host cmd src dst) fs
    = Inr (Some 0, cl_files c')"
  using assms by (cases m) (simp_all add: tftp_main_def parse_command_line uppercase_ascii)

lemma main_put:
  assumes "map toupper cmd = ''PUT''" "address_ok host"
    and "putFile True src dst evs (new_client nd m junk1 junk2 rm fs) = Inr (Some True, c')"
  shows "tftp_main nd address_ok can_open rm True evs junk1 junk2 (command_line m prog host cmd src dst) fs
    = Inr (Some 0, cl_files c')"
  using assms by (cases m) (simp_all add: tftp_main_def parse_command_line uppercase_ascii)

lemma new_client_ok:
  assumes "length junk1 = BUFFER_SIZE" "length junk2 = BUFFER_SIZE"
  shows "client_ok (new_client nd m junk1 junk2 rm fs)" "ndebug (new_client nd m junk1 junk2 rm fs) = nd"
    "cl_mode (new_client nd m junk1 junk2 rm fs) = m" "cl_files (new_client nd m junk1 junk2 rm fs) = fs"
  using assms by (simp_all add: new_client_def client_ok_def)

section \<open>Properties\<close>

text \<open>C10: the TFTP programs together, in a debug build and over a network that loses nothing. The server's
  turns on a \<open>get\<close> command line (any case, with or without \<open>-i\<close>) produce a sequence of datagrams;
  the client program, run on exactly those datagrams, exits with status 0 and leaves the server's file under
  the destination name (without carriage returns unless \<open>-i\<close> was given) and every other file as it was.\<close>
theorem get_program_copies_file:
  assumes "length junk1 = BUFFER_SIZE" "length junk2 = BUFFER_SIZE"
    and "map toupper cmd = ''GET''" "address_ok host"
    and "length (recvBuffer srv) = BUFFER_SIZE" "sessions srv ep = None"
    and "plain_name src" "srv_files srv src = Some f"
  shows "\<exists>c' srv'. download_file env ep (Suc (length (pending_bytes m (False, f)) div 512)) src dst
      (new_client False m junk1 junk2 rm fs) srv = Inr (Some True, c', srv')
    \<and> srv_files srv' = srv_files srv
    \<and> tftp_main False address_ok True rm True (arrivals (drop (length (outbox srv)) (outbox srv'))) junk1 junk2
        (command_line m prog host cmd src dst) fs
      = Inr (Some 0, fs(dst \<mapsto> if m = Binary then f else filter (\<lambda>b. b \<noteq> CR) f))"
proof -
  let ?c = "new_client False m junk1 junk2 rm fs" and ?k = "Suc (length (pending_bytes m (False, f)) div 512)"
  note ok = new_client_ok [OF assms(1,2), of False m rm fs]
  obtain c' srv' where d: "download_file env ep ?k src dst ?c srv = Inr (Some True, c', srv')"
      "cl_files c' = fs(dst \<mapsto> stored_bytes m f)" "srv_files srv' = srv_files srv"
    using download_file_completes [of ?c srv ep src f ?k env dst] ok assms(5-8) by auto
  have eq: "stored_bytes m f = (if m = Binary then f else filter (\<lambda>b. b \<noteq> CR) f)"
    by (cases m) (simp_all add: stored_bytes_def)
  show ?thesis
    using d main_get [where address_ok = address_ok and prog = prog, OF assms(3,4) download_file_is_getFile [OF d(1)]] unfolding eq
    by (intro exI [of _ c'] exI [of _ srv']) simp
qed

theorem get_program_copies_file_witness:
  "\<exists>srv' :: tftp_server. srv_files srv' = [''f'' \<mapsto> [104, 13, 105, 10]]
    \<and> tftp_main False (\<lambda>_. True) True (\<lambda>_. True) True (arrivals (outbox srv')) (replicate 516 0) (replicate 516 0)
        [''tftp'', ''10.0.0.1'', ''get'', ''f'', ''g''] (\<lambda>_. None) = Inr (Some 0, [''g'' \<mapsto> [104, 105, 10]])"
  using get_program_copies_file [of "replicate 516 0" "replicate 516 0" "''get''" "\<lambda>_. True" "''10.0.0.1''"
      "sample_server [''f'' \<mapsto> [104, 13, 105, 10]]" "Endpoint 1 2" "''f''" "[104, 13, 105, 10]"
      sample_env ASCII "''g''" "\<lambda>_. True" "\<lambda>_. None" "''tftp''"]
  by (simp add: plain_name_def MAX_FILENAME_LENGTH_def BUFFER_SIZE_def command_line_def toupper_def
      char_of_def bit_simps sample_server_def new_tftp_server_def) blast

text \<open>C13: the upload counterpart: the client program, run on exactly the acknowledgements the server's
  turns produce, exits with status 0, its own files unchanged, and the server has the client's file under
  the new name as it is where \<open>-i\<close> was given, and without its carriage returns in the default mode.\<close>
theorem put_program_copies_file:
  assumes "length junk1 = BUFFER_SIZE" "length junk2 = BUFFER_SIZE"
    and "map toupper cmd = ''PUT''" "address_ok host"
    and "length (recvBuffer srv) = BUFFER_SIZE" "sessions srv ep = None"
    and "plain_name dst" "fs src = Some f" "srv_files srv dst = None" "good_env env dst"
  shows "\<exists>c' srv'. upload_file env ep (length (pending_bytes m (False, f)) div 512 + 2) src dst
      (new_client False m junk1 junk2 rm fs) srv = Inr (Some True, c', srv')
    \<and> srv_files srv' = (srv_files srv)(dst \<mapsto> if m = Binary then f else filter (\<lambda>b. b \<noteq> CR) f)
    \<and> tftp_main False address_ok can_open rm True (arrivals (drop (length (outbox srv)) (outbox srv'))) junk1 junk2
        (command_line m prog host cmd src dst) fs = Inr (Some 0, fs)"
proof -
  let ?c = "new_client False m junk1 junk2 rm fs" and ?k = "length (pending_bytes m (False, f)) div 512 + 2"
  note ok = new_client_ok [OF assms(1,2), of False m rm fs]
  obtain c' srv' where d: "upload_file env ep ?k src dst ?c srv = Inr (Some True, c', srv')"
      "cl_files c' = fs" "srv_files srv' = (srv_files srv)(dst \<mapsto> stored_bytes m f)"
    using upload_file_completes [of ?c srv ep dst src f env ?k] ok assms(5-10) by auto
  have eq: "stored_bytes m f = (if m = Binary then f else filter (\<lambda>b. b \<noteq> CR) f)"
    by (cases m) (simp_all add: stored_bytes_def)
  show ?thesis
    using d main_put [where address_ok = address_ok and prog = prog, OF assms(3,4) upload_file_is_putFile [OF d(1)]] unfolding eq
    by (intro exI [of _ c'] exI [of _ srv']) simp
qed

theorem put_program_copies_file_witness:
  "(\<exists>srv' :: tftp_server. srv_files srv' = [''g'' \<mapsto> [104, 13, 10]]
    \<and> tftp_main False (\<lambda>_. True) True (\<lambda>_. True) True (arrivals (outbox srv')) (replicate 516 0) (replicate 516 0)
        [''tftp'', ''-i'', ''10.0.0.1'', ''PUT'', ''f'', ''g''] [''f'' \<mapsto> [104, 13, 10]]
      = Inr (Some 0, [''f'' \<mapsto> [104, 13, 10]]))
   \<and> (\<exists>srv' :: tftp_server. srv_files srv' = [''g'' \<mapsto> [104, 10]]
    \<and> tftp_main False (\<lambda>_. True) True (\<lambda>_. True) True (arrivals (outbox srv')) (replicate 516 0) (replicate 516 0)
        [''tftp'', ''10.0.0.1'', ''put'', ''f'', ''g''] [''f'' \<mapsto> [104, 13, 10]]
      = Inr (Some 0, [''f'' \<mapsto> [104, 13, 10]]))"
proof -
  note sample = put_program_copies_file [of "replicate 516 0" "replicate 516 0" _ "\<lambda>_. True" "''10.0.0.1''"
      "sample_server (\<lambda>_. None)" "Endpoint 1 2" "''g''" "[''f'' \<mapsto> [104, 13, 10]]" "''f''" "[104, 13, 10]"
      sample_env _ "\<lambda>_. True" True "''tftp''"]
  note simps = plain_name_def MAX_FILENAME_LENGTH_def BUFFER_SIZE_def command_line_def toupper_def
      char_of_def bit_simps sample_server_def new_tftp_server_def
  show ?thesis
    using sample [of "''PUT''" Binary] sample [of "''put''" ASCII] by (simp add: simps) blast
qed

text \<open>A host that is not a numeric address makes the program fail with status -1 on either command,
  whatever the network does; but \<open>get\<close> has by then opened the destination for writing, so an
  existing file of that name is left empty, while \<open>put\<close> leaves every file alone. A third command word
  fails nothing: the program complains and exits with status 0.\<close>
theorem bad_host_and_bad_command:
  "(map toupper cmd = ''GET'' \<longrightarrow> \<not> address_ok host \<longrightarrow>
      tftp_main nd address_ok True rm send_ok evs junk1 junk2 (command_line m prog host cmd src dst) fs
        = Inr (Some (-1), fs(dst \<mapsto> [])))
   \<and> (map toupper cmd = ''PUT'' \<longrightarrow> \<not> address_ok host \<longrightarrow>
      tftp_main nd address_ok can_open rm send_ok evs junk1 junk2 (command_line m prog host cmd src dst) fs
        = Inr (Some (-1), fs))
   \<and> (map toupper cmd \<notin> {''GET'', ''PUT''} \<longrightarrow> (\<forall>c \<in> set cmd. toupper_ok c) \<longrightarrow>
      tftp_main nd address_ok can_open rm send_ok evs junk1 junk2 (command_line m prog host cmd src dst) fs
        = Inr (Some 0, fs))"
proof -
  have "uppercase cmd = Inr (map toupper cmd)"
    if "map toupper cmd \<in> {''GET'', ''PUT''} \<or> (\<forall>c \<in> set cmd. toupper_ok c)"
  proof -
    have "ascii ''GET''" "ascii ''PUT''" by simp_all
    then show ?thesis using that uppercase_ascii [of cmd] uppercase_eq [of cmd] by (metis empty_iff insert_iff)
  qed
  then show ?thesis
    by (cases "fs src") (simp_all add: tftp_main_def parse_command_line putFile_def put_request_def new_client_def)
qed

theorem bad_host_and_bad_command_witness:
  "tftp_main False (\<lambda>h. h \<noteq> ''localhost'') True (\<lambda>_. True) True [] [] [] [''tftp'', ''localhost'', ''GET'', ''f'', ''g'']
      [''g'' \<mapsto> [1, 2]] = Inr (Some (-1), [''g'' \<mapsto> []])
   \<and> tftp_main False (\<lambda>h. h \<noteq> ''localhost'') True (\<lambda>_. True) True [] [] [] [''tftp'', ''localhost'', ''PUT'', ''f'', ''g'']
      [''g'' \<mapsto> [1, 2]] = Inr (Some (-1), [''g'' \<mapsto> [1, 2]])
   \<and> tftp_main False (\<lambda>h. h \<noteq> ''localhost'') True (\<lambda>_. True) True [] [] [] [''tftp'', ''localhost'', ''DEL'', ''f'', ''g'']
      [''g'' \<mapsto> [1, 2]] = Inr (Some 0, [''g'' \<mapsto> [1, 2]])"
  using bad_host_and_bad_command [where cmd = "''GET''" and address_ok = "\<lambda>h. h \<noteq> ''localhost''" and host = "''localhost''"
      and nd = False and rm = "\<lambda>_. True" and send_ok = True and evs = "[]" and ?junk1.0 = "[]" and ?junk2.0 = "[]" and m = ASCII
      and prog = "''tftp''" and src = "''f''" and dst = "''g''" and fs = "[''g'' \<mapsto> [1, 2]]" and can_open = True]
    bad_host_and_bad_command [where cmd = "''PUT''" and address_ok = "\<lambda>h. h \<noteq> ''localhost''" and host = "''localhost''"
      and nd = False and rm = "\<lambda>_. True" and send_ok = True and evs = "[]" and ?junk1.0 = "[]" and ?junk2.0 = "[]" and m = ASCII
      and prog = "''tftp''" and src = "''f''" and dst = "''g''" and fs = "[''g'' \<mapsto> [1, 2]]" and can_open = True]
    bad_host_and_bad_command [where cmd = "''DEL''" and address_ok = "\<lambda>h. h \<noteq> ''localhost''" and host = "''localhost''"
      and nd = False and rm = "\<lambda>_. True" and send_ok = True and evs = "[]" and ?junk1.0 = "[]" and ?junk2.0 = "[]" and m = ASCII
      and prog = "''tftp''" and src = "''f''" and dst = "''g''" and fs = "[''g'' \<mapsto> [1, 2]]" and can_open = True]
  by (simp add: command_line_def upper_defs)

end
