(* ===== verification/TFTP_Bounds.thy ===== *)
theory TFTP_Bounds
  imports TFTP_Properties
begin

text \<open>
  Which datagrams make the TFTP server leave its receive buffer. A datagram overwrites the front of the
  buffer; the rest is what earlier datagrams, or nobody, left there, and the handlers read on into it.
\<close>

section \<open>The buffer of a handler\<close>

definition received_buffer :: "bytes \<Rightarrow> tftp_server \<Rightarrow> bytes" where
  "received_buffer d srv = overwrite (recvBuffer srv) 0 (take BUFFER_SIZE d)"

definition buffer_word :: "bytes \<Rightarrow> nat \<Rightarrow> u16" where
  "buffer_word buf i = join16 (buf ! (i + 1)) (buf ! i)"

text \<open>The two strings of a request: the first one ends in the buffer, and if it is not empty, so does the second.\<close>

definition strings_end :: "bytes \<Rightarrow> bool" where
  "strings_end buf \<longleftrightarrow> 0 \<in> set (drop 2 buf)
     \<and> (takeWhile (\<lambda>b. b \<noteq> 0) (drop 2 buf) = [] \<or> 0 \<in> set (drop (3 + length (takeWhile (\<lambda>b. b \<noteq> 0) (drop 2 buf))) buf))"

definition overreads :: "session option \<Rightarrow> bytes \<Rightarrow> nat \<Rightarrow> bool" where
  "overreads sess buf n \<longleftrightarrow>
     (let t = buffer_word buf 0 in
      case sess of
        None \<Rightarrow> (t = msg_code RRQ \<or> t = msg_code WRQ) \<and> \<not> strings_end buf
      | Some (Read_Session r) \<Rightarrow> t = msg_code RRQ \<and> \<not> strings_end buf
      | Some (Write_Session w) \<Rightarrow>
          t = msg_code WRQ \<and> \<not> strings_end buf
          \<or> t = msg_code DATA \<and> buffer_word buf 2 = blockCounter w + 1 \<and> n < 4 \<and> transferMode w = ASCII)"

lemma c_string_fault: "c_string buf i = Inl f \<longleftrightarrow> 0 \<notin> set (drop i buf) \<and> f = Out_Of_Bounds"
  by (auto simp: c_string_def)

text \<open>The part of both handlers that reads the two strings, with what follows never faulting.\<close>

lemma request_faults:
  assumes "\<exists>a. A = Inr a" "\<And>name mode. \<exists>b. B name mode = Inr b"
  shows "bind_res (c_string buf 2) (\<lambda>name. if name = [] then A
      else bind_res (c_string buf (2 + length name + 1)) (\<lambda>mode. B name mode)) = Inl f
    \<longleftrightarrow> \<not> strings_end buf \<and> f = Out_Of_Bounds"
proof (cases "c_string buf 2")
  case (Inl e)
  then have "e = Out_Of_Bounds" "\<not> strings_end buf" by (auto simp: c_string_fault strings_end_def)
  then show ?thesis unfolding Inl bind_res_Inl by auto
next
  case (Inr name)
  then have name: "0 \<in> set (drop 2 buf)" "name = of_bytes (takeWhile (\<lambda>b. b \<noteq> 0) (drop 2 buf))"
    by (auto simp: c_string_def split: if_splits)
  have empty: "of_bytes u = [] \<longleftrightarrow> u = []" for u by (simp add: of_bytes_def)
  have ends: "strings_end buf \<longleftrightarrow> name = [] \<or> 0 \<in> set (drop (2 + length name + 1) buf)"
    using name by (simp add: strings_end_def empty numeral_3_eq_3)
  have "name \<noteq> [] \<Longrightarrow> bind_res (c_string buf (2 + length name + 1)) (B name) = Inl f
      \<longleftrightarrow> 0 \<notin> set (drop (2 + length name + 1) buf) \<and> f = Out_Of_Bounds"
    using assms(2) [of name] c_string_fault [of buf "2 + length name + 1" f]
    by (cases "c_string buf (2 + length name + 1)") (metis bind_res_Inl, metis Inl_Inr_False bind_res_Inr)
  then show ?thesis unfolding Inr bind_res_Inr ends using assms(1) by auto
qed

lemma read_faults:
  assumes "length buf = BUFFER_SIZE"
  shows "read_onDataReceived fs buf s = Inl f \<longleftrightarrow> buffer_word buf 0 = msg_code RRQ \<and> \<not> strings_end buf \<and> f = Out_Of_Bounds"
proof -
  have rd: "rd_le16 buf 0 = Inr (buffer_word buf 0)" "rd_le16 buf 2 = Inr (buffer_word buf 2)"
    using assms by (simp_all add: buffer_word_def BUFFER_SIZE_def)
  show ?thesis
  proof (cases "buffer_word buf 0 = msg_code RRQ")
    case True
    then show ?thesis unfolding read_onDataReceived_def rd bind_res_Inr Let_def if_P [OF True]
      by (subst request_faults) (auto simp: split: option.split)
  next
    case False
    then show ?thesis by (auto simp: read_onDataReceived_def rd)
  qed
qed

lemma write_faults:
  assumes "length buf = BUFFER_SIZE" "n \<le> BUFFER_SIZE"
  shows "write_onDataReceived env buf n ok (s, fs) = Inl f \<longleftrightarrow>
    (buffer_word buf 0 = msg_code WRQ \<and> \<not> strings_end buf
     \<or> buffer_word buf 0 = msg_code DATA \<and> buffer_word buf 2 = blockCounter s + 1 \<and> n < 4 \<and> transferMode s = ASCII) \<and> f = Out_Of_Bounds"
proof -
  have rd: "rd_le16 buf 0 = Inr (buffer_word buf 0)" "rd_le16 buf 2 = Inr (buffer_word buf 2)"
    using assms(1) by (simp_all add: buffer_word_def BUFFER_SIZE_def)
  have range: "4 \<le> n \<Longrightarrow> rd_range buf 4 (n - 4) = Inr (take (n - 4) (drop 4 buf))"
    using assms by (simp add: rd_range_def)
  have codes: "msg_code WRQ \<noteq> msg_code DATA" by simp
  show ?thesis
  proof (cases "buffer_word buf 0 = msg_code WRQ")
    case True
    then have nd: "buffer_word buf 0 \<noteq> msg_code DATA" using codes by metis
    show ?thesis unfolding write_onDataReceived_def rd bind_res_Inr Let_def prod.case if_P [OF True]
      by (subst request_faults) (use True nd in \<open>auto simp: case_prod_unfold split: option.split\<close>)
  next
    case False
    then show ?thesis
      using range unfolding write_onDataReceived_def rd bind_res_Inr Let_def prod.case if_not_P [OF False]
      by (cases "n < 4") (auto simp: incrementBlockCounter_def not_less)
  qed
qed

lemma deliver_faults: "deliver env ep n ok sess srv = Inl f \<longleftrightarrow> onDataReceived env (recvBuffer srv) n ok sess (srv_files srv) = Inl f"
  by (auto simp: deliver_def bind_res_def split: sum.split)

text \<open>C36: exactly when the server reads outside its receive buffer. In a server whose buffer has its size, a datagram
  of any octets and any length faults only in these cases: a request, new or from a known peer with a session of that
  kind, one of whose two strings has no terminator up to the end of the buffer, stale octets included; and a DATA
  datagram shorter than its header that reaches a write session in netascii mode while the octets in the place of the
  block number, stale or not, are the number expected. Every other datagram is handled.\<close>
theorem overreads_exactly:
  assumes "length (recvBuffer srv) = BUFFER_SIZE"
  shows "on_datagram env ep d ok srv = Inl f \<longleftrightarrow>
    overreads (sessions srv ep) (received_buffer d srv) (min (length d) BUFFER_SIZE) \<and> f = Out_Of_Bounds"
proof -
  let ?buf = "received_buffer d srv" and ?n = "min (length d) BUFFER_SIZE"
  have len: "length ?buf = BUFFER_SIZE" using assms by (simp add: received_buffer_def)
  have rd: "rd_le16 ?buf 0 = Inr (buffer_word ?buf 0)" using len by (simp add: buffer_word_def BUFFER_SIZE_def)
  have n: "?n \<le> BUFFER_SIZE" by simp
  note r = read_faults [OF len] and w = write_faults [OF len n]
  have codes: "msg_code WRQ \<noteq> msg_code DATA" "msg_code RRQ \<noteq> msg_code WRQ" "msg_code RRQ \<noteq> msg_code DATA" by simp_all
  have bind: "bind_res x (\<lambda>(a, b). Inr (g a b)) = Inl f \<longleftrightarrow> x = Inl f" for x :: "('a \<times> 'b) resl" and g :: "'a \<Rightarrow> 'b \<Rightarrow> 'c"
    by (cases x) auto
  have bind_if: "bind_res x (\<lambda>(a, b). if p a then Inr (g a b) else Inr (h a b)) = Inl f \<longleftrightarrow> x = Inl f"
    for x :: "('a \<times> 'b) resl" and g h :: "'a \<Rightarrow> 'b \<Rightarrow> 'c" and p by (cases x) (auto split: if_splits)
  have on: "onDataReceived env ?buf ?n ok (Read_Session a) fs = Inl f \<longleftrightarrow> read_onDataReceived fs ?buf a = Inl f"
    "onDataReceived env ?buf ?n ok (Write_Session b) fs = Inl f \<longleftrightarrow> write_onDataReceived env ?buf ?n ok (b, fs) = Inl f" for a b fs
    by (auto simp: bind_res_def split: sum.split)
  show ?thesis
    unfolding on_datagram_def Let_def received_buffer_def [symmetric]
    using rd codes
    by (cases "sessions srv ep"; cases "the (sessions srv ep)")
      (auto simp: bind bind_if deliver_faults on r w overreads_def Let_def simp del: onDataReceived.simps)
qed

theorem overreads_exactly_witness:
  "on_datagram sample_env (Endpoint 1 2) (le16 (msg_code DATA)) True (uploading_server (Endpoint 1 2) 0xFFFF) = Inl Out_Of_Bounds
   \<and> on_datagram sample_env (Endpoint 1 2) (le16 (msg_code DATA) @ [7, 7]) True (uploading_server (Endpoint 1 2) 0xFFFF) \<noteq> Inl Out_Of_Bounds"
proof -
  let ?srv = "uploading_server (Endpoint 1 2) 0xFFFF"
  have len: "length (recvBuffer ?srv) = BUFFER_SIZE" using uploading_server_ok(1) by (simp add: tftp_inv_def)
  have buf: "received_buffer d ?srv = d @ drop (length d) (replicate 516 0)" if "length d \<le> 516" for d
    using that by (simp add: received_buffer_def uploading_server_def sample_server_def new_tftp_server_def overwrite_0_append BUFFER_SIZE_def)
  have b1: "received_buffer (le16 (msg_code DATA)) ?srv = [3, 0] @ replicate 514 0"
    using buf [of "le16 (msg_code DATA)"] by (simp add: le16_def)
  have b2: "received_buffer (le16 (msg_code DATA) @ [7, 7]) ?srv = [3, 0, 7, 7] @ replicate 512 0"
    using buf [of "le16 (msg_code DATA) @ [7, 7]"] by (simp add: le16_def)
  have words: "buffer_word ([3, 0] @ replicate 514 0) 0 = 3" "buffer_word ([3, 0] @ replicate 514 0) 2 = 0"
    "buffer_word ([3, 0, 7, 7] @ replicate 512 0) 0 = 3"
    by (simp_all add: buffer_word_def join16_def)
  obtain w where w: "sessions ?srv (Endpoint 1 2) = Some (Write_Session w)" "blockCounter w = 0xFFFF" "transferMode w = ASCII"
    by (simp add: uploading_server_def new_write_session_def)
  have "overreads (sessions ?srv (Endpoint 1 2)) (received_buffer (le16 (msg_code DATA)) ?srv) 2"
    unfolding b1 overreads_def words w(1) by (simp add: w(2,3))
  moreover have "\<not> overreads (sessions ?srv (Endpoint 1 2)) (received_buffer (le16 (msg_code DATA) @ [7, 7]) ?srv) 4"
    unfolding b2 overreads_def words w(1) by simp
  ultimately show ?thesis
    using overreads_exactly [OF len, of sample_env "Endpoint 1 2" "le16 (msg_code DATA)" True Out_Of_Bounds]
      overreads_exactly [OF len, of sample_env "Endpoint 1 2" "le16 (msg_code DATA) @ [7, 7]" True Out_Of_Bounds]
    by (simp add: BUFFER_SIZE_def)
qed

end
