(* ===== verification/TFTP_Adversary.thy ===== *)
theory TFTP_Adversary
  imports TFTP_Bounds
begin

text \<open>
  The TFTP client against any peer and any network: what has arrived, and what has been sent, when the client
  reports that a transfer is complete. Nothing is assumed of the datagrams, not even a length: a header that is cut
  short is completed by the octets that earlier datagrams left in the buffer, as the code reads it.
\<close>

section \<open>Datagrams as the client reads them\<close>

text \<open>What is heard of a datagram: the receive buffer once it has arrived, and the datagram.\<close>

type_synonym hearing = "bytes \<times> bytes"

definition arrived :: "bytes \<Rightarrow> bytes \<Rightarrow> bytes" where
  "arrived buf d = overwrite buf 0 (take BUFFER_SIZE d)"

fun heard :: "bytes \<Rightarrow> bytes list \<Rightarrow> hearing list" where
  "heard buf [] = []"
| "heard buf (d # ds) = (arrived buf d, d) # heard (arrived buf d) ds"

definition dg_type :: "hearing \<Rightarrow> u16" where
  "dg_type x = buffer_word (fst x) 0"

definition dg_number :: "hearing \<Rightarrow> u16" where
  "dg_number x = buffer_word (fst x) 2"

definition dg_payload :: "hearing \<Rightarrow> bytes" where
  "dg_payload x = take 512 (drop 4 (snd x))"

text \<open>The header is the datagram's own where the datagram has one.\<close>

lemma arrived_own:
  assumes "length buf = BUFFER_SIZE" "i + 2 \<le> length d" "i \<le> 2"
  shows "buffer_word (arrived buf d) i = buffer_word d i"
  using assms by (simp add: buffer_word_def arrived_def overwrite_0_append nth_append BUFFER_SIZE_def)

lemma heard_own:
  "length buf = BUFFER_SIZE \<Longrightarrow> x \<in> set (heard buf ds) \<Longrightarrow>
    (2 \<le> length (snd x) \<longrightarrow> dg_type x = buffer_word (snd x) 0) \<and> (4 \<le> length (snd x) \<longrightarrow> dg_number x = buffer_word (snd x) 2)"
proof (induction ds arbitrary: buf)
  case (Cons d ds)
  have "length (arrived buf d) = BUFFER_SIZE" using Cons.prems(1) by (simp add: arrived_def)
  with Cons show ?case by (auto simp: dg_type_def dg_number_def arrived_own)
qed simp

lemma received:
  assumes "client_ok c" "x = (arrived (recvBuf c) d, d)"
  shows "\<exists>c1. client_recv (Some d) c = (True, c1) \<and> client_ok c1 \<and> cl_files c1 = cl_files c \<and> cl_mode c1 = cl_mode c
    \<and> ndebug c1 = ndebug c \<and> cl_sent c1 = cl_sent c \<and> outFailed c1 = outFailed c \<and> can_remove c1 = can_remove c
    \<and> recvBuf c1 = fst x \<and> rd_le16 (recvBuf c1) 0 = Inr (dg_type x) \<and> rd_le16 (recvBuf c1) 2 = Inr (dg_number x)
    \<and> (recvBytesCount c1 < 4 \<longleftrightarrow> length d < 4)
    \<and> (4 \<le> length d \<longrightarrow> rd_range (recvBuf c1) 4 (recvBytesCount c1 - 4) = Inr (dg_payload x))"
proof -
  let ?d = "take BUFFER_SIZE d" and ?buf = "arrived (recvBuf c) d"
  have len: "length (recvBuf c) = BUFFER_SIZE" using assms(1) by (simp add: client_ok_def)
  have buf: "?buf = ?d @ drop (length ?d) (recvBuf c)" by (simp add: arrived_def overwrite_0_append)
  have lb: "length ?buf = BUFFER_SIZE" using len by (simp add: arrived_def)
  have "rd_le16 ?buf 0 = Inr (dg_type x)" "rd_le16 ?buf 2 = Inr (dg_number x)"
    using lb by (simp_all add: BUFFER_SIZE_def dg_type_def dg_number_def buffer_word_def assms(2))
  moreover have "4 \<le> length d \<Longrightarrow> rd_range ?buf 4 (min (length d) BUFFER_SIZE - 4) = Inr (dg_payload x)"
    using len unfolding buf by (auto simp: assms(2) rd_range_def dg_payload_def BUFFER_SIZE_def min_def drop_take)
  moreover have "min (length d) BUFFER_SIZE < 4 \<longleftrightarrow> length d < 4" by (auto simp: BUFFER_SIZE_def)
  ultimately show ?thesis
    using assms lb by (simp add: client_recv_def client_ok_def arrived_def [symmetric] del: rd_le16_ok)
qed

lemma sent_ok: "client_send msg ok c = Inr c' \<Longrightarrow> client_ok c \<Longrightarrow>
    client_ok c' \<and> cl_files c' = cl_files c \<and> cl_mode c' = cl_mode c \<and> ndebug c' = ndebug c
    \<and> (\<not> ndebug c \<longrightarrow> ok \<longrightarrow> cl_sent c' = cl_sent c @ [msg]) \<and> recvBuf c' = recvBuf c
    \<and> outFailed c' = outFailed c \<and> can_remove c' = can_remove c"
  by (auto simp: client_send_def client_ok_def Let_def split: if_splits)


section \<open>A download\<close>

definition dg_stored :: "TransferMode \<Rightarrow> hearing \<Rightarrow> bytes" where
  "dg_stored m x = (if dg_type x = msg_code DATA then stored_bytes m (dg_payload x) else [])"

text \<open>A block that ends the transfer, and a DATA datagram without a header of its own.\<close>

definition final_block :: "hearing \<Rightarrow> bool" where
  "final_block x \<longleftrightarrow> dg_type x = msg_code DATA \<and> 4 \<le> length (snd x) \<and> length (dg_payload x) < 512"

definition headless :: "hearing \<Rightarrow> bool" where
  "headless x \<longleftrightarrow> dg_type x = msg_code DATA \<and> length (snd x) < 4"

text \<open>What the stream takes: nothing once it has failed.\<close>

definition stored_from :: "bool \<Rightarrow> TransferMode \<Rightarrow> hearing list \<Rightarrow> bytes" where
  "stored_from failed m xs = (if failed then [] else concat (map (dg_stored m) (takeWhile (\<lambda>x. \<not> headless x) xs)))"

lemma stored_from_simps:
  "stored_from failed m [] = []"
  "stored_from failed m (x # xs) = (if failed \<or> headless x then [] else dg_stored m x @ stored_from False m xs)"
  by (auto simp: stored_from_def)

lemma append_file_simps: "append_file dst [] fs = fs" "f \<noteq> dst \<Longrightarrow> append_file dst d fs f = fs f"
  by (auto simp: append_file_def split: option.split)

lemma store_block_outcome:
  assumes "store_block dst c = Inr (l, c')" "client_ok c"
    and "recvBytesCount c < 4 \<longleftrightarrow> length (snd x) < 4" "dg_type x = msg_code DATA"
    and "4 \<le> length (snd x) \<longrightarrow> rd_range (recvBuf c) 4 (recvBytesCount c - 4) = Inr (dg_payload x)"
  shows "client_ok c' \<and> recvBuf c' = recvBuf c \<and> cl_mode c' = cl_mode c \<and> ndebug c' = ndebug c \<and> can_remove c' = can_remove c
    \<and> (outFailed c' \<longleftrightarrow> outFailed c \<or> headless x) \<and> (headless x \<longrightarrow> ndebug c \<and> cl_mode c = Binary)
    \<and> cl_files c' = append_file dst (stored_from (outFailed c) (cl_mode c) [x]) (cl_files c) \<and> (l \<longleftrightarrow> final_block x)"
proof (cases "length (snd x) < 4")
  case True
  then show ?thesis using assms
    by (cases "cl_mode c") (auto simp: store_block_def headless_def final_block_def stored_from_simps append_file_simps client_ok_def
        split: if_splits)
next
  case False
  then show ?thesis using assms
    by (auto simp: store_block_def headless_def final_block_def stored_from_simps append_file_simps client_ok_def dg_stored_def)
qed

text \<open>What one turn does, when it ends without a fault: it goes on or it succeeds, or the file is removed.\<close>

lemma get_turn_outcome:
  assumes "get_turn e dst a ok c = Inr (t, c')" "client_ok c"
  shows "(\<forall>f. f \<noteq> dst \<longrightarrow> cl_files c' f = cl_files c f) \<and> cl_mode c' = cl_mode c \<and> ndebug c' = ndebug c
    \<and> can_remove c' = can_remove c \<and> client_ok c'
    \<and> (t = Return False \<longrightarrow> a = None \<or> cl_files c' dst = None \<or> \<not> can_remove c dst)
    \<and> (t \<noteq> Return False \<longrightarrow> (\<exists>d x. a = Some d \<and> x = (arrived (recvBuf c) d, d) \<and> recvBuf c' = fst x
         \<and> dg_type x \<noteq> msg_code ERROR \<and> (outFailed c' \<longleftrightarrow> outFailed c \<or> headless x)
         \<and> (headless x \<longrightarrow> ndebug c \<and> cl_mode c = Binary)
         \<and> cl_files c' = append_file dst (stored_from (outFailed c) (cl_mode c) [x]) (cl_files c)
         \<and> (dg_type x = msg_code DATA \<longrightarrow> dg_number x = e + 1)
         \<and> t = (if final_block x then Return True else Continue (e + 1))))"
proof (cases a)
  case None
  then show ?thesis using assms by (auto simp: get_turn_def client_recv_def client_ok_def)
next
  case (Some d)
  define x where "x = (arrived (recvBuf c) d, d)"
  from received [OF assms(2) x_def] obtain c1 where c1: "client_recv (Some d) c = (True, c1)" "client_ok c1" "cl_files c1 = cl_files c"
    "cl_mode c1 = cl_mode c" "rd_le16 (recvBuf c1) 0 = Inr (dg_type x)" "rd_le16 (recvBuf c1) 2 = Inr (dg_number x)"
    and more: "ndebug c1 = ndebug c" "outFailed c1 = outFailed c" "can_remove c1 = can_remove c" "recvBuf c1 = fst x"
    and short: "recvBytesCount c1 < 4 \<longleftrightarrow> length (snd x) < 4"
    "4 \<le> length (snd x) \<longrightarrow> rd_range (recvBuf c1) 4 (recvBytesCount c1 - 4) = Inr (dg_payload x)"
    unfolding x_def snd_conv by blast
  note turn = assms(1) [unfolded get_turn_def Some c1(1) Let_def prod.case c1(5,6) bind_res_Inr simp_thms if_True if_False]
  have removed: "client_ok (removeOutFile dst c2)" "cl_files (removeOutFile dst c2) dst = None \<or> \<not> can_remove c2 dst"
    "f \<noteq> dst \<Longrightarrow> cl_files (removeOutFile dst c2) f = cl_files c2 f" "cl_mode (removeOutFile dst c2) = cl_mode c2"
    "ndebug (removeOutFile dst c2) = ndebug c2" "can_remove (removeOutFile dst c2) = can_remove c2" if "client_ok c2" for c2 f
    using that by (auto simp: removeOutFile_def client_ok_def)
  consider "dg_type x = msg_code ERROR" | "dg_type x = msg_code DATA" | "dg_type x \<noteq> msg_code ERROR" "dg_type x \<noteq> msg_code DATA"
    by blast
  then show ?thesis
  proof cases
    case 1
    then have "t = Return False" "c' = removeOutFile dst c1" using turn by (auto simp: bind_res_eq_Inr)
    then show ?thesis using removed [OF c1(2)] c1(3,4) more by simp
  next
    case 2
    then have ne: "dg_type x \<noteq> msg_code ERROR" by simp
    show ?thesis
    proof (cases "dg_number x = e + 1")
      case False
      then have "t = Return False" "c' = removeOutFile dst c1" using turn 2 by simp_all
      then show ?thesis using removed [OF c1(2)] c1(3,4) more by simp
    next
      case True
      from turn 2 True obtain l c2 c3 where b: "store_block dst c1 = Inr (l, c2)"
        and s: "client_send (ack_datagram (dg_number x)) ok c2 = Inr c3"
        and t: "(t, c') = (if \<not> ok then (Return False, removeOutFile dst c3)
          else if l then (Return True, c3) else (Continue (e + 1), c3))"
        by (auto simp: bind_res_eq_Inr split: if_splits)
      note c2 = store_block_outcome [OF b c1(2) short(1) 2 short(2)]
      note c3 = sent_ok [OF s conjunct1 [OF c2]]
      show ?thesis using t c3 c2 2 ne True removed [of c3] append_file_simps(2) [of _ dst] c1(3,4) more Some x_def
        by (auto split: if_splits)
    qed
  next
    case 3
    then have "t = Continue (e + 1)" "c' = c1" using turn by simp_all
    then show ?thesis using 3 c1 more Some x_def
      by (auto simp: headless_def final_block_def stored_from_simps dg_stored_def append_file_simps)
  qed
qed


text \<open>The arrivals of a download that succeeds: every one counts as a block, whatever its type.\<close>

definition block_sequence :: "u16 \<Rightarrow> hearing list \<Rightarrow> bool" where
  "block_sequence e xs \<longleftrightarrow> xs \<noteq> []
     \<and> (\<forall>i < length xs. dg_type (xs ! i) \<noteq> msg_code ERROR
         \<and> (dg_type (xs ! i) = msg_code DATA \<longrightarrow> dg_number (xs ! i) = e + of_nat (i + 1))
         \<and> (final_block (xs ! i) \<longleftrightarrow> i + 1 = length xs))"

lemma block_sequence_one:
  "dg_type x \<noteq> msg_code ERROR \<Longrightarrow> dg_type x = msg_code DATA \<longrightarrow> dg_number x = e + 1 \<Longrightarrow> final_block x \<Longrightarrow> block_sequence e [x]"
  by (simp add: block_sequence_def)

lemma block_sequence_Cons:
  assumes "block_sequence (e + 1) xs" "dg_type x \<noteq> msg_code ERROR" "dg_type x = msg_code DATA \<longrightarrow> dg_number x = e + 1"
    "\<not> final_block x"
  shows "block_sequence e (x # xs)"
  using assms unfolding block_sequence_def by (auto simp: nth_Cons add_ac split: nat.split)

text \<open>A list of arrivals that begins with the datagrams \<open>ds\<close>.\<close>

definition begins_with :: "(bytes option \<times> bool) list \<Rightarrow> bytes list \<Rightarrow> bool" where
  "begins_with evs ds \<longleftrightarrow> (\<exists>rest. map fst evs = map Some ds @ rest)"

lemma begins_with_simps [simp]: "begins_with evs []" "begins_with ((Some d, ok) # evs) (d' # ds) \<longleftrightarrow> d = d' \<and> begins_with evs ds"
  by (auto simp: begins_with_def)

lemma get_loop_outcome:
  "get_loop e dst evs c = Inr (Some r, c') \<Longrightarrow> client_ok c \<Longrightarrow> cl_files c dst = Some w \<Longrightarrow>
    (\<forall>f. f \<noteq> dst \<longrightarrow> cl_files c' f = cl_files c f)
    \<and> (\<not> r \<longrightarrow> cl_files c' dst = None \<or> None \<in> fst ` set evs \<or> \<not> can_remove c dst)
    \<and> (r \<longrightarrow> (\<exists>ds. begins_with evs ds \<and> block_sequence e (heard (recvBuf c) ds)
         \<and> (\<forall>x \<in> set (heard (recvBuf c) ds). headless x \<longrightarrow> ndebug c \<and> cl_mode c = Binary)
         \<and> cl_files c' dst = Some (w @ stored_from (outFailed c) (cl_mode c) (heard (recvBuf c) ds))))"
proof (induction evs arbitrary: e c w)
  case (Cons ev evs)
  obtain a ok where ev: "ev = (a, ok)" by fastforce
  then obtain t c1 where turn: "get_turn e dst a ok c = Inr (t, c1)"
    and go: "(case t of Return b \<Rightarrow> Inr (Some b, c1) | Continue e \<Rightarrow> get_loop e dst evs c1) = Inr (Some r, c')"
    using Cons.prems(1) by (auto simp: bind_res_eq_Inr)
  note o = get_turn_outcome [OF turn Cons.prems(2)]
  show ?case
  proof (cases "t = Return False")
    case True
    then show ?thesis using o go ev by auto
  next
    case False
    with o obtain d x where d: "a = Some d" "x = (arrived (recvBuf c) d, d)" "recvBuf c1 = fst x" "dg_type x \<noteq> msg_code ERROR"
      "outFailed c1 \<longleftrightarrow> outFailed c \<or> headless x" "headless x \<longrightarrow> ndebug c \<and> cl_mode c = Binary"
      "cl_files c1 = append_file dst (stored_from (outFailed c) (cl_mode c) [x]) (cl_files c)"
      "dg_type x = msg_code DATA \<longrightarrow> dg_number x = e + 1"
      "t = (if final_block x then Return True else Continue (e + 1))"
      by blast
    let ?w = "w @ stored_from (outFailed c) (cl_mode c) [x]"
    have f1: "cl_files c1 = (cl_files c)(dst \<mapsto> ?w)" using d(7) Cons.prems(3) by (simp add: append_file_def)
    have h: "heard (recvBuf c) (d # ds) = x # heard (recvBuf c1) ds" for ds using d(2,3) by simp
    show ?thesis
    proof (cases "final_block x")
      case True
      then have "block_sequence e [x]" using d(4,8) by (intro block_sequence_one)
      then show ?thesis using True d(1,2,6,9) go ev f1 by (auto intro!: exI [of _ "[d]"])
    next
      case more: False
      then have "get_loop (e + 1) dst evs c1 = Inr (Some r, c')" using d(9) go by auto
      from Cons.IH [OF this, of ?w] o f1
      have IH: "\<forall>f. f \<noteq> dst \<longrightarrow> cl_files c' f = cl_files c1 f"
        "\<not> r \<longrightarrow> cl_files c' dst = None \<or> None \<in> fst ` set evs \<or> \<not> can_remove c dst"
        "r \<longrightarrow> (\<exists>ds. begins_with evs ds \<and> block_sequence (e + 1) (heard (recvBuf c1) ds)
           \<and> (\<forall>x \<in> set (heard (recvBuf c1) ds). headless x \<longrightarrow> ndebug c \<and> cl_mode c = Binary)
           \<and> cl_files c' dst = Some (?w @ stored_from (outFailed c1) (cl_mode c) (heard (recvBuf c1) ds)))"
        by simp_all
      have "\<exists>ds. begins_with (ev # evs) ds \<and> block_sequence e (heard (recvBuf c) ds)
           \<and> (\<forall>x \<in> set (heard (recvBuf c) ds). headless x \<longrightarrow> ndebug c \<and> cl_mode c = Binary)
           \<and> cl_files c' dst = Some (w @ stored_from (outFailed c) (cl_mode c) (heard (recvBuf c) ds))" if r
      proof -
        from IH(3) that obtain ds where ds: "begins_with evs ds" "block_sequence (e + 1) (heard (recvBuf c1) ds)"
          "\<forall>x \<in> set (heard (recvBuf c1) ds). headless x \<longrightarrow> ndebug c \<and> cl_mode c = Binary"
          "cl_files c' dst = Some (?w @ stored_from (outFailed c1) (cl_mode c) (heard (recvBuf c1) ds))" by blast
        have "stored_from (outFailed c) (cl_mode c) [x] @ stored_from (outFailed c1) (cl_mode c) xs
            = stored_from (outFailed c) (cl_mode c) (x # xs)" for xs
          using d(5) by (simp add: stored_from_simps) (simp add: stored_from_def)
        with block_sequence_Cons [OF ds(2) d(4,8) more] ds d(1,6) ev show ?thesis
          unfolding h by (intro exI [of _ "d # ds"]) (auto simp: h simp del: heard.simps)
      qed
      then show ?thesis using IH(1,2) f1 by auto
    qed
  qed
qed simp

text \<open>C8: a download against any peer, whatever datagrams arrive: when \<open>getFile\<close> reports success, the arrivals begin with
  datagrams none of which is read as an error, those read as DATA carry their place in the arrivals as their block number,
  none but the last ends the transfer and the last is a DATA datagram with a payload of less than 512 octets, and the
  destination holds exactly the payloads in order. A header cut short is read with the octets left in the buffer; a DATA
  datagram without a whole header is accepted only by a build without assertions in binary mode, and there the destination
  holds only the payloads before it. When it reports failure the destination does not exist, unless it could not be opened,
  the request could not be sent, a receive failed or the file system refused to remove it: then a partial file stays. No
  other file changes.\<close>
theorem download_against_any_peer:
  assumes "getFile can_open send_ok src dst evs c = Inr (Some r, c')" "client_ok c"
  shows "(\<forall>f. f \<noteq> dst \<longrightarrow> cl_files c' f = cl_files c f)
    \<and> (\<not> r \<longrightarrow> cl_files c' dst = None \<or> \<not> can_open \<or> \<not> send_ok \<or> None \<in> fst ` set evs \<or> \<not> can_remove c dst)
    \<and> (r \<longrightarrow> (\<exists>ds. begins_with evs ds \<and> block_sequence 0 (heard (recvBuf c) ds)
         \<and> (\<forall>x \<in> set (heard (recvBuf c) ds). headless x \<longrightarrow> ndebug c \<and> cl_mode c = Binary)
         \<and> cl_files c' dst = Some (concat (map (dg_stored (cl_mode c)) (takeWhile (\<lambda>x. \<not> headless x) (heard (recvBuf c) ds))))))"
proof -
  let ?c1 = "c\<lparr>cl_files := (cl_files c)(dst \<mapsto> []), outFailed := False\<rparr>"
  have ok: "client_ok ?c1" using assms(2) by (simp add: client_ok_def)
  show ?thesis
  proof (cases can_open)
    case False
    then show ?thesis using assms(1) by (auto simp: getFile_def get_request_def)
  next
    case True
    then obtain c2 where s: "client_send (request_datagram RRQ src (cl_mode c)) send_ok ?c1 = Inr c2"
      and go: "(if send_ok then get_loop 0 dst evs c2 else Inr (Some False, c2)) = Inr (Some r, c')"
      using assms(1) by (auto simp: getFile_def get_request_def bind_res_eq_Inr Let_def)
    note c2 = sent_ok [OF s ok]
    show ?thesis
    proof (cases send_ok)
      case True
      then have "get_loop 0 dst evs c2 = Inr (Some r, c')" "cl_files c2 dst = Some []" using go c2 by simp_all
      from get_loop_outcome [OF this(1) _ this(2)] c2 show ?thesis by (auto simp: stored_from_def)
    qed (use go c2 in auto)
  qed
qed

definition sample_client :: tftp_client where
  "sample_client = new_client False Binary (replicate 516 0) (replicate 516 0) (\<lambda>_. True) (\<lambda>_. None)"

lemma sample_client_ok: "client_ok sample_client" "\<not> ndebug sample_client" "cl_mode sample_client = Binary"
    "length (recvBuf sample_client) = BUFFER_SIZE" "can_remove sample_client f"
  by (simp_all add: sample_client_def new_client_def client_ok_def BUFFER_SIZE_def)

lemma dg_data:
  assumes "length buf = BUFFER_SIZE" "length p \<le> 512"
  shows "dg_type (arrived buf (data_datagram b p), data_datagram b p) = msg_code DATA"
    "dg_number (arrived buf (data_datagram b p), data_datagram b p) = b"
    "dg_payload (arrived buf (data_datagram b p), data_datagram b p) = p"
proof -
  have "buffer_word (data_datagram b p) 0 = msg_code DATA" "buffer_word (data_datagram b p) 2 = b"
    using datagram_type(1) [of b p "[]"] datagram_block(1) [of b p "[]"] by (simp_all add: buffer_word_def)
  then show "dg_type (arrived buf (data_datagram b p), data_datagram b p) = msg_code DATA"
    "dg_number (arrived buf (data_datagram b p), data_datagram b p) = b"
    using arrived_own [OF assms(1), of _ "data_datagram b p"] by (simp_all add: dg_type_def dg_number_def)
  show "dg_payload (arrived buf (data_datagram b p), data_datagram b p) = p"
    using assms(2) by (simp add: dg_payload_def data_datagram_def le16_def)
qed

theorem download_against_any_peer_witness:
  "\<exists>c'. getFile True True ''a'' ''b'' [(Some (data_datagram 1 [7]), True)] sample_client = Inr (Some True, c')
     \<and> cl_files c' ''b'' = Some [7]"
proof -
  let ?evs = "[(Some (data_datagram 1 [7]), True)]"
  have "case getFile True True ''a'' ''b'' ?evs sample_client of Inr (r, _) \<Rightarrow> r = Some True | Inl _ \<Rightarrow> False" by code_simp
  then obtain c3 where run: "getFile True True ''a'' ''b'' ?evs sample_client = Inr (Some True, c3)"
    by (auto split: sum.splits)
  from download_against_any_peer [OF run sample_client_ok(1)]
  obtain ds where ds: "begins_with ?evs ds" "block_sequence 0 (heard (recvBuf sample_client) ds)"
    "\<forall>x \<in> set (heard (recvBuf sample_client) ds). headless x \<longrightarrow> ndebug sample_client \<and> cl_mode sample_client = Binary"
    "cl_files c3 ''b'' = Some (concat (map (dg_stored (cl_mode sample_client))
       (takeWhile (\<lambda>x. \<not> headless x) (heard (recvBuf sample_client) ds))))"
    by auto
  have "ds = [data_datagram 1 [7]]" using ds(1,2) by (cases ds) (auto simp: block_sequence_def begins_with_def)
  then have "cl_files c3 ''b'' = Some [7]"
    using ds(3,4) sample_client_ok(2,3) dg_data [OF sample_client_ok(4), of "[7]" 1] by (simp add: dg_stored_def stored_bytes_def)
  then show ?thesis using run by blast
qed


section \<open>An upload\<close>

definition acked :: "hearing list \<Rightarrow> u16 list" where
  "acked xs = map dg_number (filter (\<lambda>x. dg_type x = msg_code ACK) xs)"

definition blocks_left :: "bool \<Rightarrow> bytes \<Rightarrow> nat" where
  "blocks_left done q = (if done then 0 else length q div 512 + 1)"

definition block_datagrams :: "u16 \<Rightarrow> nat \<Rightarrow> bytes \<Rightarrow> bytes list" where
  "block_datagrams k n q = map (\<lambda>i. data_datagram (k + of_nat (i + 1)) (take 512 (drop (512 * i) q))) [0..<n]"

lemma blocks_left_Suc: "blocks_left False q = Suc (blocks_left (length q < 512) (drop 512 q))"
  by (simp add: blocks_left_def le_div_geq)

lemma map_upt_Suc': "map f [0..<Suc n] = f 0 # map (\<lambda>i. f (Suc i)) [0..<n]"
  by (simp add: upt_conv_Cons map_Suc_upt [symmetric] del: upt_Suc)

lemma block_datagrams_Suc: "block_datagrams k (Suc n) q = data_datagram (k + 1) (take 512 q) # block_datagrams (k + 1) n (drop 512 q)"
  unfolding block_datagrams_def map_upt_Suc' by (simp add: add_ac)

lemma put_turn_outcome:
  assumes "put_turn a ok (p, c) = Inr (t, p', c')" "client_ok c" "\<not> ndebug c" "t \<noteq> Put_Return False"
  shows "\<exists>d x. a = Some d \<and> x = (arrived (recvBuf c) d, d) \<and> recvBuf c' = fst x
    \<and> dg_type x \<noteq> msg_code ERROR \<and> client_ok c' \<and> \<not> ndebug c' \<and> cl_files c' = cl_files c \<and> cl_mode c' = cl_mode c
    \<and> (if dg_type x \<noteq> msg_code ACK then t = Put_Continue \<and> p' = p \<and> cl_sent c' = cl_sent c
       else dg_number x = currBlock p \<and>
         (if complete p then t = Put_Return True \<and> cl_sent c' = cl_sent c
          else let q = pending_bytes (cl_mode c) (put_lf p, put_rest p) in
            t = Put_Continue \<and> currBlock p' = currBlock p + 1 \<and> (complete p' \<longleftrightarrow> length q < 512)
            \<and> pending_bytes (cl_mode c) (put_lf p', put_rest p') = drop 512 q
            \<and> cl_sent c' = cl_sent c @ [data_datagram (currBlock p + 1) (take 512 q)]))"
proof (cases a)
  case None
  then show ?thesis using assms(1,4) by (auto simp: put_turn_def client_recv_def)
next
  case (Some d)
  define x where "x = (arrived (recvBuf c) d, d)"
  from received [OF assms(2) x_def] obtain c1 where c1: "client_recv (Some d) c = (True, c1)" "client_ok c1" "cl_files c1 = cl_files c"
    "cl_mode c1 = cl_mode c" "rd_le16 (recvBuf c1) 0 = Inr (dg_type x)" "rd_le16 (recvBuf c1) 2 = Inr (dg_number x)"
    "ndebug c1 = ndebug c" "cl_sent c1 = cl_sent c" "recvBuf c1 = fst x"
    by blast
  note turn = assms(1) [unfolded put_turn_def Some c1(1) Let_def prod.case c1(5,6) bind_res_Inr simp_thms if_True if_False c1(4)]
  have ne: "dg_type x \<noteq> msg_code ERROR" using turn assms(4) by (auto simp: bind_res_eq_Inr)
  note turn = turn [unfolded if_not_P [OF ne]]
  show ?thesis
  proof (cases "dg_type x = msg_code ACK \<and> \<not> complete p")
    case False
    then show ?thesis using turn assms(3,4) c1 Some ne x_def
      by (intro exI [of _ d] exI [of _ x]) (auto split: if_splits)
  next
    case True
    obtain b lf r where rb: "read_block (cl_mode c) (put_lf p, put_rest p) = (b, lf, r)" by (metis prod_cases3)
    note blk = read_block_pending [of "cl_mode c" "(put_lf p, put_rest p)", unfolded rb fst_conv snd_conv]
    have num: "dg_number x = currBlock p" using turn True assms(4) by (auto split: if_splits)
    from turn True num obtain c2 where s: "client_send (data_datagram (currBlock p + 1) b) ok c1 = Inr c2"
      and t: "p' = p\<lparr>currBlock := currBlock p + 1, put_lf := lf, put_rest := r, complete := length b < 512\<rparr>" "c' = c2"
        "ok" "t = Put_Continue"
      using assms(4) by (auto simp: rb bind_res_eq_Inr split: if_splits)
    show ?thesis using sent_ok [OF s c1(2)] t blk True num c1 Some assms(3) ne x_def
      by (intro exI [of _ d] exI [of _ x]) (auto simp: Let_def min_def)
  qed
qed

lemma put_loop_outcome:
  "put_loop evs (p, c) = Inr (Some True, p', c') \<Longrightarrow> client_ok c \<Longrightarrow> \<not> ndebug c \<Longrightarrow>
    q = pending_bytes (cl_mode c) (put_lf p, put_rest p) \<Longrightarrow> n = blocks_left (complete p) q \<Longrightarrow>
    \<exists>ds. begins_with evs ds \<and> (\<forall>x \<in> set (heard (recvBuf c) ds). dg_type x \<noteq> msg_code ERROR)
      \<and> acked (heard (recvBuf c) ds) = map (\<lambda>i. currBlock p + of_nat i) [0..<Suc n] \<and> cl_files c' = cl_files c
      \<and> cl_sent c' = cl_sent c @ block_datagrams (currBlock p) n q"
proof (induction evs arbitrary: p c q n)
  case (Cons ev evs)
  obtain a ok where ev: "ev = (a, ok)" by fastforce
  then obtain t p1 c1 where turn: "put_turn a ok (p, c) = Inr (t, p1, c1)"
    and go: "(case t of Put_Return b \<Rightarrow> Inr (Some b, p1, c1) | Put_Continue \<Rightarrow> put_loop evs (p1, c1)) = Inr (Some True, p', c')"
    using Cons.prems(1) by (auto simp: bind_res_eq_Inr)
  have t: "t \<noteq> Put_Return False" using go by auto
  obtain d x where d: "a = Some d" "dg_type x \<noteq> msg_code ERROR" "client_ok c1" "\<not> ndebug c1" "cl_files c1 = cl_files c" "cl_mode c1 = cl_mode c"
    and x: "x = (arrived (recvBuf c) d, d)" "recvBuf c1 = fst x"
    and o: "if dg_type x \<noteq> msg_code ACK then t = Put_Continue \<and> p1 = p \<and> cl_sent c1 = cl_sent c
       else dg_number x = currBlock p \<and>
         (if complete p then t = Put_Return True \<and> cl_sent c1 = cl_sent c
          else t = Put_Continue \<and> currBlock p1 = currBlock p + 1 \<and> (complete p1 \<longleftrightarrow> length q < 512)
            \<and> pending_bytes (cl_mode c) (put_lf p1, put_rest p1) = drop 512 q
            \<and> cl_sent c1 = cl_sent c @ [data_datagram (currBlock p + 1) (take 512 q)])"
    using put_turn_outcome [OF turn Cons.prems(2,3) t, unfolded Let_def, folded Cons.prems(4)] by blast
  have h: "heard (recvBuf c) (d # ds) = x # heard (recvBuf c1) ds" for ds using x by simp
  have ack: "acked (x # xs) = (if dg_type x = msg_code ACK then dg_number x # acked xs else acked xs)" for xs
    by (simp add: acked_def)
  consider (other) "dg_type x \<noteq> msg_code ACK" | (last) "dg_type x = msg_code ACK" "complete p" | (block) "dg_type x = msg_code ACK" "\<not> complete p"
    by blast
  then show ?case
  proof cases
    case other
    with o go have run: "put_loop evs (p, c1) = Inr (Some True, p', c')" and s: "cl_sent c1 = cl_sent c" by simp_all
    have "q = pending_bytes (cl_mode c1) (put_lf p, put_rest p)" using d(6) Cons.prems(4) by simp
    from Cons.IH [OF run d(3,4) this Cons.prems(5), unfolded s d(5)]
    obtain ds where "begins_with evs ds" "\<forall>x \<in> set (heard (recvBuf c1) ds). dg_type x \<noteq> msg_code ERROR"
      "acked (heard (recvBuf c1) ds) = map (\<lambda>i. currBlock p + of_nat i) [0..<Suc n]" "cl_files c' = cl_files c"
      "cl_sent c' = cl_sent c @ block_datagrams (currBlock p) n q" by blast
    then show ?thesis using other d(1,2) ev
      by (intro exI [of _ "d # ds"]) (simp add: h ack del: heard.simps upt_Suc)
  next
    case last
    with o go have "c' = c1" "cl_sent c1 = cl_sent c" "dg_number x = currBlock p" by simp_all
    then show ?thesis using last d(1,2,5) ev Cons.prems(5) h [of "[]"]
      by (intro exI [of _ "[d]"]) (simp add: acked_def blocks_left_def block_datagrams_def del: heard.simps(2))
  next
    case block
    let ?n = "blocks_left (complete p1) (drop 512 q)"
    from block o go have run: "put_loop evs (p1, c1) = Inr (Some True, p', c')" and p1: "currBlock p1 = currBlock p + 1"
      "complete p1 \<longleftrightarrow> length q < 512" "drop 512 q = pending_bytes (cl_mode c1) (put_lf p1, put_rest p1)"
      "cl_sent c1 = cl_sent c @ [data_datagram (currBlock p + 1) (take 512 q)]" "dg_number x = currBlock p"
      using d(6) by simp_all
    have n: "n = Suc ?n" using Cons.prems(5) block(2) p1(2) blocks_left_Suc [of q] by simp
    from Cons.IH [OF run d(3,4) p1(3) refl] obtain ds where ds: "begins_with evs ds"
      "\<forall>x \<in> set (heard (recvBuf c1) ds). dg_type x \<noteq> msg_code ERROR"
      "acked (heard (recvBuf c1) ds) = map (\<lambda>i. currBlock p1 + of_nat i) [0..<Suc ?n]"
      "cl_files c' = cl_files c1" "cl_sent c' = cl_sent c1 @ block_datagrams (currBlock p1) ?n (drop 512 q)" by blast
    have "acked (heard (recvBuf c) (d # ds)) = map (\<lambda>i. currBlock p + of_nat i) [0..<Suc n]"
      unfolding n map_upt_Suc' [of _ "Suc ?n"] h ack using ds(3) block(1) p1(1,5) by (simp add: add_ac del: upt_Suc)
    then show ?thesis using ds d ev block_datagrams_Suc [of "currBlock p" ?n q] p1(1,4)
      by (intro exI [of _ "d # ds"]) (simp add: n h del: upt_Suc heard.simps(2))
  qed
qed simp


lemma payloads_of_blocks: "concat (map (drop 4) (block_datagrams k n q)) = take (512 * n) q"
proof -
  have "map (drop 4) (block_datagrams k n q) = map (\<lambda>i. take 512 (drop (512 * i) q)) [0..<n]"
    by (simp add: block_datagrams_def data_datagram_def le16_def comp_def)
  also have "concat \<dots> = take (512 * n) q"
    by (induction n) (simp_all add: take_add add.commute [of 512])
  finally show ?thesis .
qed

text \<open>C9: an upload against any peer, whatever datagrams arrive: when \<open>putFile\<close> of a debug build reports success, it has sent
  the request and then exactly the blocks of the file, numbered from one, and the arrivals begin with datagrams none of which is
  read as an error and whose acknowledgements, as they are read, are numbered from zero to the last block, each number once and
  in order. An acknowledgement cut short is read with the octets left in the buffer, so it counts for whatever number stands
  there; one of four octets or more acknowledges its own number. No file has changed.\<close>
theorem upload_against_any_peer:
  assumes "putFile send_ok src dst evs c = Inr (Some True, c')" "client_ok c" "\<not> ndebug c"
  shows "\<exists>d ds n. cl_files c src = Some d \<and> n = length (pending_bytes (cl_mode c) (False, d)) div 512 + 1
    \<and> begins_with evs ds \<and> (\<forall>x \<in> set (heard (recvBuf c) ds). dg_type x \<noteq> msg_code ERROR
        \<and> (4 \<le> length (snd x) \<longrightarrow> dg_number x = buffer_word (snd x) 2))
    \<and> acked (heard (recvBuf c) ds) = map of_nat [0..<n + 1] \<and> cl_files c' = cl_files c
    \<and> cl_sent c' = cl_sent c @ request_datagram WRQ dst (cl_mode c)
        # block_datagrams 0 n (pending_bytes (cl_mode c) (False, d))
    \<and> concat (map (drop 4) (block_datagrams 0 n (pending_bytes (cl_mode c) (False, d)))) = pending_bytes (cl_mode c) (False, d)"
proof -
  obtain d c1 p' where d: "cl_files c src = Some d" and s: "client_send (request_datagram WRQ dst (cl_mode c)) send_ok c = Inr c1"
    and loop: "put_loop evs (\<lparr>currBlock = 0, complete = False, put_lf = False, put_rest = d\<rparr>, c1) = Inr (Some True, p', c')"
    and ok: send_ok
    using assms(1) by (auto simp: putFile_def put_request_def bind_res_eq_Inr split: option.splits if_splits)
  note c1 = sent_ok [OF s assms(2)]
  let ?q = "pending_bytes (cl_mode c) (False, d)"
  have n: "blocks_left False ?q = length ?q div 512 + 1" by (simp add: blocks_left_def)
  obtain ds where ds: "begins_with evs ds" "\<forall>x \<in> set (heard (recvBuf c) ds). dg_type x \<noteq> msg_code ERROR"
    "acked (heard (recvBuf c) ds) = map (\<lambda>i. 0 + of_nat i) [0..<Suc (blocks_left False ?q)]" "cl_files c' = cl_files c"
    "cl_sent c' = cl_sent c1 @ block_datagrams 0 (blocks_left False ?q) ?q"
    using put_loop_outcome [OF loop _ _ refl refl] c1 assms(3) by auto
  have own: "\<forall>x \<in> set (heard (recvBuf c) ds). 4 \<le> length (snd x) \<longrightarrow> dg_number x = buffer_word (snd x) 2"
    using heard_own [of "recvBuf c" _ ds] assms(2) by (auto simp: client_ok_def)
  have "length ?q \<le> 512 * blocks_left False ?q" using dividend_less_times_div [of 512 "length ?q"] by (simp add: n)
  then have "concat (map (drop 4) (block_datagrams 0 (blocks_left False ?q) ?q)) = ?q"
    by (simp add: payloads_of_blocks)
  with ds own d c1 ok assms(3) n show ?thesis
    by (intro exI [of _ d] exI [of _ ds] exI [of _ "blocks_left False ?q"]) (simp del: upt_Suc)
qed


text \<open>The last acknowledgement here has two octets; its number is that of the stray datagram before it.\<close>

theorem upload_against_any_peer_witness:
  "\<exists>c'. putFile True ''a'' ''b'' [(Some (ack_datagram 0), True), (Some [9, 9, 1, 0], True), (Some (le16 (msg_code ACK)), True)]
       (sample_client\<lparr>cl_files := [''a'' \<mapsto> [7]]\<rparr>) = Inr (Some True, c')
     \<and> cl_sent c' = [request_datagram WRQ ''b'' Binary, data_datagram 1 [7]]"
proof -
  let ?evs = "[(Some (ack_datagram 0), True), (Some [9, 9, 1, 0], True), (Some (le16 (msg_code ACK)), True)]"
  let ?c = "sample_client\<lparr>cl_files := [''a'' \<mapsto> [7]]\<rparr>"
  have c: "client_ok ?c" "\<not> ndebug ?c" "cl_mode ?c = Binary" using sample_client_ok by (simp_all add: client_ok_def)
  have "case putFile True ''a'' ''b'' ?evs ?c of Inr (r, _) \<Rightarrow> r = Some True | Inl _ \<Rightarrow> False" by code_simp
  then obtain c' where run: "putFile True ''a'' ''b'' ?evs ?c = Inr (Some True, c')"
    by (auto split: sum.splits)
  from upload_against_any_peer [OF run c(1,2)] obtain d n where "[''a'' \<mapsto> [7]] ''a'' = Some d"
    "n = length (pending_bytes Binary (False, d)) div 512 + 1"
    "cl_sent c' = cl_sent ?c @ request_datagram WRQ ''b'' Binary # block_datagrams 0 n (pending_bytes Binary (False, d))"
    unfolding c(3) by auto
  then have "cl_sent c' = [request_datagram WRQ ''b'' Binary, data_datagram 1 [7]]"
    by (auto simp: pending_bytes_def block_datagrams_def sample_client_def new_client_def)
  with run show ?thesis by blast
qed

end
