(* ===== verification/File_System.thy ===== *)
theory File_System
  imports Std_String
begin

text \<open>
  What the SMTP and FTP servers use of \<open>std::experimental::filesystem\<close> and of \<open>std::ofstream\<close>.
  A path is its text; two spellings of a path are two names. The state is the regular files
  with their contents and the directories; which files may be created, and for which paths the
  status query fails (and the throwing overloads throw), are answers of the environment.
\<close>

section \<open>Paths\<close>

text \<open>\<open>operator/\<close> of the Filesystem TS: a separator only where none is.\<close>

definition path_append :: "string \<Rightarrow> string \<Rightarrow> string" where
  "path_append a b =
     (if a \<noteq> [] \<and> last a \<noteq> CHR ''/'' \<and> b \<noteq> [] \<and> hd b \<noteq> CHR ''/'' then a @ ''/'' @ b else a @ b)"

text \<open>\<open>filename()\<close>: what follows the last separator.\<close>

definition path_filename :: "string \<Rightarrow> string" where
  "path_filename p = (case rfind_char (CHR ''/'') p of None \<Rightarrow> p | Some i \<Rightarrow> drop (i + 1) p)"

text \<open>
  \<open>parent_path()\<close> joins all components but the last: the root, the names, and \<open>.\<close> for a
  trailing separator. (Names starting with exactly two separators are not treated apart.)
\<close>

definition path_components :: "string \<Rightarrow> string list" where
  "path_components p =
     (let names = filter (\<lambda>x. x \<noteq> []) (getline_split (CHR ''/'') p)
      in (if p \<noteq> [] \<and> hd p = CHR ''/'' then [''/''] else []) @ names
         @ (if names \<noteq> [] \<and> last p = CHR ''/'' then [''.''] else []))"

definition parent_path :: "string \<Rightarrow> string" where
  "parent_path p =
     (let cs = path_components p in if length cs < 2 then [] else fold (\<lambda>c a. path_append a c) (butlast cs) [])"

lemma path_append_simple [simp]:
  "a \<noteq> [] \<Longrightarrow> last a \<noteq> CHR ''/'' \<Longrightarrow> b \<noteq> [] \<Longrightarrow> hd b \<noteq> CHR ''/'' \<Longrightarrow> path_append a b = a @ ''/'' @ b"
  by (simp add: path_append_def)

lemma path_append_Nil [simp]: "path_append a [] = a"
  by (simp add: path_append_def)

lemma path_filename_append:
  assumes "CHR ''/'' \<notin> set b" "a \<noteq> []" "b \<noteq> []"
  shows "path_filename (path_append a b) = b"
proof (cases "last a = CHR ''/''")
  case True
  then obtain a' where a: "a = a' @ ''/''" using assms(2) by (metis append_butlast_last_id)
  then show ?thesis using assms by (simp add: path_append_def path_filename_def)
next
  case False
  then show ?thesis using assms by (cases b) (auto simp: path_append_def path_filename_def)
qed

section \<open>State\<close>

record fsys =
  fs_files :: "string \<Rightarrow> bytes option"
  fs_dirs :: "string \<Rightarrow> bool"
  fs_creatable :: "string \<Rightarrow> bool"
  fs_denied :: "string \<Rightarrow> bool"

definition fs_exists :: "fsys \<Rightarrow> string \<Rightarrow> bool" where
  "fs_exists fs p \<longleftrightarrow> fs_files fs p \<noteq> None \<or> fs_dirs fs p"

definition fs_is_directory :: "fsys \<Rightarrow> string \<Rightarrow> bool" where
  "fs_is_directory fs p \<longleftrightarrow> fs_files fs p = None \<and> fs_dirs fs p"

definition set_file :: "string \<Rightarrow> bytes \<Rightarrow> fsys \<Rightarrow> fsys" where
  "set_file p d fs = fs\<lparr>fs_files := (fs_files fs)(p \<mapsto> d)\<rparr>"

definition fs_remove :: "string \<Rightarrow> fsys \<Rightarrow> fsys" where
  "fs_remove p fs = fs\<lparr>fs_files := (fs_files fs)(p := None)\<rparr>"

text \<open>
  \<open>copy(from, to, ec)\<close> with no options, for a regular file: into a directory under its own name,
  and never over an existing file. An error leaves the file system as it is.
\<close>

definition fs_copy :: "string \<Rightarrow> string \<Rightarrow> fsys \<Rightarrow> fsys" where
  "fs_copy src dst fs =
     (case fs_files fs src of
        None \<Rightarrow> fs
      | Some d \<Rightarrow>
          let target = (if fs_is_directory fs dst then path_append dst (path_filename src) else dst)
          in if fs_exists fs target \<or> \<not> fs_creatable fs target then fs else set_file target d fs)"

section \<open>Output streams\<close>

record ofstream =
  of_path :: "string option"
  of_bad :: bool

definition of_closed :: ofstream where
  "of_closed = \<lparr>of_path = None, of_bad = False\<rparr>"

text \<open>\<open>open\<close> truncates; on a stream that is already open it fails and leaves the file open.\<close>

definition of_open :: "string \<Rightarrow> ofstream \<times> fsys \<Rightarrow> ofstream \<times> fsys" where
  "of_open p sf =
     (let (os, fs) = sf in
      if of_path os \<noteq> None \<or> \<not> fs_creatable fs p \<or> fs_is_directory fs p then (os\<lparr>of_bad := True\<rparr>, fs)
      else (os\<lparr>of_path := Some p, of_bad := False\<rparr>, set_file p [] fs))"

definition of_write :: "bytes \<Rightarrow> ofstream \<times> fsys \<Rightarrow> ofstream \<times> fsys" where
  "of_write d sf =
     (let (os, fs) = sf in
      case of_path os of
        None \<Rightarrow> (os\<lparr>of_bad := True\<rparr>, fs)
      | Some p \<Rightarrow> if of_bad os then (os, fs)
                  else (case fs_files fs p of None \<Rightarrow> (os, fs) | Some old \<Rightarrow> (os, set_file p (old @ d) fs)))"

definition of_close :: "ofstream \<Rightarrow> ofstream" where
  "of_close os = (if of_path os = None then os\<lparr>of_bad := True\<rparr> else os\<lparr>of_path := None\<rparr>)"

lemma set_file_simps [simp]:
  "fs_files (set_file p d fs) = (fs_files fs)(p \<mapsto> d)" "fs_dirs (set_file p d fs) = fs_dirs fs"
  "fs_creatable (set_file p d fs) = fs_creatable fs" "fs_denied (set_file p d fs) = fs_denied fs"
  by (simp_all add: set_file_def)

lemma fs_remove_simps [simp]:
  "fs_files (fs_remove p fs) = (fs_files fs)(p := None)" "fs_dirs (fs_remove p fs) = fs_dirs fs"
  "fs_creatable (fs_remove p fs) = fs_creatable fs" "fs_denied (fs_remove p fs) = fs_denied fs"
  by (simp_all add: fs_remove_def)

text \<open>Writing chunks to a fresh stream leaves their concatenation in the file.\<close>

lemma of_write_open:
  "fs_files fs p = Some old \<Longrightarrow> of_write d (\<lparr>of_path = Some p, of_bad = False\<rparr>, fs)
     = (\<lparr>of_path = Some p, of_bad = False\<rparr>, set_file p (old @ d) fs)"
  by (simp add: of_write_def)

lemma of_write_closed: "of_path os = None \<Longrightarrow> of_write d (os, fs) = (os\<lparr>of_bad := True\<rparr>, fs)"
  by (simp add: of_write_def)

lemma fs_copy_into_directory:
  assumes "fs_files fs src = Some d" "fs_is_directory fs dst"
    and "\<not> fs_exists fs (path_append dst (path_filename src))" "fs_creatable fs (path_append dst (path_filename src))"
  shows "fs_copy src dst fs = set_file (path_append dst (path_filename src)) d fs"
  using assms by (simp add: fs_copy_def Let_def)

lemma fs_copy_missing: "fs_files fs src = None \<Longrightarrow> fs_copy src dst fs = fs"
  by (simp add: fs_copy_def)

end
