(* ===== verification/SMTP_Session.thy ===== *)
theory SMTP_Session
  imports File_System Machines
begin

text \<open>
  \<open>smtp/server: SMTPSession\<close>. The session's members are the record, the one asynchronous
  operation it has outstanding is the field \<open>pending\<close>: the code starts the next read or write
  at the end of a handler, or forgets to. A handler maps the session and the file system to
  their new values; a fault is an access outside the buffer or a failed assertion.
\<close>

section \<open>State\<close>

datatype Command = Cmd_Undefined | Helo | MailFrom | RcptTo | Data | Rset | Vrfy | Noop | Quit

definition MAX_RCPT_ALLOWED :: nat where
  "MAX_RCPT_ALLOWED = 100"

definition COMMAND_BUFFER_SIZE :: nat where
  "COMMAND_BUFFER_SIZE = 512"

datatype pending = Idle | Reading | Writing nat | Closed

record smtp_session =
  s_id :: u32
  s_buffer :: bytes
  s_length :: nat
  receiveMessage :: bool
  returnAddress :: string
  recipients :: "(string \<times> string) list"
  rcptCount :: u8
  lastCommand :: Command
  messagePath :: string
  messageOut :: ofstream
  unknownRecipients :: "string list"
  s_pending :: pending
  s_replies :: "string list"

definition mailboxesRoot :: string where
  "mailboxesRoot = ''./mailboxes''"

definition new_smtp_session :: "u32 \<Rightarrow> bytes \<Rightarrow> smtp_session" where
  "new_smtp_session i junk = \<lparr>s_id = i, s_buffer = junk, s_length = 0, receiveMessage = False,
     returnAddress = [], recipients = replicate MAX_RCPT_ALLOWED ([], []), rcptCount = 0,
     lastCommand = Cmd_Undefined, messagePath = [], messageOut = of_closed, unknownRecipients = [],
     s_pending = Idle, s_replies = []\<rparr>"

type_synonym smtp_io = "smtp_session \<times> fsys"

section \<open>Responses\<close>

definition response_text :: "nat \<Rightarrow> string option" where
  "response_text code =
     (if code = 220 then Some ('' smtp.localhost.localdomain Simple Mail Transfer Service ready'')
      else if code = 221 then Some '' The server closes the transmission channel''
      else if code = 250 then Some '' OK''
      else if code = 354 then Some '' Start mail input; end with <CRLF>.<CRLF>''
      else if code = 451 then Some '' The server aborted the command due to a local error''
      else if code = 500 then Some '' Syntax error, can not recognize command or command too long''
      else if code = 501 then Some '' Syntax error in parameters or arguments''
      else if code = 502 then Some '' The server has not implemented the command''
      else if code = 503 then Some '' Improper sequence of commands''
      else if code = 504 then Some '' The server has not implemented a command parameter''
      else if code = 510 then Some '' Invalid email address''
      else if code = 523 then Some '' The total size of your mailing exceeds the recipient server limits''
      else if code = 550 then Some ('' Mailbox is unavailable. Server aborted the command because ''
        @ ''the mailbox was not found or for policy reason'')
      else if code = 551 then Some '' User not local. The <forward-path> will be specified''
      else if code = 552 then Some '' The server aborted the command because mailbox is full''
      else None)"

definition sendResponse :: "nat \<Rightarrow> smtp_session \<Rightarrow> smtp_session resl" where
  "sendResponse code s =
     (case response_text code of
        None \<Rightarrow> Inl Assert_Failed
      | Some t \<Rightarrow> Inr (s\<lparr>s_pending := Writing code,
                         s_replies := s_replies s @ [zero_pad 3 (dec_of_nat code) @ t @ CRLF]\<rparr>))"

text \<open>The end of a handler: a response is on its way, the file system is as given.\<close>

definition reply :: "nat \<Rightarrow> smtp_io \<Rightarrow> smtp_io resl" where
  "reply code io = bind_res (sendResponse code (fst io)) (\<lambda>s. Inr (s, snd io))"

definition receive :: "smtp_io \<Rightarrow> smtp_io" where
  "receive io = ((fst io)\<lparr>s_pending := Reading\<rparr>, snd io)"

section \<open>The message file\<close>

definition message_name :: "u32 \<Rightarrow> string" where
  "message_name i = path_append ''./messages'' (''message-'' @ zero_pad 5 (dec_of_nat (unat i)) @ ''.eml'')"

definition createMessage :: "smtp_io \<Rightarrow> bool \<times> smtp_io" where
  "createMessage io =
     (let (s, fs) = io;
          p = message_name (s_id s);
          (os, fs) = of_open p (messageOut s, fs);
          s = s\<lparr>messagePath := p, messageOut := os\<rparr>
      in if of_bad os then (False, s\<lparr>messagePath := []\<rparr>, fs) else (True, s, fs))"

definition deleteMessage :: "smtp_io \<Rightarrow> smtp_io" where
  "deleteMessage io =
     (let (s, fs) = io; s = s\<lparr>messageOut := of_close (messageOut s)\<rparr>
      in (s, if fs_denied fs (messagePath s) then fs else fs_remove (messagePath s) fs))"

text \<open>One recipient of \<open>deliverMessage\<close>: (the unknown recipients, the file system).\<close>

fun deliver_one :: "string \<Rightarrow> string \<times> string \<Rightarrow> string list \<times> fsys \<Rightarrow> string list \<times> fsys" where
  "deliver_one msg (address, mbox) (unknown, fs) =
     (if fs_denied fs mbox then (unknown, fs)
      else if fs_exists fs mbox then (unknown, fs_copy msg mbox fs)
      else (unknown @ [address], fs))"

definition deliverMessage :: "smtp_io \<Rightarrow> smtp_io" where
  "deliverMessage io =
     (let (s, fs) = io;
          (unknown, fs) = fold (deliver_one (messagePath s)) (take (unat (rcptCount s)) (recipients s)) ([], fs)
      in (s\<lparr>unknownRecipients := unknown\<rparr>, fs))"

section \<open>Parsing the command buffer\<close>

abbreviation is_eol :: "char \<Rightarrow> bool" where
  "is_eol c \<equiv> c = CHR 0x0D \<or> c = CHR 0x0A"

text \<open>The second scan of \<open>getAddress\<close>: its pointer is one position ahead of its counter.\<close>

function scan_end :: "string \<Rightarrow> nat \<Rightarrow> nat resl" where
  "scan_end buf i =
     (if i < COMMAND_BUFFER_SIZE
      then bind_res (rd buf (i + 1)) (\<lambda>c. if c = CHR ''>'' \<or> is_eol c then Inr i else scan_end buf (i + 1))
      else Inr i)"
  by pat_completeness auto
termination by (relation "measure (\<lambda>(buf, i). COMMAND_BUFFER_SIZE - i)") auto

declare scan_end.simps [simp del]

definition getAddress :: "string \<Rightarrow> string resl" where
  "getAddress buf =
     (let i = length (takeWhile (\<lambda>c. c \<noteq> CHR ''<'' \<and> \<not> is_eol c) (take COMMAND_BUFFER_SIZE buf)) in
      if i = COMMAND_BUFFER_SIZE then Inr []
      else bind_res (rd buf i) (\<lambda>c.
        if c \<noteq> CHR ''<'' then Inr []
        else bind_res (scan_end buf i) (\<lambda>j.
          if j = COMMAND_BUFFER_SIZE then Inr []
          else bind_res (rd buf (j + 1)) (\<lambda>d.
            if d \<noteq> CHR ''>'' then Inr [] else Inr (take (j - i) (drop (i + 1) buf))))))"

abbreviation buffer_text :: "smtp_session \<Rightarrow> string" where
  "buffer_text s \<equiv> of_bytes (s_buffer s)"

section \<open>Commands\<close>

definition processHelo :: "smtp_io \<Rightarrow> smtp_io resl" where
  "processHelo io =
     (let (s, fs) = io;
          (ok, s, fs) = createMessage (s\<lparr>rcptCount := 0, returnAddress := []\<rparr>, fs)
      in if \<not> ok then reply 451 (s, fs) else reply 250 (s\<lparr>lastCommand := Helo\<rparr>, fs))"

definition processData :: "smtp_io \<Rightarrow> smtp_io resl" where
  "processData io =
     (let (s, fs) = io in
      if lastCommand s \<noteq> Data then reply 354 (s\<lparr>receiveMessage := True, lastCommand := Data\<rparr>, fs)
      else Inr (s, fs))"

definition processRset :: "smtp_io \<Rightarrow> smtp_io resl" where
  "processRset io =
     (let (s, fs) = io;
          (s, fs) = deleteMessage (s\<lparr>rcptCount := 0, returnAddress := [], receiveMessage := False\<rparr>, fs)
      in reply 250 (s\<lparr>lastCommand := Rset\<rparr>, fs))"

definition processVrfy :: "smtp_io \<Rightarrow> smtp_io resl" where
  "processVrfy io = Inr io"

definition processNoop :: "smtp_io \<Rightarrow> smtp_io resl" where
  "processNoop io = reply 250 io"

definition processQuit :: "smtp_io \<Rightarrow> smtp_io resl" where
  "processQuit io = reply 221 io"

definition processMailFrom :: "smtp_io \<Rightarrow> smtp_io resl" where
  "processMailFrom io =
     (let (s, fs) = io in
      if lastCommand s \<noteq> Helo \<and> lastCommand s \<noteq> Rset then reply 503 (s, fs)
      else bind_res (getAddress (buffer_text s)) (\<lambda>address.
        if address = [] then reply 501 (s, fs)
        else reply 250 (s\<lparr>returnAddress := address, lastCommand := MailFrom\<rparr>, fs)))"

text \<open>
  The second existence test repeats the first (the mailbox itself is not looked at), and the
  last assignment is a comparison in the code, so \<open>lastCommand\<close> stays as it is.
\<close>

definition processRcptTo :: "smtp_io \<Rightarrow> smtp_io resl" where
  "processRcptTo io =
     (let (s, fs) = io in
      if lastCommand s \<noteq> MailFrom then reply 501 (s, fs)
      else if MAX_RCPT_ALLOWED \<le> unat (rcptCount s) then reply 523 (s, fs)
      else bind_res (getAddress (buffer_text s)) (\<lambda>address.
        if address = [] then reply 501 (s, fs)
        else case find_char (CHR ''@'') address of
          None \<Rightarrow> reply 501 (s, fs)
        | Some p \<Rightarrow>
            let user = take p address; domain = drop (p + 1) address;
                domainPath = path_append mailboxesRoot domain
            in if fs_denied fs domainPath then reply 451 (s, fs)
               else if \<not> fs_is_directory fs domainPath then reply 551 (s, fs)
               else reply 250 (s\<lparr>recipients :=
                      (recipients s)[unat (rcptCount s) := (address, path_append domainPath user)],
                      rcptCount := rcptCount s + 1\<rparr>, fs)))"

definition processCommand :: "smtp_io \<Rightarrow> smtp_io resl" where
  "processCommand io =
     (let buf = buffer_text (fst io);
          n = length (takeWhile (\<lambda>c. c \<noteq> CHR '' '' \<and> \<not> is_eol c) (take COMMAND_BUFFER_SIZE buf))
      in if n = COMMAND_BUFFER_SIZE then reply 500 io
         else bind_res (rd buf n) (\<lambda>c.
           if c = CHR '' '' then
             (if strncmp_eq buf ''MAIL FROM'' n then processMailFrom io
              else if strncmp_eq buf ''RCPT TO'' n then processRcptTo io
              else reply 502 io)
           else if n \<noteq> 4 then reply 500 io
           else if strncmp_eq buf ''HELO'' n then processHelo io
           else if strncmp_eq buf ''DATA'' n then processData io
           else if strncmp_eq buf ''RSET'' n then processRset io
           else if strncmp_eq buf ''VRFY'' n then processVrfy io
           else if strncmp_eq buf ''NOOP'' n then processNoop io
           else if strncmp_eq buf ''QUIT'' n then processQuit io
           else reply 502 io))"

definition processMessage :: "smtp_io \<Rightarrow> smtp_io resl" where
  "processMessage io =
     (let (s, fs) = io in
      if s_length s = 3 \<and> strncmp_eq (buffer_text s) (''.'' @ CRLF) 3
      then reply 250 (deleteMessage (deliverMessage (s\<lparr>messageOut := of_close (messageOut s)\<rparr>, fs)))
      else (let (os, fs) = of_write (take (s_length s) (s_buffer s)) (messageOut s, fs)
            in Inr (receive (s\<lparr>messageOut := os\<rparr>, fs))))"

section \<open>Steps\<close>

text \<open>The completion of the outstanding operation: bytes read, a write finished, or an error.\<close>

datatype smtp_event = Smtp_Read bytes | Smtp_Written | Smtp_Error

definition close_session :: "smtp_session \<Rightarrow> smtp_session" where
  "close_session s = s\<lparr>s_pending := Closed\<rparr>"

definition start_session :: "smtp_session \<Rightarrow> smtp_session resl" where
  "start_session s = sendResponse 220 s"

text \<open>\<open>async_read_some\<close> fills the front of the array; what was behind stays.\<close>

definition on_read :: "bytes \<Rightarrow> smtp_io \<Rightarrow> smtp_io resl" where
  "on_read d io =
     (let (s, fs) = io;
          s = s\<lparr>s_buffer := overwrite (s_buffer s) 0 d, s_length := length d, s_pending := Idle\<rparr>
      in if receiveMessage s then processMessage (s, fs) else processCommand (s, fs))"

inductive smtp_step :: "smtp_io \<Rightarrow> smtp_event \<Rightarrow> smtp_io \<Rightarrow> bool" where
  read: "s_pending s = Reading \<Longrightarrow> d \<noteq> [] \<Longrightarrow> length d \<le> 512 \<Longrightarrow> on_read d (s, fs) = Inr io' \<Longrightarrow>
     smtp_step (s, fs) (Smtp_Read d) io'"
| written: "s_pending s = Writing code \<Longrightarrow> code \<noteq> 221 \<Longrightarrow> smtp_step (s, fs) Smtp_Written (receive (s, fs))"
| quit: "s_pending s = Writing 221 \<Longrightarrow> smtp_step (s, fs) Smtp_Written (close_session s, fs)"
| failed: "s_pending s = Reading \<or> (\<exists>code. s_pending s = Writing code) \<Longrightarrow>
     smtp_step (s, fs) Smtp_Error (close_session s, fs)"

inductive smtp_run :: "smtp_io \<Rightarrow> smtp_event list \<Rightarrow> smtp_io \<Rightarrow> bool" where
  smtp_nil: "smtp_run io [] io"
| smtp_cons: "smtp_step io e io' \<Longrightarrow> smtp_run io' es io'' \<Longrightarrow> smtp_run io (e # es) io''"

inductive_cases smtp_readE: "smtp_step io (Smtp_Read d) io'"
inductive_cases smtp_writtenE: "smtp_step io Smtp_Written io'"
inductive_simps smtp_step_read: "smtp_step (s, fs) (Smtp_Read d) io'"
inductive_simps smtp_step_written: "smtp_step (s, fs) Smtp_Written io'"
inductive_simps smtp_step_error: "smtp_step (s, fs) Smtp_Error io'"

section \<open>Replies\<close>

definition response_line :: "nat \<Rightarrow> string" where
  "response_line code = zero_pad 3 (dec_of_nat code) @ the (response_text code) @ CRLF"

definition responded :: "nat \<Rightarrow> smtp_session \<Rightarrow> smtp_session" where
  "responded code s = s\<lparr>s_pending := Writing code, s_replies := s_replies s @ [response_line code]\<rparr>"

definition known_code :: "nat \<Rightarrow> bool" where
  "known_code code \<longleftrightarrow> code \<in> {220, 221, 250, 354, 451, 500, 501, 502, 503, 504, 510, 523, 550, 551, 552}"

lemma response_text_known: "known_code code \<longleftrightarrow> response_text code \<noteq> None"
  by (auto simp: known_code_def response_text_def)

lemma reply_known: "known_code code \<Longrightarrow> reply code (s, fs) = Inr (responded code s, fs)"
  by (auto simp: reply_def sendResponse_def responded_def response_line_def response_text_known)

lemma reply_simps [simp]:
  "reply 221 (s, fs) = Inr (responded 221 s, fs)" "reply 250 (s, fs) = Inr (responded 250 s, fs)"
  "reply 354 (s, fs) = Inr (responded 354 s, fs)" "reply 451 (s, fs) = Inr (responded 451 s, fs)"
  "reply 500 (s, fs) = Inr (responded 500 s, fs)" "reply 501 (s, fs) = Inr (responded 501 s, fs)"
  "reply 502 (s, fs) = Inr (responded 502 s, fs)" "reply 503 (s, fs) = Inr (responded 503 s, fs)"
  "reply 523 (s, fs) = Inr (responded 523 s, fs)" "reply 551 (s, fs) = Inr (responded 551 s, fs)"
  by (simp_all add: reply_known known_code_def)

lemma responded_fields [simp]:
  "receiveMessage (responded c s) = receiveMessage s" "lastCommand (responded c s) = lastCommand s"
  "rcptCount (responded c s) = rcptCount s" "recipients (responded c s) = recipients s"
  "returnAddress (responded c s) = returnAddress s" "s_buffer (responded c s) = s_buffer s"
  "s_pending (responded c s) = Writing c" "messageOut (responded c s) = messageOut s"
  "messagePath (responded c s) = messagePath s" "s_id (responded c s) = s_id s"
  "s_replies (responded c s) = s_replies s @ [response_line c]"
  by (simp_all add: responded_def)

section \<open>Invariant\<close>

text \<open>An accepted recipient: an address with a domain, and the mailbox path made of its parts.\<close>

definition rcpt_ok :: "string \<times> string \<Rightarrow> bool" where
  "rcpt_ok r \<longleftrightarrow> (\<exists>user domain. CHR ''@'' \<notin> set user \<and> fst r = user @ CHR ''@'' # domain
     \<and> snd r = path_append (path_append mailboxesRoot domain) user)"

definition smtp_inv :: "smtp_session \<Rightarrow> bool" where
  "smtp_inv s \<longleftrightarrow> length (s_buffer s) = 512 \<and> length (recipients s) = MAX_RCPT_ALLOWED
     \<and> unat (rcptCount s) \<le> MAX_RCPT_ALLOWED
     \<and> (\<forall>r \<in> set (take (unat (rcptCount s)) (recipients s)). rcpt_ok r)
     \<and> (receiveMessage s \<longleftrightarrow> lastCommand s = Data)"

lemma smtp_inv_new: "length junk = 512 \<Longrightarrow> smtp_inv (new_smtp_session i junk)"
  by (simp add: smtp_inv_def new_smtp_session_def)

lemma smtp_inv_congs [simp]:
  "smtp_inv (responded c s) = smtp_inv s" "smtp_inv (s\<lparr>messageOut := os\<rparr>) = smtp_inv s"
  "smtp_inv (s\<lparr>messagePath := p\<rparr>) = smtp_inv s" "smtp_inv (s\<lparr>s_pending := pe\<rparr>) = smtp_inv s"
  "smtp_inv (s\<lparr>unknownRecipients := us\<rparr>) = smtp_inv s"
  by (simp_all add: smtp_inv_def)

lemma deleteMessage_session: "fst (deleteMessage io) = (fst io)\<lparr>messageOut := of_close (messageOut (fst io))\<rparr>"
  by (simp add: deleteMessage_def case_prod_unfold Let_def)

lemma deliverMessage_session: "\<exists>us. fst (deliverMessage io) = (fst io)\<lparr>unknownRecipients := us\<rparr>"
  by (auto simp: deliverMessage_def case_prod_unfold Let_def)

lemma createMessage_session:
  "fst (snd (createMessage io)) = (fst io)\<lparr>
     messagePath := (if fst (createMessage io) then message_name (s_id (fst io)) else []),
     messageOut := fst (of_open (message_name (s_id (fst io))) (messageOut (fst io), snd io))\<rparr>"
  by (simp add: createMessage_def case_prod_unfold Let_def)

lemma processHelo_inv: "smtp_inv s \<Longrightarrow> \<not> receiveMessage s \<Longrightarrow> holds (\<lambda>io'. smtp_inv (fst io')) (processHelo (s, fs))"
proof -
  assume inv: "smtp_inv s" "\<not> receiveMessage s"
  obtain ok s' fs' where c: "createMessage (s\<lparr>rcptCount := 0, returnAddress := []\<rparr>, fs) = (ok, s', fs')"
    by (metis prod_cases3)
  then have s': "\<exists>p os. s' = s\<lparr>rcptCount := 0, returnAddress := [], messagePath := p, messageOut := os\<rparr>"
    using createMessage_session [of "(s\<lparr>rcptCount := 0, returnAddress := []\<rparr>, fs)"] by auto
  have "lastCommand s \<noteq> Data" using inv by (simp add: smtp_inv_def)
  then show ?thesis using inv s' unfolding processHelo_def prod.case Let_def c
    by (auto simp: smtp_inv_def)
qed

lemma smtp_inv_reset: "smtp_inv s \<Longrightarrow> c \<noteq> Data \<Longrightarrow>
    smtp_inv (s\<lparr>rcptCount := 0, returnAddress := a, receiveMessage := False, messageOut := os, lastCommand := c\<rparr>)"
  by (simp add: smtp_inv_def)

lemma processRset_inv: "smtp_inv s \<Longrightarrow> holds (\<lambda>io'. smtp_inv (fst io')) (processRset (s, fs))"
proof -
  assume inv: "smtp_inv s"
  let ?s = "s\<lparr>rcptCount := 0, returnAddress := [], receiveMessage := False\<rparr>"
  obtain s' fs' where d: "deleteMessage (?s, fs) = (s', fs')" by (cases "deleteMessage (?s, fs)")
  then have "s' = ?s\<lparr>messageOut := of_close (messageOut s)\<rparr>"
    using deleteMessage_session [of "(?s, fs)"] by simp
  with inv d smtp_inv_reset [OF inv, of Rset] show ?thesis by (simp add: processRset_def)
qed

lemma processMailFrom_inv:
  "smtp_inv s \<Longrightarrow> \<not> receiveMessage s \<Longrightarrow> holds (\<lambda>io'. smtp_inv (fst io')) (processMailFrom (s, fs))"
  by (auto simp: processMailFrom_def smtp_inv_def)

text \<open>A recipient stored at the next free place.\<close>

lemma smtp_inv_recipient:
  assumes "smtp_inv s" "\<not> MAX_RCPT_ALLOWED \<le> unat (rcptCount s)" "rcpt_ok r"
  shows "smtp_inv (s\<lparr>recipients := (recipients s)[unat (rcptCount s) := r], rcptCount := rcptCount s + 1\<rparr>)"
proof -
  have n: "unat (rcptCount s) < 100" using assms(2) by (simp add: MAX_RCPT_ALLOWED_def)
  then have "unat (rcptCount s + 1) = Suc (unat (rcptCount s))" by (simp add: unat_word_ariths)
  moreover have "take (Suc n) ((recipients s)[n := r]) = take n (recipients s) @ [r]" if "n < length (recipients s)" for n
    using that by (simp add: take_Suc_conv_app_nth)
  ultimately show ?thesis
    using assms n by (auto simp: smtp_inv_def MAX_RCPT_ALLOWED_def)
qed

lemma processRcptTo_inv:
  assumes "smtp_inv s" "\<not> receiveMessage s"
  shows "holds (\<lambda>io'. smtp_inv (fst io')) (processRcptTo (s, fs))"
proof -
  have ok: "rcpt_ok (address, path_append (path_append mailboxesRoot (drop (Suc p) address)) (take p address))"
    if "find_char (CHR ''@'') address = Some p" for address p
    unfolding rcpt_ok_def fst_conv snd_conv
    using find_char_Some_split [OF that] find_char_Some_notin [OF that]
    by (intro exI [of _ "take p address"] exI [of _ "drop (Suc p) address"]) simp
  show ?thesis
    using assms smtp_inv_recipient [OF assms(1) _ ok]
    by (auto simp: processRcptTo_def Let_def split: option.split)
qed

text \<open>What a command can lead to.\<close>

lemma processCommand_dispatch:
  "processCommand io \<in> {processMailFrom io, processRcptTo io, processHelo io, processData io, processRset io,
     processVrfy io, processNoop io, processQuit io, reply 500 io, reply 502 io, Inl Out_Of_Bounds}"
proof -
  obtain n where n: "n = length (takeWhile (\<lambda>c. c \<noteq> CHR '' '' \<and> \<not> is_eol c) (take COMMAND_BUFFER_SIZE (buffer_text (fst io))))"
    by simp
  have ite: "(if b then x else y) \<in> A \<longleftrightarrow> (if b then x \<in> A else y \<in> A)" for b A and x y :: "smtp_io resl"
    by simp
  have "rd (buffer_text (fst io)) n = Inl Out_Of_Bounds \<or> (\<exists>c. rd (buffer_text (fst io)) n = Inr c)"
    by (simp add: rd_def)
  then show ?thesis
    unfolding processCommand_def Let_def n [symmetric]
    by (elim disjE exE; simp only: bind_res_Inl bind_res_Inr ite if_bool_eq_conj; simp only: insert_iff simp_thms)
qed

lemma processCommand_inv:
  assumes "smtp_inv s" "\<not> receiveMessage s"
  shows "holds (\<lambda>io'. smtp_inv (fst io')) (processCommand (s, fs))"
proof -
  have "holds (\<lambda>io'. smtp_inv (fst io')) (processData (s, fs))"
    using assms by (simp add: processData_def smtp_inv_def)
  moreover have "holds (\<lambda>io'. smtp_inv (fst io')) x"
    if "x \<in> {processVrfy (s, fs), processNoop (s, fs), processQuit (s, fs), reply 500 (s, fs), reply 502 (s, fs),
        Inl Out_Of_Bounds}" for x
    using that assms(1) by (auto simp: processVrfy_def processNoop_def processQuit_def)
  ultimately show ?thesis
    using processCommand_dispatch [of "(s, fs)"] processHelo_inv [OF assms, of fs] processRset_inv [OF assms(1), of fs]
      processMailFrom_inv [OF assms, of fs] processRcptTo_inv [OF assms, of fs]
    by (elim insertE) (simp_all del: holds_simps)
qed

text \<open>What the end of a message leaves alone.\<close>

lemma message_end_fields [simp]:
  "receiveMessage (fst (deleteMessage io)) = receiveMessage (fst io)"
  "lastCommand (fst (deleteMessage io)) = lastCommand (fst io)"
  "rcptCount (fst (deleteMessage io)) = rcptCount (fst io)"
  "recipients (fst (deleteMessage io)) = recipients (fst io)"
  "s_buffer (fst (deleteMessage io)) = s_buffer (fst io)"
  "s_replies (fst (deleteMessage io)) = s_replies (fst io)"
  "receiveMessage (fst (deliverMessage io)) = receiveMessage (fst io)"
  "lastCommand (fst (deliverMessage io)) = lastCommand (fst io)"
  "rcptCount (fst (deliverMessage io)) = rcptCount (fst io)"
  "recipients (fst (deliverMessage io)) = recipients (fst io)"
  "s_buffer (fst (deliverMessage io)) = s_buffer (fst io)"
  "s_replies (fst (deliverMessage io)) = s_replies (fst io)"
  by (simp_all add: deleteMessage_def deliverMessage_def case_prod_unfold Let_def)

definition same_dialogue :: "smtp_session \<Rightarrow> smtp_session \<Rightarrow> bool" where
  "same_dialogue s s' \<longleftrightarrow> receiveMessage s' = receiveMessage s \<and> lastCommand s' = lastCommand s
     \<and> rcptCount s' = rcptCount s \<and> recipients s' = recipients s \<and> s_buffer s' = s_buffer s"

lemma same_dialogue_inv: "same_dialogue s s' \<Longrightarrow> smtp_inv s \<Longrightarrow> smtp_inv s'"
  by (simp add: same_dialogue_def smtp_inv_def)

lemma processMessage_session:
  "\<exists>io'. processMessage (s, fs) = Inr io' \<and> same_dialogue s (fst io')
    \<and> (s_pending (fst io') = Reading \<and> s_replies (fst io') = s_replies s
       \<or> s_pending (fst io') = Writing 250 \<and> s_replies (fst io') = s_replies s @ [response_line 250])"
proof (cases "s_length s = 3 \<and> strncmp_eq (buffer_text s) (''.'' @ CRLF) 3")
  case True
  let ?io = "deleteMessage (deliverMessage (s\<lparr>messageOut := of_close (messageOut s)\<rparr>, fs))"
  have eq: "processMessage (s, fs) = reply 250 (fst ?io, snd ?io)"
    using True by (simp add: processMessage_def)
  show ?thesis unfolding eq reply_simps by (simp add: same_dialogue_def)
next
  case False
  then show ?thesis
    by (auto simp: processMessage_def receive_def same_dialogue_def case_prod_unfold Let_def)
qed

lemma on_read_inv: "smtp_inv s \<Longrightarrow> length d \<le> 512 \<Longrightarrow> holds (\<lambda>io'. smtp_inv (fst io')) (on_read d (s, fs))"
proof -
  assume inv: "smtp_inv s" "length d \<le> 512"
  let ?s = "s\<lparr>s_buffer := overwrite (s_buffer s) 0 d, s_length := length d, s_pending := Idle\<rparr>"
  have i: "smtp_inv ?s" using inv by (simp add: smtp_inv_def)
  show ?thesis
  proof (cases "receiveMessage s")
    case True
    obtain io' where "processMessage (?s, fs) = Inr io'" "same_dialogue ?s (fst io')"
      using processMessage_session [of ?s fs] by blast
    with True same_dialogue_inv [OF _ i] show ?thesis by (simp add: on_read_def)
  next
    case False
    then show ?thesis using processCommand_inv [OF i] by (simp add: on_read_def)
  qed
qed

lemma smtp_step_inv: "smtp_step io e io' \<Longrightarrow> smtp_inv (fst io) \<Longrightarrow> smtp_inv (fst io')"
proof (induction rule: smtp_step.induct)
  case (read s d fs io')
  then show ?case using holdsD [OF on_read_inv] by fastforce
qed (auto simp: receive_def close_session_def)

interpretation smtp: event_machine smtp_step smtp_run
  by unfold_locales (auto elim: smtp_run.cases)

lemma smtp_run_inv: "smtp_run io es io' \<Longrightarrow> smtp_inv (fst io) \<Longrightarrow> smtp_inv (fst io')"
  by (rule smtp.run_invariant) (auto intro: smtp_step_inv)

section \<open>Message mode\<close>

text \<open>Once \<open>receiveMessage\<close> is set nothing clears it: every byte is message text from then on.\<close>

lemma smtp_step_message_mode:
  "smtp_step io e io' \<Longrightarrow> receiveMessage (fst io) \<Longrightarrow>
    receiveMessage (fst io') \<and> lastCommand (fst io') = lastCommand (fst io)
    \<and> (\<exists>k. s_replies (fst io') = s_replies (fst io) @ replicate k (response_line 250))"
proof (induction rule: smtp_step.induct)
  case (read s d fs io')
  let ?s = "s\<lparr>s_buffer := overwrite (s_buffer s) 0 d, s_length := length d, s_pending := Idle\<rparr>"
  have "processMessage (?s, fs) = Inr io'" using read by (simp add: on_read_def)
  with processMessage_session [of ?s fs] read.prems show ?case
    by (auto simp: same_dialogue_def intro: exI [of _ "Suc 0"] exI [of _ 0])
qed (auto simp: receive_def close_session_def intro: exI [of _ 0])

lemma smtp_run_message_mode:
  "smtp_run io es io' \<Longrightarrow> receiveMessage (fst io) \<Longrightarrow>
    receiveMessage (fst io') \<and> lastCommand (fst io') = lastCommand (fst io)
    \<and> (\<exists>k. s_replies (fst io') = s_replies (fst io) @ replicate k (response_line 250))"
proof (induction rule: smtp_run.induct)
  case (smtp_cons io e io' es io'')
  then obtain j k where "s_replies (fst io') = s_replies (fst io) @ replicate j (response_line 250)"
    "s_replies (fst io'') = s_replies (fst io') @ replicate k (response_line 250)"
    using smtp_step_message_mode by blast
  then have "s_replies (fst io'') = s_replies (fst io) @ replicate (j + k) (response_line 250)"
    by (simp add: replicate_add)
  with smtp_cons smtp_step_message_mode [OF smtp_cons.hyps(1)] show ?case by auto
qed (auto intro: exI [of _ 0])

end
