(* ===== verification/SMTP_Server.thy ===== *)
theory SMTP_Server
  imports SMTP_Session
begin

text \<open>
  \<open>smtp/server: SMTPServer\<close>: the table of sessions by identifier, accepting a connection, and the
  interleaved steps of the sessions on one file system. \<open>closeSession\<close> is an empty function, so
  the table only grows.
\<close>

section \<open>State and steps\<close>

record smtp_server =
  nextSessionId :: u32
  smtp_sessions :: "u32 \<Rightarrow> smtp_session option"
  smtp_fs :: fsys
  smtp_running :: bool

definition new_smtp_server :: "fsys \<Rightarrow> smtp_server" where
  "new_smtp_server fs = \<lparr>nextSessionId = 0, smtp_sessions = (\<lambda>_. None), smtp_fs = fs,
     smtp_running = True\<rparr>"

definition acceptConnection :: "bytes \<Rightarrow> smtp_server \<Rightarrow> smtp_server resl" where
  "acceptConnection junk srv =
     (let sessionId = nextSessionId srv + 1 in
      bind_res (start_session (new_smtp_session sessionId junk)) (\<lambda>s.
        Inr (srv\<lparr>smtp_sessions := (smtp_sessions srv)(sessionId \<mapsto> s), nextSessionId := sessionId\<rparr>)))"

definition closeSession :: "u32 \<Rightarrow> smtp_server \<Rightarrow> smtp_server" where
  "closeSession i srv = srv"

text \<open>
  \<open>remote_endpoint\<close> throws for an accepted connection whose peer has gone: the exception leaves the
  event loop. A signal stops the loop.
\<close>

datatype server_event = Accepted bytes | Accept_Failed | Endpoint_Threw | Session_Event u32 smtp_event | Smtp_Signal bool

inductive server_step :: "smtp_server \<Rightarrow> server_event \<Rightarrow> smtp_server \<Rightarrow> bool" where
  accepted: "smtp_running srv \<Longrightarrow> length junk = 512 \<Longrightarrow> acceptConnection junk srv = Inr srv' \<Longrightarrow>
     server_step srv (Accepted junk) srv'"
| accept_failed: "smtp_running srv \<Longrightarrow> server_step srv Accept_Failed srv"
| endpoint_threw: "smtp_running srv \<Longrightarrow> server_step srv Endpoint_Threw (srv\<lparr>smtp_running := False\<rparr>)"
| session: "smtp_running srv \<Longrightarrow> smtp_sessions srv i = Some s \<Longrightarrow> smtp_step (s, smtp_fs srv) e (s', fs') \<Longrightarrow>
     server_step srv (Session_Event i e)
       ((if s_pending s' = Closed then closeSession i else (\<lambda>x. x))
         (srv\<lparr>smtp_sessions := (smtp_sessions srv)(i \<mapsto> s'), smtp_fs := fs'\<rparr>))"
| signalled: "smtp_running srv \<Longrightarrow> server_step srv (Smtp_Signal ok) (if ok then srv\<lparr>smtp_running := False\<rparr> else srv)"

inductive server_run :: "smtp_server \<Rightarrow> server_event list \<Rightarrow> smtp_server \<Rightarrow> bool" where
  srv_nil: "server_run srv [] srv"
| srv_cons: "server_step srv e srv' \<Longrightarrow> server_run srv' es srv'' \<Longrightarrow> server_run srv (e # es) srv''"

inductive_cases session_eventE: "server_step srv (Session_Event i e) srv'"

section \<open>File names\<close>

lemma dec_of_nat_inj: "dec_of_nat m = dec_of_nat n \<Longrightarrow> m = n"
proof -
  define val where "val s = foldl (\<lambda>a c. 10 * a + (case digit_val c of Some d \<Rightarrow> d | None \<Rightarrow> 0)) 0 s" for s
  have "val (dec_of_nat n) = n" for n
  proof (induction n rule: dec_of_nat.induct)
    case (1 n)
    then show ?case by (cases "n < 10") (simp_all add: dec_of_nat.simps [of n] val_def)
  qed
  then show "dec_of_nat m = dec_of_nat n \<Longrightarrow> m = n" by metis
qed

text \<open>Padding does not identify numbers: a number's own text never starts with a zero, except 0's.\<close>

lemma dec_of_nat_hd: "hd (dec_of_nat n) = CHR ''0'' \<Longrightarrow> n = 0"
proof (induction n rule: dec_of_nat.induct)
  case (1 n)
  have d: "digit_char k = CHR ''0'' \<Longrightarrow> k < 10 \<Longrightarrow> k = 0" for k
    using digit_val_digit_char [of k] by (simp add: digit_val_def)
  show ?case
  proof (cases "n < 10")
    case True
    with 1 d [of n] show ?thesis by (simp add: dec_of_nat.simps [of n])
  next
    case False
    then have "n div 10 = 0" using 1 by (simp add: dec_of_nat.simps [of n] hd_append)
    with False show ?thesis by simp
  qed
qed

lemma zero_pad_dec_inj:
  assumes "zero_pad k (dec_of_nat m) = zero_pad k (dec_of_nat n)"
  shows "m = n"
proof -
  have drop: "dropWhile (\<lambda>c. c = CHR ''0'') (zero_pad k (dec_of_nat i)) = (if i = 0 then [] else dec_of_nat i)" for i
  proof -
    have "dropWhile (\<lambda>c. c = CHR ''0'') (dec_of_nat i) = (if i = 0 then [] else dec_of_nat i)"
    proof (cases "i = 0")
      case True
      then show ?thesis by (simp add: dec_of_nat.simps)
    next
      case False
      then show ?thesis using dec_of_nat_hd [of i] by (cases "dec_of_nat i") auto
    qed
    then show ?thesis by (simp add: zero_pad_def dropWhile_append)
  qed
  show ?thesis using drop [of m] drop [of n] assms dec_of_nat_inj [of m n] dec_of_nat_nonempty
    by (metis (full_types))
qed

lemma message_name_inj: "message_name i = message_name j \<longleftrightarrow> i = j"
proof
  assume "message_name i = message_name j"
  then have "zero_pad 5 (dec_of_nat (unat i)) = zero_pad 5 (dec_of_nat (unat j))"
    by (simp add: message_name_def)
  then show "i = j" using zero_pad_dec_inj word_unat_eq_iff by blast
qed simp

section \<open>Sessions keep out of each other's message files\<close>

definition own_files :: "smtp_session \<Rightarrow> bool" where
  "own_files s \<longleftrightarrow> messagePath s \<in> {[], message_name (s_id s)}
     \<and> of_path (messageOut s) \<in> {None, Some (message_name (s_id s))}"

text \<open>What a handler of session \<open>i\<close> may do to the session and the files.\<close>

definition confined :: "u32 \<Rightarrow> fsys \<Rightarrow> smtp_io \<Rightarrow> bool" where
  "confined i fs io \<longleftrightarrow> own_files (fst io) \<and> s_id (fst io) = i
     \<and> (\<forall>j. j \<noteq> i \<longrightarrow> fs_files (snd io) (message_name j) = fs_files fs (message_name j))"

lemma take_path_append: "k \<le> length a \<Longrightarrow> take k (path_append a b) = take k a"
  by (simp add: path_append_def)

lemma length_path_append: "length a \<le> length (path_append a b)"
  by (simp add: path_append_def)

lemma mailbox_prefix:
  "take 4 (path_append (path_append mailboxesRoot d) u) = ''./ma''"
  "take 4 (path_append (path_append (path_append mailboxesRoot d) u) f) = ''./ma''"
proof -
  have r: "take 4 mailboxesRoot = ''./ma''" "4 \<le> length mailboxesRoot" by (simp_all add: mailboxesRoot_def)
  then have d: "take 4 (path_append mailboxesRoot d) = ''./ma''" "4 \<le> length (path_append mailboxesRoot d)"
    using length_path_append [of mailboxesRoot d] by (simp_all add: take_path_append)
  then show 1: "take 4 (path_append (path_append mailboxesRoot d) u) = ''./ma''"
    by (simp add: take_path_append)
  show "take 4 (path_append (path_append (path_append mailboxesRoot d) u) f) = ''./ma''"
    using 1 d(2) length_path_append [of "path_append mailboxesRoot d" u] by (simp add: take_path_append)
qed

lemma message_name_prefix: "take 4 (message_name i) = ''./me''"
  by (simp add: message_name_def)

lemma mailbox_not_message:
  "path_append (path_append mailboxesRoot d) u \<noteq> message_name i"
  "path_append (path_append (path_append mailboxesRoot d) u) f \<noteq> message_name i"
proof -
  have ne: "''./ma'' \<noteq> ''./me''" by simp
  show "path_append (path_append mailboxesRoot d) u \<noteq> message_name i"
    using mailbox_prefix(1) message_name_prefix [of i] ne by metis
  show "path_append (path_append (path_append mailboxesRoot d) u) f \<noteq> message_name i"
    using mailbox_prefix(2) message_name_prefix [of i] ne by metis
qed

lemma message_name_nonempty [simp]: "message_name i \<noteq> []"
  using message_name_prefix [of i] by auto

lemma fs_copy_confined:
  "rcpt_ok r \<Longrightarrow> fs_files (fs_copy src (snd r) fs) (message_name j) = fs_files fs (message_name j)"
  using mailbox_not_message by (auto simp: fs_copy_def rcpt_ok_def Let_def split: option.split) metis+

lemma fold_deliver_confined:
  "\<forall>r \<in> set rs. rcpt_ok r \<Longrightarrow>
     fs_files (snd (fold (deliver_one msg) rs (us, fs))) (message_name j) = fs_files fs (message_name j)"
proof (induction rs arbitrary: us fs)
  case (Cons r rs)
  obtain us' fs' where d: "deliver_one msg r (us, fs) = (us', fs')" by (cases "deliver_one msg r (us, fs)")
  then have "fs_files fs' (message_name j) = fs_files fs (message_name j)"
    using Cons.prems fs_copy_confined [of r msg fs j] by (cases r) (auto split: if_splits)
  with Cons d show ?case by simp
qed simp

lemma confined_congs [simp]:
  "confined i fs (responded c s, fs') = confined i fs (s, fs')"
  "confined i fs (s\<lparr>s_pending := pe\<rparr>, fs') = confined i fs (s, fs')"
  "confined i fs (s\<lparr>lastCommand := lc\<rparr>, fs') = confined i fs (s, fs')"
  "confined i fs (s\<lparr>unknownRecipients := us\<rparr>, fs') = confined i fs (s, fs')"
  by (simp_all add: confined_def own_files_def)

lemma createMessage_confined:
  assumes "own_files s" "s_id s = i"
  shows "confined i fs (snd (createMessage (s, fs)))"
  using assms message_name_inj
  by (auto simp: createMessage_def confined_def own_files_def of_open_def case_prod_unfold Let_def)

lemma deleteMessage_confined:
  "confined i fs io \<Longrightarrow> confined i fs (deleteMessage io)"
  using message_name_inj
  by (auto simp: deleteMessage_def confined_def own_files_def of_close_def case_prod_unfold Let_def)

lemma deliverMessage_confined:
  assumes "confined i fs io" "\<forall>r \<in> set (take (unat (rcptCount (fst io))) (recipients (fst io))). rcpt_ok r"
  shows "confined i fs (deliverMessage io)"
  using assms(1) fold_deliver_confined [OF assms(2)]
  by (auto simp: deliverMessage_def confined_def own_files_def case_prod_unfold Let_def)

lemma confined_own: "own_files s \<Longrightarrow> s_id s = i \<Longrightarrow> confined i fs (s, fs)"
  by (simp add: confined_def)

lemma confined_recipients [simp]:
  "confined i fs (s\<lparr>recipients := rs, rcptCount := n\<rparr>, fs') = confined i fs (s, fs')"
  "confined i fs (s\<lparr>returnAddress := a\<rparr>, fs') = confined i fs (s, fs')"
  "confined i fs (s\<lparr>receiveMessage := b\<rparr>, fs') = confined i fs (s, fs')"
  by (simp_all add: confined_def own_files_def)

lemma processCommand_confined:
  assumes "own_files s" "s_id s = i"
  shows "holds (confined i fs) (processCommand (s, fs))"
proof -
  note own = confined_own [OF assms, of fs]
  have helo: "holds (confined i fs) (processHelo (s, fs))"
  proof -
    let ?s = "s\<lparr>rcptCount := 0, returnAddress := []\<rparr>"
    obtain ok s' fs' where c: "createMessage (?s, fs) = (ok, s', fs')" by (metis prod_cases3)
    have "own_files ?s" "s_id ?s = i" using assms by (simp_all add: own_files_def)
    from createMessage_confined [OF this, of fs] c have "confined i fs (s', fs')" by simp
    then show ?thesis unfolding processHelo_def prod.case Let_def c by simp
  qed
  have rset: "holds (confined i fs) (processRset (s, fs))"
  proof -
    let ?s = "s\<lparr>rcptCount := 0, returnAddress := [], receiveMessage := False\<rparr>"
    obtain s' fs' where d: "deleteMessage (?s, fs) = (s', fs')" by (cases "deleteMessage (?s, fs)")
    have "confined i fs (?s, fs)" using assms by (simp add: confined_def own_files_def)
    from deleteMessage_confined [OF this] d have "confined i fs (s', fs')" by simp
    then show ?thesis unfolding processRset_def prod.case Let_def d by simp
  qed
  have "holds (confined i fs) x"
    if "x \<in> {processMailFrom (s, fs), processRcptTo (s, fs), processData (s, fs), processVrfy (s, fs), processNoop (s, fs),
        processQuit (s, fs), reply 500 (s, fs), reply 502 (s, fs), Inl Out_Of_Bounds}" for x
    using that own
    by (elim insertE)
      (auto simp: processMailFrom_def processRcptTo_def processData_def processVrfy_def processNoop_def processQuit_def
        Let_def split: option.split)
  with helo rset processCommand_dispatch [of "(s, fs)"] show ?thesis
    by (elim insertE) (simp_all del: holds_simps)
qed

lemma of_write_confined:
  assumes "own_files s" "s_id s = i" "of_write d (messageOut s, fs) = (os, fs')"
  shows "confined i fs (s\<lparr>messageOut := os\<rparr>, fs')"
  using assms message_name_inj
  by (auto simp: of_write_def confined_def own_files_def split: option.splits if_splits)

lemma processMessage_confined:
  assumes "own_files s" "s_id s = i" "smtp_inv s"
  shows "holds (confined i fs) (processMessage (s, fs))"
proof (cases "s_length s = 3 \<and> strncmp_eq (buffer_text s) (''.'' @ CRLF) 3")
  case True
  let ?s = "s\<lparr>messageOut := of_close (messageOut s)\<rparr>"
  have "confined i fs (?s, fs)" using assms by (auto simp: confined_def own_files_def of_close_def)
  then have "confined i fs (deleteMessage (deliverMessage (?s, fs)))"
    using assms(3) by (intro deleteMessage_confined deliverMessage_confined) (auto simp: smtp_inv_def)
  then show ?thesis using True
    by (cases "deleteMessage (deliverMessage (?s, fs))") (simp add: processMessage_def)
next
  case False
  obtain os fs' where w: "of_write (take (s_length s) (s_buffer s)) (messageOut s, fs) = (os, fs')"
    by (cases "of_write (take (s_length s) (s_buffer s)) (messageOut s, fs)")
  have "processMessage (s, fs) = Inr (receive (s\<lparr>messageOut := os\<rparr>, fs'))"
    unfolding processMessage_def prod.case Let_def if_not_P [OF False] w by simp
  with of_write_confined [OF assms(1,2) w] show ?thesis by (simp add: receive_def)
qed

lemma smtp_step_confined:
  "smtp_step io e io' \<Longrightarrow> own_files (fst io) \<Longrightarrow> smtp_inv (fst io) \<Longrightarrow>
     confined (s_id (fst io)) (snd io) io'"
proof (induction rule: smtp_step.induct)
  case (read s d fs io')
  let ?s = "s\<lparr>s_buffer := overwrite (s_buffer s) 0 d, s_length := length d, s_pending := Idle\<rparr>"
  have s: "own_files ?s" "smtp_inv ?s" using read by (simp_all add: own_files_def smtp_inv_def)
  show ?case
    using read.hyps(4) holdsD [OF processCommand_confined [OF s(1) refl]]
      holdsD [OF processMessage_confined [OF s(1) refl s(2)]]
    by (simp add: on_read_def Let_def del: holds_simps split: if_splits)
qed (auto simp: receive_def close_session_def confined_own)

section \<open>Invariant of the server\<close>

definition server_inv :: "smtp_server \<Rightarrow> bool" where
  "server_inv srv \<longleftrightarrow> (\<forall>i s. smtp_sessions srv i = Some s \<longrightarrow> s_id s = i \<and> own_files s \<and> smtp_inv s)"

lemma new_session_ok:
  assumes "length junk = 512" "start_session (new_smtp_session i junk) = Inr s"
  shows "s_id s = i \<and> own_files s \<and> smtp_inv s"
proof -
  have "s = responded 220 (new_smtp_session i junk)"
    using assms(2) by (simp add: start_session_def sendResponse_def responded_def response_line_def response_text_def)
  then show ?thesis using smtp_inv_new [OF assms(1)]
    by (simp add: own_files_def responded_def new_smtp_session_def of_closed_def smtp_inv_def)
qed

lemma server_step_inv: "server_step srv e srv' \<Longrightarrow> server_inv srv \<Longrightarrow> server_inv srv'"
proof (induction rule: server_step.induct)
  case (accepted junk srv srv')
  then show ?case using new_session_ok [OF accepted.hyps(2)]
    by (auto simp: acceptConnection_def server_inv_def resl_simps Let_def split: if_splits)
next
  case (session srv i s e s' fs')
  have s: "own_files s" "smtp_inv s" "s_id s = i" using session by (auto simp: server_inv_def)
  have "own_files s'" "s_id s' = i"
    using smtp_step_confined [OF session.hyps(3)] s by (auto simp: confined_def)
  moreover have "smtp_inv s'" using smtp_step_inv [OF session.hyps(3)] s by simp
  ultimately show ?case using session.prems by (auto simp: server_inv_def closeSession_def)
qed (simp_all add: server_inv_def)

interpretation smtp_srv: event_machine server_step server_run
  by unfold_locales (auto elim: server_run.cases)

lemma server_run_inv: "server_run srv es srv' \<Longrightarrow> server_inv srv \<Longrightarrow> server_inv srv'"
  by (rule smtp_srv.run_invariant) (auto intro: server_step_inv)

text \<open>Once the loop has ended nothing is served any more, whatever clients do.\<close>

lemma stopped_for_good: "server_run srv es srv' \<Longrightarrow> \<not> smtp_running srv \<Longrightarrow> srv' = srv"
  by (rule smtp_srv.run_stays) (auto elim: server_step.cases)

lemma server_step_grows: "server_step srv e srv' \<Longrightarrow> dom (smtp_sessions srv) \<subseteq> dom (smtp_sessions srv')"
  by (induction rule: server_step.induct) (auto simp: acceptConnection_def resl_simps closeSession_def Let_def)

lemma server_run_grows: "server_run srv es srv' \<Longrightarrow> dom (smtp_sessions srv) \<subseteq> dom (smtp_sessions srv')"
  by (rule smtp_srv.run_related) (auto dest: server_step_grows)

end
