(* ===== verification/SMTP_Dialogue.thy ===== *)
theory SMTP_Dialogue
  imports SMTP_Server
begin

text \<open>
  The dialogue of a mail transaction: what each command does when it arrives in one segment, and
  the run from the greeting to the delivered message.
\<close>

section \<open>Commands as the buffer holds them\<close>

definition filled :: "string \<Rightarrow> smtp_session \<Rightarrow> smtp_session" where
  "filled t s = s\<lparr>s_buffer := overwrite (s_buffer s) 0 (to_bytes t), s_length := length t, s_pending := Idle\<rparr>"

lemma filled_fields [simp]:
  "receiveMessage (filled t s) = receiveMessage s" "lastCommand (filled t s) = lastCommand s"
  "rcptCount (filled t s) = rcptCount s" "recipients (filled t s) = recipients s"
  "returnAddress (filled t s) = returnAddress s" "messageOut (filled t s) = messageOut s"
  "messagePath (filled t s) = messagePath s" "s_id (filled t s) = s_id s" "s_replies (filled t s) = s_replies s"
  "s_length (filled t s) = length t"
  by (simp_all add: filled_def)

lemma filled_text [simp]: "of_bytes (s_buffer (filled t s)) = t @ drop (length t) (buffer_text s)"
  by (simp add: filled_def overwrite_0_append) (simp add: of_bytes_def drop_map)

lemma filled_length [simp]: "length (s_buffer s) = 512 \<Longrightarrow> length t \<le> 512 \<Longrightarrow> length (s_buffer (filled t s)) = 512"
  by (simp add: filled_def)

lemma on_read_filled:
  "on_read (to_bytes t) (s, fs) =
     (if receiveMessage s then processMessage (filled t s, fs) else processCommand (filled t s, fs))"
  by (simp add: on_read_def filled_def Let_def)

text \<open>The first word of a command and the character behind it.\<close>

lemma scan_word:
  "\<forall>c \<in> set w. P c \<Longrightarrow> \<not> P c \<Longrightarrow> length w < k \<Longrightarrow> takeWhile P (take k (w @ c # rest)) = w"
proof (induction w arbitrary: k)
  case Nil
  then show ?case by (cases k) simp_all
next
  case (Cons a w)
  then show ?case by (cases k) simp_all
qed

lemma processCommand_word:
  assumes "buffer_text s = w @ c # rest" "\<forall>x \<in> set w. x \<noteq> CHR '' '' \<and> \<not> is_eol x" "c = CHR '' '' \<or> is_eol c"
    and "length w < 512"
  shows "processCommand (s, fs) =
    (if c = CHR '' '' then
       (if strncmp_eq (w @ c # rest) ''MAIL FROM'' (length w) then processMailFrom (s, fs)
        else if strncmp_eq (w @ c # rest) ''RCPT TO'' (length w) then processRcptTo (s, fs) else reply 502 (s, fs))
     else if length w \<noteq> 4 then reply 500 (s, fs)
     else if w = ''HELO'' then processHelo (s, fs) else if w = ''DATA'' then processData (s, fs)
     else if w = ''RSET'' then processRset (s, fs) else if w = ''VRFY'' then processVrfy (s, fs)
     else if w = ''NOOP'' then processNoop (s, fs) else if w = ''QUIT'' then processQuit (s, fs) else reply 502 (s, fs))"
proof -
  have n: "takeWhile (\<lambda>x. x \<noteq> CHR '' '' \<and> \<not> is_eol x) (take COMMAND_BUFFER_SIZE (w @ c # rest)) = w"
    using assms(2-4) by (intro scan_word) (auto simp: COMMAND_BUFFER_SIZE_def)
  have lit: "strncmp_eq (w @ c # rest) t 4 \<longleftrightarrow> w = t"
    if "length w = 4" "length t = 4" "CHR 0x00 \<notin> set t" for t
    using that strncmp_eq_literal [of t 4 "w @ c # rest"] by simp
  show ?thesis
    unfolding processCommand_def Let_def fst_conv assms(1) n rd_prefix bind_res_Inr
    using assms(4) lit by (cases "length w = 4") (simp_all add: COMMAND_BUFFER_SIZE_def split del: if_split cong: if_cong)
qed

section \<open>Addresses\<close>

lemma scan_end_address:
  assumes "drop (Suc i) buf = addr @ c # rest" "\<forall>x \<in> set addr. x \<noteq> CHR ''>'' \<and> \<not> is_eol x"
    and "c = CHR ''>'' \<or> is_eol c" "i + length addr < COMMAND_BUFFER_SIZE"
  shows "scan_end buf i = Inr (i + length addr)"
  using assms
proof (induction addr arbitrary: i)
  case Nil
  then have "rd buf (i + 1) = Inr c"
    by (metis Suc_eq_plus1 append_Nil length_drop list.discI drop_eq_Nil2 not_le nth_via_drop rd_in)
  with Nil show ?case by (subst scan_end.simps) auto
next
  case (Cons a addr)
  then have r: "rd buf (i + 1) = Inr a"
    by (metis Suc_eq_plus1 append_Cons drop_eq_Nil2 list.discI not_le nth_via_drop rd_in)
  have "drop (Suc (i + 1)) buf = addr @ c # rest"
    using Cons.prems(1) by (metis Suc_eq_plus1 append_Cons drop_Suc list.sel(3) tl_drop)
  with Cons have "scan_end buf (i + 1) = Inr (i + 1 + length addr)" by (intro Cons.IH) auto
  with r Cons.prems show ?case by (subst scan_end.simps) auto
qed

lemma getAddress_found:
  assumes "buf = pre @ CHR ''<'' # addr @ CHR ''>'' # rest" "\<forall>x \<in> set pre. x \<noteq> CHR ''<'' \<and> \<not> is_eol x"
    and "\<forall>x \<in> set addr. x \<noteq> CHR ''>'' \<and> \<not> is_eol x" "length pre + length addr < 512"
  shows "getAddress buf = Inr addr"
proof -
  have w: "takeWhile (\<lambda>c. c \<noteq> CHR ''<'' \<and> \<not> is_eol c) (take COMMAND_BUFFER_SIZE buf) = pre"
    using assms by (simp only: assms(1)) (rule scan_word, auto simp: COMMAND_BUFFER_SIZE_def)
  have "drop (Suc (length pre)) buf = addr @ CHR ''>'' # rest" using assms(1) by simp
  then have e: "scan_end buf (length pre) = Inr (length pre + length addr)"
    using assms(3,4) by (intro scan_end_address) (auto simp: COMMAND_BUFFER_SIZE_def)
  have "rd buf (length pre) = Inr (CHR ''<'')" "rd buf (length pre + length addr + 1) = Inr (CHR ''>'')"
    using rd_prefix [of pre] rd_prefix [of "pre @ CHR ''<'' # addr"] assms(1) by simp_all
  moreover have "length pre < 512" "take (length addr) (drop (length pre + 1) buf) = addr"
    using assms(1,4) by simp_all
  ultimately show ?thesis
    unfolding getAddress_def w Let_def using e assms(4) by (simp add: COMMAND_BUFFER_SIZE_def)
qed

text \<open>A line without an address.\<close>

lemma getAddress_none:
  assumes "buf = pre @ c # rest" "\<forall>x \<in> set pre. x \<noteq> CHR ''<'' \<and> \<not> is_eol x" "is_eol c" "length pre < 512"
  shows "getAddress buf = Inr []"
proof -
  have w: "takeWhile (\<lambda>c. c \<noteq> CHR ''<'' \<and> \<not> is_eol c) (take COMMAND_BUFFER_SIZE buf) = pre"
    using assms by (simp only: assms(1)) (rule scan_word, auto simp: COMMAND_BUFFER_SIZE_def)
  have "rd buf (length pre) = Inr c" using assms(1) by simp
  then show ?thesis
    unfolding getAddress_def w Let_def using assms(3,4) by (auto simp: COMMAND_BUFFER_SIZE_def)
qed

section \<open>A transaction, command by command\<close>

definition mail_cmd :: "string \<Rightarrow> string" where
  "mail_cmd a = ''MAIL FROM:<'' @ a @ ''>'' @ CRLF"

definition rcpt_cmd :: "string \<Rightarrow> string" where
  "rcpt_cmd a = ''RCPT TO:<'' @ a @ ''>'' @ CRLF"

text \<open>An address that fits a command line.\<close>

definition ok_address :: "string \<Rightarrow> bool" where
  "ok_address a \<longleftrightarrow> a \<noteq> [] \<and> length a \<le> 400 \<and> (\<forall>x \<in> set a. x \<noteq> CHR ''>'' \<and> \<not> is_eol x)"

text \<open>A session between two commands.\<close>

definition ready :: "smtp_session \<Rightarrow> bool" where
  "ready s \<longleftrightarrow> s_pending s = Reading \<and> length (s_buffer s) = 512"

lemma step_read:
  "s_pending s = Reading \<Longrightarrow> on_read (to_bytes t) (s, fs) = Inr io' \<Longrightarrow> t \<noteq> [] \<Longrightarrow> length t \<le> 512 \<Longrightarrow>
     smtp_step (s, fs) (Smtp_Read (to_bytes t)) io'"
  by (rule smtp_step.read) (simp_all add: to_bytes_def)

text \<open>A command answered with a code other than 221, and the end of the write.\<close>

definition reading_after :: "nat \<Rightarrow> smtp_session \<Rightarrow> smtp_session" where
  "reading_after code s = s\<lparr>s_pending := Reading, s_replies := s_replies s @ [response_line code]\<rparr>"

lemma reading_after_fields [simp]:
  "receiveMessage (reading_after c s) = receiveMessage s" "lastCommand (reading_after c s) = lastCommand s"
  "rcptCount (reading_after c s) = rcptCount s" "recipients (reading_after c s) = recipients s"
  "messageOut (reading_after c s) = messageOut s" "messagePath (reading_after c s) = messagePath s"
  "s_id (reading_after c s) = s_id s" "s_replies (reading_after c s) = s_replies s @ [response_line c]"
  "s_buffer (reading_after c s) = s_buffer s" "s_pending (reading_after c s) = Reading"
  "returnAddress (reading_after c s) = returnAddress s"
  by (simp_all add: reading_after_def)

lemma smtp_run_append: "smtp_run io es io' \<Longrightarrow> smtp_run io' es' io'' \<Longrightarrow> smtp_run io (es @ es') io''"
  by (induction rule: smtp_run.induct) (auto intro: smtp_cons)

lemma smtp_run_one: "smtp_step io e io' \<Longrightarrow> smtp_run io [e] io'"
  by (rule smtp_cons [OF _ smtp_nil])

lemma command_answered:
  assumes "ready s" "\<not> receiveMessage s" "processCommand (filled t s, fs) = Inr (responded code s', fs')"
    and "t \<noteq> []" "length t \<le> 512" "code \<noteq> 221"
  shows "smtp_run (s, fs) [Smtp_Read (to_bytes t), Smtp_Written] (reading_after code s', fs')"
proof -
  have "smtp_step (s, fs) (Smtp_Read (to_bytes t)) (responded code s', fs')"
    using assms(1-5) by (intro step_read) (simp_all add: ready_def on_read_filled)
  moreover have "smtp_step (responded code s', fs') Smtp_Written (receive (responded code s', fs'))"
    using assms(6) by (intro smtp_step.written) simp_all
  moreover have "receive (responded code s', fs') = (reading_after code s', fs')"
    by (simp add: receive_def responded_def reading_after_def)
  ultimately show ?thesis by (auto intro: smtp_cons smtp_nil)
qed

lemma helo_command:
  assumes "of_path (messageOut s) = None" "fs_creatable fs (message_name (s_id s))"
    "\<not> fs_is_directory fs (message_name (s_id s))"
  shows "processCommand (filled (''HELO'' @ CRLF) s, fs) = Inr (responded 250 ((filled (''HELO'' @ CRLF) s)\<lparr>
    rcptCount := 0, returnAddress := [], messagePath := message_name (s_id s),
    messageOut := \<lparr>of_path = Some (message_name (s_id s)), of_bad = False\<rparr>, lastCommand := Helo\<rparr>),
    set_file (message_name (s_id s)) [] fs)"
proof -
  obtain b where "messageOut s = \<lparr>of_path = None, of_bad = b\<rparr>"
    using assms(1) by (cases "messageOut s") auto
  then have o: "of_open (message_name (s_id s)) (messageOut s, fs)
      = (\<lparr>of_path = Some (message_name (s_id s)), of_bad = False\<rparr>, set_file (message_name (s_id s)) [] fs)"
    using assms(2,3) by (simp add: of_open_def)
  have "processCommand (filled (''HELO'' @ CRLF) s, fs) = processHelo (filled (''HELO'' @ CRLF) s, fs)"
    by (subst processCommand_word [where w = "''HELO''" and c = "CHR 0x0D"
          and rest = "CHR 0x0A # drop (length (''HELO'' @ CRLF)) (buffer_text s)"]) simp_all
  then show ?thesis by (simp add: processHelo_def createMessage_def o Let_def)
qed

lemma mail_command:
  assumes "lastCommand s = Helo \<or> lastCommand s = Rset" "ok_address a"
  shows "processCommand (filled (mail_cmd a) s, fs) = Inr (responded 250 ((filled (mail_cmd a) s)\<lparr>
    returnAddress := a, lastCommand := MailFrom\<rparr>), fs)"
proof -
  let ?s = "filled (mail_cmd a) s" and ?r = "CRLF @ drop (length (mail_cmd a)) (buffer_text s)"
  have g: "getAddress (buffer_text ?s) = Inr a"
    by (rule getAddress_found [where pre = "''MAIL FROM:''" and rest = ?r])
      (use assms(2) in \<open>auto simp: mail_cmd_def ok_address_def\<close>)
  have "processCommand (?s, fs) = processMailFrom (?s, fs)"
    by (subst processCommand_word [where w = "''MAIL''" and c = "CHR '' ''"
          and rest = "''FROM:<'' @ a @ ''>'' @ ?r"])
      (simp_all add: mail_cmd_def strncmp_eq_def)
  with g assms show ?thesis by (auto simp: processMailFrom_def ok_address_def)
qed

lemma rcpt_command:
  assumes "lastCommand s = MailFrom" "unat (rcptCount s) < MAX_RCPT_ALLOWED"
    and "ok_address (user @ CHR ''@'' # domain)" "CHR ''@'' \<notin> set user"
    and "\<not> fs_denied fs (path_append mailboxesRoot domain)" "fs_is_directory fs (path_append mailboxesRoot domain)"
  shows "processCommand (filled (rcpt_cmd (user @ CHR ''@'' # domain)) s, fs)
    = Inr (responded 250 ((filled (rcpt_cmd (user @ CHR ''@'' # domain)) s)\<lparr>
        recipients := (recipients s)[unat (rcptCount s) := (user @ CHR ''@'' # domain,
          path_append (path_append mailboxesRoot domain) user)],
        rcptCount := rcptCount s + 1\<rparr>), fs)"
proof -
  let ?a = "user @ CHR ''@'' # domain"
  let ?s = "filled (rcpt_cmd ?a) s" and ?r = "CRLF @ drop (length (rcpt_cmd ?a)) (buffer_text s)"
  have g: "getAddress (buffer_text ?s) = Inr ?a"
    by (rule getAddress_found [where pre = "''RCPT TO:''" and rest = ?r])
      (use assms(3) in \<open>auto simp: rcpt_cmd_def ok_address_def\<close>)
  have "processCommand (?s, fs) = processRcptTo (?s, fs)"
    by (subst processCommand_word [where w = "''RCPT''" and c = "CHR '' ''"
          and rest = "''TO:<'' @ ?a @ ''>'' @ ?r"])
      (simp_all add: rcpt_cmd_def strncmp_eq_def)
  with g assms show ?thesis by (simp add: processRcptTo_def Let_def not_le)
qed

lemma data_command:
  assumes "lastCommand s \<noteq> Data"
  shows "processCommand (filled (''DATA'' @ CRLF) s, fs) = Inr (responded 354 ((filled (''DATA'' @ CRLF) s)\<lparr>
    receiveMessage := True, lastCommand := Data\<rparr>), fs)"
  using assms
  by (subst processCommand_word [where w = "''DATA''" and c = "CHR 0x0D" and rest = "CHR 0x0A # drop (length (''DATA'' @ CRLF)) (buffer_text s)"])
    (simp_all add: processData_def)

section \<open>Recipients\<close>

text \<open>A recipient as (user, domain): the command's address and the entry stored for it.\<close>

fun rcpt_address :: "string \<times> string \<Rightarrow> string" where
  "rcpt_address (user, domain) = user @ CHR ''@'' # domain"

fun rcpt_mailbox :: "string \<times> string \<Rightarrow> string" where
  "rcpt_mailbox (user, domain) = path_append (path_append mailboxesRoot domain) user"

definition ok_rcpt :: "fsys \<Rightarrow> string \<times> string \<Rightarrow> bool" where
  "ok_rcpt fs r \<longleftrightarrow> ok_address (rcpt_address r) \<and> CHR ''@'' \<notin> set (fst r)
     \<and> \<not> fs_denied fs (path_append mailboxesRoot (snd r)) \<and> fs_is_directory fs (path_append mailboxesRoot (snd r))"

definition rcpt_events :: "(string \<times> string) list \<Rightarrow> smtp_event list" where
  "rcpt_events rs = concat (map (\<lambda>r. [Smtp_Read (to_bytes (rcpt_cmd (rcpt_address r))), Smtp_Written]) rs)"

definition stored_recipients :: "smtp_session \<Rightarrow> (string \<times> string) list" where
  "stored_recipients s = take (unat (rcptCount s)) (recipients s)"

lemma rcpt_cmd_length: "ok_address a \<Longrightarrow> length (rcpt_cmd a) \<le> 512 \<and> rcpt_cmd a \<noteq> []"
  by (simp add: rcpt_cmd_def ok_address_def)

lemma recipients_run:
  assumes "ready s" "\<not> receiveMessage s" "lastCommand s = MailFrom" "length (recipients s) = MAX_RCPT_ALLOWED"
    and "unat (rcptCount s) + length rs \<le> MAX_RCPT_ALLOWED" "\<forall>r \<in> set rs. ok_rcpt fs r"
  shows "\<exists>s'. smtp_run (s, fs) (rcpt_events rs) (s', fs)
    \<and> ready s' \<and> \<not> receiveMessage s' \<and> lastCommand s' = MailFrom
    \<and> messageOut s' = messageOut s \<and> messagePath s' = messagePath s
    \<and> stored_recipients s' = stored_recipients s @ map (\<lambda>r. (rcpt_address r, rcpt_mailbox r)) rs
    \<and> s_replies s' = s_replies s @ replicate (length rs) (response_line 250)"
  using assms
proof (induction rs arbitrary: s)
  case Nil
  then show ?case by (intro exI [of _ s]) (simp add: rcpt_events_def smtp_nil)
next
  case (Cons r rs)
  obtain user domain where r: "r = (user, domain)" by (cases r)
  let ?t = "rcpt_cmd (rcpt_address r)"
  let ?s = "reading_after 250 ((filled ?t s)\<lparr>recipients := (recipients s)[unat (rcptCount s) := (rcpt_address r, rcpt_mailbox r)],
        rcptCount := rcptCount s + 1\<rparr>)"
  have n: "unat (rcptCount s) < 100" using Cons.prems(5) by (simp add: MAX_RCPT_ALLOWED_def)
  have ok: "ok_rcpt fs r" using Cons.prems(6) by simp
  have len: "?t \<noteq> []" "length ?t \<le> 512" using rcpt_cmd_length ok by (auto simp: ok_rcpt_def)
  have cmd: "processCommand (filled ?t s, fs) = Inr (responded 250 ((filled ?t s)\<lparr>
      recipients := (recipients s)[unat (rcptCount s) := (rcpt_address r, rcpt_mailbox r)], rcptCount := rcptCount s + 1\<rparr>), fs)"
    using rcpt_command [of s user domain fs] Cons.prems(3) n ok by (simp add: r ok_rcpt_def MAX_RCPT_ALLOWED_def)
  have run: "smtp_run (s, fs) [Smtp_Read (to_bytes ?t), Smtp_Written] (?s, fs)"
    by (rule command_answered [OF Cons.prems(1,2) cmd len]) simp
  have n1: "unat (rcptCount s + 1) = Suc (unat (rcptCount s))" using n by (simp add: unat_word_ariths)
  have st: "stored_recipients ?s = stored_recipients s @ [(rcpt_address r, rcpt_mailbox r)]"
    using n Cons.prems(4) n1 by (simp add: stored_recipients_def MAX_RCPT_ALLOWED_def take_Suc_conv_app_nth)
  have "ready ?s" using Cons.prems(1) len by (simp add: ready_def)
  then obtain s' where s': "smtp_run (?s, fs) (rcpt_events rs) (s', fs)"
      "ready s'" "\<not> receiveMessage s'" "lastCommand s' = MailFrom"
      "messageOut s' = messageOut ?s" "messagePath s' = messagePath ?s"
      "stored_recipients s' = stored_recipients ?s @ map (\<lambda>r. (rcpt_address r, rcpt_mailbox r)) rs"
      "s_replies s' = s_replies ?s @ replicate (length rs) (response_line 250)"
    using Cons.IH [of ?s] Cons.prems n1 by auto
  have "smtp_run (s, fs) (rcpt_events (r # rs)) (s', fs)"
    using smtp_run_append [OF run s'(1)] by (simp add: rcpt_events_def)
  with s' st show ?case by (intro exI [of _ s']) simp
qed

section \<open>The message text\<close>

lemma terminator_iff:
  "length t \<le> 512 \<Longrightarrow> (s_length (filled t s) = 3 \<and> strncmp_eq (of_bytes (s_buffer (filled t s))) (''.'' @ CRLF) 3) \<longleftrightarrow> t = ''.'' @ CRLF"
  using strncmp_eq_literal [of "''.'' @ CRLF" 3 "of_bytes (s_buffer (filled t s))"]
  by (auto simp: numeral_3_eq_3)

lemma chunk_step:
  assumes "ready s" "receiveMessage s" "messageOut s = \<lparr>of_path = Some p, of_bad = False\<rparr>" "fs_files fs p = Some old"
    and "t \<noteq> []" "length t \<le> 512" "t \<noteq> ''.'' @ CRLF"
  shows "smtp_step (s, fs) (Smtp_Read (to_bytes t)) ((filled t s)\<lparr>s_pending := Reading\<rparr>, set_file p (old @ to_bytes t) fs)"
proof -
  have nt: "\<not> (s_length (filled t s) = 3 \<and> strncmp_eq (of_bytes (s_buffer (filled t s))) (''.'' @ CRLF) 3)"
    using terminator_iff [OF assms(6)] assms(7) by blast
  have b: "take (s_length (filled t s)) (s_buffer (filled t s)) = to_bytes t"
    by (simp add: filled_def) (metis length_to_bytes take_overwrite_0)
  have "processMessage (filled t s, fs) = Inr ((filled t s)\<lparr>s_pending := Reading\<rparr>, set_file p (old @ to_bytes t) fs)"
    unfolding processMessage_def prod.case Let_def if_not_P [OF nt] b
    using assms(3,4) by (simp add: of_write_open receive_def filled_def)
  then show ?thesis
    using assms by (intro step_read) (simp_all add: ready_def on_read_filled)
qed

lemma chunks_run:
  assumes "ready s" "receiveMessage s" "messageOut s = \<lparr>of_path = Some p, of_bad = False\<rparr>" "fs_files fs p = Some old"
    and "\<forall>t \<in> set ts. t \<noteq> [] \<and> length t \<le> 512 \<and> t \<noteq> ''.'' @ CRLF"
  shows "\<exists>s'. smtp_run (s, fs) (map (\<lambda>t. Smtp_Read (to_bytes t)) ts) (s', set_file p (old @ to_bytes (concat ts)) fs)
    \<and> ready s' \<and> receiveMessage s' \<and> messageOut s' = messageOut s \<and> messagePath s' = messagePath s
    \<and> stored_recipients s' = stored_recipients s \<and> s_replies s' = s_replies s"
  using assms
proof (induction ts arbitrary: s fs old)
  case Nil
  have "set_file p old fs = fs" using Nil.prems(4) by (simp add: set_file_def fun_upd_idem)
  then show ?case by (intro exI [of _ s]) (simp add: Nil.prems smtp_nil)
next
  case (Cons t ts)
  let ?s = "(filled t s)\<lparr>s_pending := Reading\<rparr>" and ?fs = "set_file p (old @ to_bytes t) fs"
  have t: "t \<noteq> []" "length t \<le> 512" "t \<noteq> ''.'' @ CRLF" using Cons.prems(5) by auto
  note step = chunk_step [OF Cons.prems(1-4) t]
  have "ready ?s" using Cons.prems(1) t(2) by (simp add: ready_def)
  then obtain s' where s': "smtp_run (?s, ?fs) (map (\<lambda>t. Smtp_Read (to_bytes t)) ts)
        (s', set_file p ((old @ to_bytes t) @ to_bytes (concat ts)) ?fs)"
      "ready s'" "receiveMessage s'" "messageOut s' = messageOut ?s" "messagePath s' = messagePath ?s"
      "stored_recipients s' = stored_recipients ?s" "s_replies s' = s_replies ?s"
    using Cons.IH [of ?s ?fs "old @ to_bytes t"] Cons.prems by auto
  have eq: "set_file p ((old @ to_bytes t) @ to_bytes (concat ts)) ?fs = set_file p (old @ to_bytes (concat (t # ts))) fs"
    by (simp add: set_file_def)
  from smtp_cons [OF step s'(1)] s'(2-) show ?case
    unfolding eq by (intro exI [of _ s']) (simp add: stored_recipients_def)
qed

section \<open>Delivery\<close>

definition mailbox_ok :: "fsys \<Rightarrow> string \<Rightarrow> string \<Rightarrow> bool" where
  "mailbox_ok fs msg m \<longleftrightarrow> \<not> fs_denied fs m \<and> fs_is_directory fs m
     \<and> fs_creatable fs (path_append m (path_filename msg)) \<and> path_append m (path_filename msg) \<noteq> msg"

lemma deliver_fold:
  assumes "fs_files fs msg = Some d" "\<forall>r \<in> set rs. mailbox_ok fs msg (snd r)"
    and "fold (deliver_one msg) rs (us, fs) = (us', fs')"
  shows "us' = us \<and> fs_files fs' = (\<lambda>p. if p \<in> (\<lambda>r. path_append (snd r) (path_filename msg)) ` set rs \<and> \<not> fs_exists fs p
      then Some d else fs_files fs p)"
  using assms
proof (induction rs arbitrary: us fs)
  case (Cons r rs)
  obtain a m where r: "r = (a, m)" by (cases r)
  let ?T = "path_append m (path_filename msg)"
  define fs1 where "fs1 = (if fs_exists fs ?T then fs else set_file ?T d fs)"
  have ok: "\<not> fs_denied fs m" "fs_is_directory fs m" "fs_creatable fs ?T" "?T \<noteq> msg"
    using Cons.prems(2) r by (auto simp: mailbox_ok_def)
  have ex: "fs_exists fs m" using ok(2) by (simp add: fs_exists_def fs_is_directory_def)
  have c: "fs_copy msg m fs = fs1"
    using Cons.prems(1) ok by (simp add: fs_copy_def fs1_def)
  have one: "deliver_one msg r (us, fs) = (us, fs1)"
    using ok(1) ex c by (simp add: r)
  have ff: "fs_files fs1 = (\<lambda>p. if p = ?T \<and> \<not> fs_exists fs p then Some d else fs_files fs p)"
    "fs_dirs fs1 = fs_dirs fs" "fs_denied fs1 = fs_denied fs" "fs_creatable fs1 = fs_creatable fs"
    by (auto simp: fs1_def fun_eq_iff)
  have e1: "fs_exists fs1 p \<longleftrightarrow> fs_exists fs p \<or> p = ?T" for p
    by (auto simp: fs_exists_def ff)
  have d1: "fs_is_directory fs1 p \<longleftrightarrow> fs_is_directory fs p" for p
    by (auto simp: fs_is_directory_def ff fs_exists_def)
  have "us' = us \<and> fs_files fs' = (\<lambda>p. if p \<in> (\<lambda>r. path_append (snd r) (path_filename msg)) ` set rs \<and> \<not> fs_exists fs1 p
      then Some d else fs_files fs1 p)"
  proof (rule Cons.IH)
    show "fs_files fs1 msg = Some d" using Cons.prems(1) ok(4) by (simp add: ff)
    show "\<forall>r \<in> set rs. mailbox_ok fs1 msg (snd r)" using Cons.prems(2) by (simp add: mailbox_ok_def ff d1)
    show "fold (deliver_one msg) rs (us, fs1) = (us', fs')" using Cons.prems(3) one by simp
  qed
  then show ?case by (auto simp: ff(1) e1 r fun_eq_iff)
qed simp

end
