(* ===== verification/SMTP_Properties.thy ===== *)
theory SMTP_Properties
  imports SMTP_Dialogue
begin

text \<open>
  The properties of the SMTP server: a whole mail transaction, what the state machine can no
  longer do after a message, the mail it loses, and what its sessions share.
\<close>

section \<open>A mail transaction\<close>

definition message_events :: "string list \<Rightarrow> smtp_event list" where
  "message_events ts = map (\<lambda>t. Smtp_Read (to_bytes t)) ts @ [Smtp_Read (to_bytes (''.'' @ CRLF))]"

definition command_events :: "string \<Rightarrow> smtp_event list" where
  "command_events t = [Smtp_Read (to_bytes t), Smtp_Written]"

definition ok_chunk :: "string \<Rightarrow> bool" where
  "ok_chunk t \<longleftrightarrow> t \<noteq> [] \<and> length t \<le> 512 \<and> t \<noteq> ''.'' @ CRLF"

definition delivery_target :: "u32 \<Rightarrow> string \<times> string \<Rightarrow> string" where
  "delivery_target i r = path_append (rcpt_mailbox r) (path_filename (message_name i))"

lemma domain_prefix: "take 4 (path_append mailboxesRoot d) = ''./ma''"
proof -
  have "take 4 mailboxesRoot = ''./ma''" "4 \<le> length mailboxesRoot" by (simp_all add: mailboxesRoot_def)
  then show ?thesis by (simp add: take_path_append)
qed

lemma rcpt_mailbox_not_message [simp]:
  "rcpt_mailbox r \<noteq> message_name i" "delivery_target i r \<noteq> message_name j"
  "path_append mailboxesRoot d \<noteq> message_name i"
proof -
  show "rcpt_mailbox r \<noteq> message_name i" using mailbox_not_message(1) by (cases r) simp
  show "delivery_target i r \<noteq> message_name j" using mailbox_not_message(2) by (cases r) (simp add: delivery_target_def)
  have "''./ma'' \<noteq> ''./me''" by simp
  then show "path_append mailboxesRoot d \<noteq> message_name i"
    using domain_prefix message_name_prefix [of i] by metis
qed

text \<open>The last segment of a message: delivery to every recipient, then the message file is removed.\<close>

lemma terminator_step:
  assumes "ready s" "receiveMessage s" "messagePath s = msg" "fs_files fs msg = Some d" "\<not> fs_denied fs msg"
    and "stored_recipients s = map (\<lambda>r. (rcpt_address r, rcpt_mailbox r)) rs"
    and "\<forall>r \<in> set rs. mailbox_ok fs msg (rcpt_mailbox r)"
  shows "\<exists>s' fs'. smtp_step (s, fs) (Smtp_Read (to_bytes (''.'' @ CRLF))) (s', fs')
    \<and> s_replies s' = s_replies s @ [response_line 250] \<and> unknownRecipients s' = []
    \<and> fs_files fs' = (\<lambda>p. if p = msg then None
        else if p \<in> (\<lambda>r. path_append (rcpt_mailbox r) (path_filename msg)) ` set rs \<and> \<not> fs_exists fs p
        then Some d else fs_files fs p)"
proof -
  let ?t = "''.'' @ CRLF"
  let ?s = "(filled ?t s)\<lparr>messageOut := of_close (messageOut s)\<rparr>"
  obtain us fs1 where f: "fold (deliver_one msg) (stored_recipients s) ([], fs) = (us, fs1)"
    by (cases "fold (deliver_one msg) (stored_recipients s) ([], fs)")
  have "us = [] \<and> fs_files fs1 = (\<lambda>p. if p \<in> (\<lambda>r. path_append (snd r) (path_filename msg)) ` set (stored_recipients s)
      \<and> \<not> fs_exists fs p then Some d else fs_files fs p)"
    by (rule deliver_fold [OF assms(4) _ f]) (use assms(6,7) in auto)
  then have us: "us = []" and fs1: "fs_files fs1 = (\<lambda>p. if p \<in> (\<lambda>r. path_append (rcpt_mailbox r) (path_filename msg)) ` set rs
      \<and> \<not> fs_exists fs p then Some d else fs_files fs p)"
    by (simp_all add: assms(6) image_image)
  have den: "fs_denied fs1 = fs_denied fs"
  proof -
    have "fs_denied (snd (fold (deliver_one msg) l (u, g))) = fs_denied g" for l u g
    proof (induction l arbitrary: u g)
      case (Cons a l)
      have c: "fs_denied (fs_copy src dst h) = fs_denied h" for src dst h
        by (auto simp: fs_copy_def Let_def split: option.split)
      show ?case by (cases a) (simp add: Cons c)
    qed simp
    from this [of "stored_recipients s" "[]" fs] f show ?thesis by simp
  qed
  have del: "deliverMessage (?s, fs) = (?s\<lparr>unknownRecipients := []\<rparr>, fs1)"
    using f us assms(3) by (simp add: deliverMessage_def stored_recipients_def)
  have last: "s_length (filled ?t s) = 3 \<and> strncmp_eq (buffer_text (filled ?t s)) (''.'' @ CRLF) 3"
    using terminator_iff [of ?t s] by simp
  let ?s' = "?s\<lparr>unknownRecipients := [], messageOut := of_close (of_close (messageOut s))\<rparr>"
  have "processMessage (filled ?t s, fs) = Inr (responded 250 ?s', fs_remove msg fs1)"
    unfolding processMessage_def prod.case Let_def if_P [OF last]
    unfolding filled_fields del
    using assms(3,5) den by (simp add: deleteMessage_def)
  then have "smtp_step (s, fs) (Smtp_Read (to_bytes ?t)) (responded 250 ?s', fs_remove msg fs1)"
    using assms(1,2) by (intro step_read) (simp_all add: ready_def on_read_filled)
  then show ?thesis
    by (intro exI conjI, assumption) (auto simp: fs1 fun_eq_iff responded_def)
qed

text \<open>Sender, recipients and the DATA command, from a session that has just been greeted or reset.\<close>

lemma envelope_run:
  assumes "ready s" "\<not> receiveMessage s" "lastCommand s = Helo \<or> lastCommand s = Rset" "rcptCount s = 0"
    and "length (recipients s) = MAX_RCPT_ALLOWED" "ok_address a" "length rs \<le> MAX_RCPT_ALLOWED" "\<forall>r \<in> set rs. ok_rcpt fs r"
  shows "\<exists>s'. smtp_run (s, fs) (command_events (mail_cmd a) @ rcpt_events rs @ command_events (''DATA'' @ CRLF)) (s', fs)
    \<and> ready s' \<and> receiveMessage s' \<and> messageOut s' = messageOut s \<and> messagePath s' = messagePath s
    \<and> stored_recipients s' = map (\<lambda>r. (rcpt_address r, rcpt_mailbox r)) rs
    \<and> s_replies s' = s_replies s @ replicate (Suc (length rs)) (response_line 250) @ [response_line 354]"
proof -
  let ?m = "mail_cmd a" and ?d = "''DATA'' @ CRLF"
  let ?s1 = "reading_after 250 ((filled ?m s)\<lparr>returnAddress := a, lastCommand := MailFrom\<rparr>)"
  have m: "?m \<noteq> []" "length ?m \<le> 512" using assms(6) by (simp_all add: mail_cmd_def ok_address_def)
  have r1: "smtp_run (s, fs) (command_events ?m) (?s1, fs)"
    unfolding command_events_def
    by (rule command_answered [OF assms(1,2) mail_command [OF assms(3,6)] m]) simp
  have "ready ?s1" using assms(1) m by (simp add: ready_def)
  then obtain s2 where 2: "smtp_run (?s1, fs) (rcpt_events rs) (s2, fs)" "ready s2" "\<not> receiveMessage s2"
      "lastCommand s2 = MailFrom" "messageOut s2 = messageOut s" "messagePath s2 = messagePath s"
      "stored_recipients s2 = map (\<lambda>r. (rcpt_address r, rcpt_mailbox r)) rs"
      "s_replies s2 = s_replies s @ [response_line 250] @ replicate (length rs) (response_line 250)"
    using recipients_run [of ?s1 rs fs] assms by (auto simp: stored_recipients_def)
  let ?s3 = "reading_after 354 ((filled ?d s2)\<lparr>receiveMessage := True, lastCommand := Data\<rparr>)"
  have dc: "processCommand (filled ?d s2, fs) = Inr (responded 354 ((filled ?d s2)\<lparr>receiveMessage := True, lastCommand := Data\<rparr>), fs)"
    using data_command [of s2 fs] 2(4) by simp
  have r3: "smtp_run (s2, fs) (command_events ?d) (?s3, fs)"
    unfolding command_events_def by (rule command_answered [OF 2(2,3) dc]) simp_all
  have "smtp_run (s, fs) (command_events ?m @ rcpt_events rs @ command_events ?d) (?s3, fs)"
    using smtp_run_append [OF r1 smtp_run_append [OF 2(1) r3]] .
  moreover have "ready ?s3" using 2(2) by (simp add: ready_def)
  ultimately show ?thesis using 2 by (intro exI [of _ ?s3]) (simp add: stored_recipients_def)
qed

lemma envelope_conditions_kept:
  "ok_rcpt (set_file (message_name i) d fs) r = ok_rcpt fs r"
  "mailbox_ok (set_file (message_name i) d fs) msg (rcpt_mailbox r) = mailbox_ok fs msg (rcpt_mailbox r)"
  "fs_exists (set_file (message_name i) d fs) (delivery_target j r) = fs_exists fs (delivery_target j r)"
  by (simp_all add: ok_rcpt_def mailbox_ok_def fs_is_directory_def fs_exists_def)

text \<open>C2: a mail transaction works: greeting, sender, any list of at most a hundred recipients whose mailboxes are
  directories, DATA, the text in any number of segments, and the final dot in a segment of its own. Every
  command is answered with 250 (354 for DATA), each mailbox receives a file with exactly the text, the
  message file is gone, and no other file has changed.\<close>
theorem mail_transaction:
  assumes "ready s" "\<not> receiveMessage s" "of_path (messageOut s) = None" "length (recipients s) = MAX_RCPT_ALLOWED"
    and "fs_creatable fs (message_name (s_id s))" "\<not> fs_is_directory fs (message_name (s_id s))"
    and "\<not> fs_denied fs (message_name (s_id s))" "ok_address a" "length rs \<le> MAX_RCPT_ALLOWED"
    and "\<forall>r \<in> set rs. ok_rcpt fs r \<and> mailbox_ok fs (message_name (s_id s)) (rcpt_mailbox r)
      \<and> \<not> fs_exists fs (delivery_target (s_id s) r)"
    and "\<forall>t \<in> set ts. ok_chunk t"
  shows "\<exists>s' fs'. smtp_run (s, fs) (command_events (''HELO'' @ CRLF) @ command_events (mail_cmd a) @ rcpt_events rs
        @ command_events (''DATA'' @ CRLF) @ message_events ts) (s', fs')
    \<and> fs_files fs' = (\<lambda>p. if p = message_name (s_id s) then None
        else if p \<in> delivery_target (s_id s) ` set rs then Some (to_bytes (concat ts)) else fs_files fs p)
    \<and> s_replies s' = s_replies s @ replicate (length rs + 2) (response_line 250)
        @ [response_line 354, response_line 250]
    \<and> unknownRecipients s' = []"
proof -
  let ?msg = "message_name (s_id s)" and ?h = "''HELO'' @ CRLF"
  let ?s1 = "reading_after 250 ((filled ?h s)\<lparr>rcptCount := 0, returnAddress := [], messagePath := ?msg,
    messageOut := \<lparr>of_path = Some ?msg, of_bad = False\<rparr>, lastCommand := Helo\<rparr>)"
  let ?fs1 = "set_file ?msg [] fs"
  have r1: "smtp_run (s, fs) (command_events ?h) (?s1, ?fs1)"
    unfolding command_events_def
    by (rule command_answered [OF assms(1,2) helo_command [OF assms(3,5,6)]]) simp_all
  have ready1: "ready ?s1" using assms(1) by (simp add: ready_def)
  obtain s2 where 2: "smtp_run (?s1, ?fs1) (command_events (mail_cmd a) @ rcpt_events rs @ command_events (''DATA'' @ CRLF)) (s2, ?fs1)"
      "ready s2" "receiveMessage s2" "messageOut s2 = \<lparr>of_path = Some ?msg, of_bad = False\<rparr>" "messagePath s2 = ?msg"
      "stored_recipients s2 = map (\<lambda>r. (rcpt_address r, rcpt_mailbox r)) rs"
      "s_replies s2 = s_replies s @ replicate (length rs + 2) (response_line 250) @ [response_line 354]"
    using envelope_run [OF ready1, of a rs ?fs1] assms(2,4,8,9,10) envelope_conditions_kept by auto
  have chunks: "\<forall>t \<in> set ts. t \<noteq> [] \<and> length t \<le> 512 \<and> t \<noteq> ''.'' @ CRLF"
    using assms(11) by (simp add: ok_chunk_def)
  let ?fs3 = "set_file ?msg (to_bytes (concat ts)) fs"
  have fs3: "set_file ?msg ([] @ to_bytes (concat ts)) ?fs1 = ?fs3" by (simp add: set_file_def)
  obtain s3 where 3: "smtp_run (s2, ?fs1) (map (\<lambda>t. Smtp_Read (to_bytes t)) ts) (s3, ?fs3)"
      "ready s3" "receiveMessage s3" "messagePath s3 = ?msg"
      "stored_recipients s3 = map (\<lambda>r. (rcpt_address r, rcpt_mailbox r)) rs" "s_replies s3 = s_replies s2"
    using chunks_run [OF 2(2-4) _ chunks, of ?fs1 "[]", unfolded fs3] 2(5,6) by auto
  have mb: "\<forall>r \<in> set rs. mailbox_ok ?fs3 ?msg (rcpt_mailbox r)"
    using assms(10) envelope_conditions_kept(2) by blast
  obtain s4 fs4 where 4: "smtp_step (s3, ?fs3) (Smtp_Read (to_bytes (''.'' @ CRLF))) (s4, fs4)"
      "s_replies s4 = s_replies s3 @ [response_line 250]" "unknownRecipients s4 = []"
      "fs_files fs4 = (\<lambda>p. if p = ?msg then None
        else if p \<in> (\<lambda>r. path_append (rcpt_mailbox r) (path_filename ?msg)) ` set rs \<and> \<not> fs_exists ?fs3 p
        then Some (to_bytes (concat ts)) else fs_files ?fs3 p)"
    using terminator_step [OF 3(2,3,4) _ _ 3(5) mb] assms(7) by auto
  have run: "smtp_run (s, fs) (command_events ?h @ (command_events (mail_cmd a) @ rcpt_events rs
      @ command_events (''DATA'' @ CRLF)) @ message_events ts) (s4, fs4)"
    unfolding message_events_def
    by (intro smtp_run_append [OF r1] smtp_run_append [OF 2(1)] smtp_run_append [OF 3(1)] smtp_run_one 4(1))
  have tgt: "(\<lambda>r. path_append (rcpt_mailbox r) (path_filename ?msg)) = delivery_target (s_id s)"
    by (simp add: delivery_target_def fun_eq_iff)
  have ex: "p \<in> delivery_target (s_id s) ` set rs \<Longrightarrow> \<not> fs_exists ?fs3 p" for p
    using assms(10) envelope_conditions_kept(3) by auto
  have "fs_files fs4 = (\<lambda>p. if p = ?msg then None
      else if p \<in> delivery_target (s_id s) ` set rs then Some (to_bytes (concat ts)) else fs_files fs p)"
    unfolding 4(4) tgt using ex by (auto simp: fun_eq_iff)
  with run 4(2,3) 3(6) 2(7) show ?thesis
    by (intro exI [of _ s4] exI [of _ fs4]) simp
qed

definition sample_session :: smtp_session where
  "sample_session = (new_smtp_session 1 (replicate 512 0))\<lparr>s_pending := Reading\<rparr>"

definition sample_fs :: fsys where
  "sample_fs = \<lparr>fs_files = (\<lambda>_. None), fs_dirs = (\<lambda>p. p \<in> {''./mailboxes/lan'', ''./mailboxes/lan/ann''}),
     fs_creatable = (\<lambda>_. True), fs_denied = (\<lambda>_. False)\<rparr>"

lemma message_name_1: "message_name 1 = ''./messages/message-00001.eml''"
  by (simp add: message_name_def zero_pad_def dec_of_nat.simps eval_nat_numeral)

lemma sample_session_ok [simp]:
  "ready sample_session" "\<not> receiveMessage sample_session" "of_path (messageOut sample_session) = None"
  "length (recipients sample_session) = MAX_RCPT_ALLOWED" "s_id sample_session = 1" "lastCommand sample_session = Cmd_Undefined"
  "fs_creatable sample_fs p" "\<not> fs_denied sample_fs p" "fs_files sample_fs = (\<lambda>_. None)" "smtp_inv sample_session"
  "s_replies sample_session = []" "rcptCount sample_session = 0"
  by (simp_all add: sample_session_def new_smtp_session_def ready_def of_closed_def sample_fs_def smtp_inv_def)

lemma sample_rcpt:
  "ok_rcpt sample_fs (''ann'', ''lan'')" "mailbox_ok sample_fs (message_name 1) (rcpt_mailbox (''ann'', ''lan''))"
  "delivery_target 1 (''ann'', ''lan'') = ''./mailboxes/lan/ann/message-00001.eml''"
  "\<not> fs_is_directory sample_fs (message_name 1)" "\<not> fs_exists sample_fs (delivery_target 1 (''ann'', ''lan''))"
  by (simp_all add: ok_rcpt_def ok_address_def sample_fs_def mailboxesRoot_def fs_is_directory_def mailbox_ok_def
      message_name_1 path_filename_def rfind_char_def find_char_def delivery_target_def fs_exists_def)

theorem mail_transaction_witness:
  "\<exists>s' fs'. smtp_run (sample_session, sample_fs) (command_events (''HELO'' @ CRLF) @ command_events (mail_cmd ''bob@lan'')
        @ rcpt_events [(''ann'', ''lan'')] @ command_events (''DATA'' @ CRLF) @ message_events [''Hi'' @ CRLF, ''there'']) (s', fs')
    \<and> fs_files fs' ''./mailboxes/lan/ann/message-00001.eml'' = Some (to_bytes (''Hi'' @ CRLF @ ''there''))"
proof -
  let ?ts = "[''Hi'' @ CRLF, ''there'']" and ?rs = "[(''ann'', ''lan'')]"
  have pre: "fs_creatable sample_fs (message_name (s_id sample_session))"
    "\<not> fs_is_directory sample_fs (message_name (s_id sample_session))" "\<not> fs_denied sample_fs (message_name (s_id sample_session))"
    "ok_address ''bob@lan''" "length ?rs \<le> MAX_RCPT_ALLOWED"
    "\<forall>r \<in> set ?rs. ok_rcpt sample_fs r \<and> mailbox_ok sample_fs (message_name (s_id sample_session)) (rcpt_mailbox r)
      \<and> \<not> fs_exists sample_fs (delivery_target (s_id sample_session) r)"
    "\<forall>t \<in> set ?ts. ok_chunk t"
    using sample_rcpt by (simp_all add: ok_address_def ok_chunk_def MAX_RCPT_ALLOWED_def)
  obtain s' fs' where run: "smtp_run (sample_session, sample_fs) (command_events (''HELO'' @ CRLF) @ command_events (mail_cmd ''bob@lan'')
        @ rcpt_events ?rs @ command_events (''DATA'' @ CRLF) @ message_events ?ts) (s', fs')"
    and fs': "fs_files fs' = (\<lambda>p. if p = message_name (s_id sample_session) then None
        else if p \<in> delivery_target (s_id sample_session) ` set ?rs then Some (to_bytes (concat ?ts)) else fs_files sample_fs p)"
    using mail_transaction [OF sample_session_ok(1-4) pre] by blast
  have "fs_files fs' ''./mailboxes/lan/ann/message-00001.eml'' = Some (to_bytes (''Hi'' @ CRLF @ ''there''))"
    unfolding fs' using sample_rcpt(3) by (simp add: message_name_1)
  with run show ?thesis by blast
qed

section \<open>After a message\<close>

text \<open>A session takes one message only. Once DATA has been accepted, whatever arrives is message text for
  ever: no command is executed again, QUIT included, and the only answer ever sent is 250.\<close>
theorem message_mode_forever:
  assumes "smtp_run (s, fs) es (s', fs')" "receiveMessage s" "lastCommand s = Data"
  shows "receiveMessage s' \<and> lastCommand s' = Data
    \<and> (\<exists>k. s_replies s' = s_replies s @ replicate k (response_line 250))"
  using smtp_run_message_mode [OF assms(1)] assms(2,3) by simp

lemma data_sample:
  "smtp_step (sample_session\<lparr>receiveMessage := True, lastCommand := Data\<rparr>, sample_fs) (Smtp_Read (to_bytes (''QUIT'' @ CRLF)))
    ((filled (''QUIT'' @ CRLF) sample_session)\<lparr>receiveMessage := True, lastCommand := Data,
       messageOut := \<lparr>of_path = None, of_bad = True\<rparr>, s_pending := Reading\<rparr>, sample_fs)"
proof -
  let ?s = "sample_session\<lparr>receiveMessage := True, lastCommand := Data\<rparr>"
  have nt: "\<not> (s_length (filled (''QUIT'' @ CRLF) ?s) = 3
      \<and> strncmp_eq (buffer_text (filled (''QUIT'' @ CRLF) ?s)) (''.'' @ CRLF) 3)"
    by simp
  have "processMessage (filled (''QUIT'' @ CRLF) ?s, sample_fs) = Inr ((filled (''QUIT'' @ CRLF) sample_session)\<lparr>
      receiveMessage := True, lastCommand := Data, messageOut := \<lparr>of_path = None, of_bad = True\<rparr>, s_pending := Reading\<rparr>, sample_fs)"
    unfolding processMessage_def prod.case Let_def if_not_P [OF nt]
    by (simp add: of_write_def receive_def filled_def sample_session_def new_smtp_session_def of_closed_def)
  then show ?thesis by (intro step_read) (simp_all add: on_read_filled ready_def sample_session_def)
qed

theorem message_mode_forever_witness:
  "\<exists>s'. smtp_run (sample_session\<lparr>receiveMessage := True, lastCommand := Data\<rparr>, sample_fs)
      [Smtp_Read (to_bytes (''QUIT'' @ CRLF))] (s', sample_fs) \<and> receiveMessage s' \<and> s_pending s' = Reading"
  using smtp_run_one [OF data_sample] message_mode_forever [OF smtp_run_one [OF data_sample]] by auto

section \<open>Mail that is lost\<close>

lemma lost_chunk_step:
  assumes "ready s" "receiveMessage s" "of_path (messageOut s) = None" "ok_chunk t"
  shows "\<exists>s'. smtp_step (s, fs) (Smtp_Read (to_bytes t)) (s', fs) \<and> ready s' \<and> receiveMessage s'
    \<and> of_path (messageOut s') = None \<and> messagePath s' = messagePath s \<and> s_id s' = s_id s
    \<and> stored_recipients s' = stored_recipients s \<and> s_replies s' = s_replies s"
proof -
  have t: "t \<noteq> []" "length t \<le> 512" "t \<noteq> ''.'' @ CRLF" using assms(4) by (auto simp: ok_chunk_def)
  have nt: "\<not> (s_length (filled t s) = 3 \<and> strncmp_eq (buffer_text (filled t s)) (''.'' @ CRLF) 3)"
    using terminator_iff [OF t(2)] t(3) by blast
  let ?s' = "(filled t s)\<lparr>messageOut := (messageOut s)\<lparr>of_bad := True\<rparr>, s_pending := Reading\<rparr>"
  have "processMessage (filled t s, fs) = Inr (?s', fs)"
    unfolding processMessage_def prod.case Let_def if_not_P [OF nt]
    using assms(3) by (simp add: of_write_closed receive_def)
  then have "smtp_step (s, fs) (Smtp_Read (to_bytes t)) (?s', fs)"
    using assms(1,2) t by (intro step_read) (simp_all add: ready_def on_read_filled)
  then show ?thesis using assms t by (intro exI [of _ ?s']) (simp add: ready_def stored_recipients_def)
qed

lemma lost_chunks_run:
  "ready s \<Longrightarrow> receiveMessage s \<Longrightarrow> of_path (messageOut s) = None \<Longrightarrow> \<forall>t \<in> set ts. ok_chunk t \<Longrightarrow>
    \<exists>s'. smtp_run (s, fs) (map (\<lambda>t. Smtp_Read (to_bytes t)) ts) (s', fs) \<and> ready s' \<and> receiveMessage s'
      \<and> of_path (messageOut s') = None \<and> messagePath s' = messagePath s
      \<and> stored_recipients s' = stored_recipients s \<and> s_replies s' = s_replies s"
proof (induction ts arbitrary: s)
  case (Cons t ts)
  obtain s1 where 1: "smtp_step (s, fs) (Smtp_Read (to_bytes t)) (s1, fs)" "ready s1" "receiveMessage s1"
      "of_path (messageOut s1) = None" "messagePath s1 = messagePath s"
      "stored_recipients s1 = stored_recipients s" "s_replies s1 = s_replies s"
    using lost_chunk_step [OF Cons.prems(1-3), of t fs] Cons.prems(4) by auto
  obtain s2 where "smtp_run (s1, fs) (map (\<lambda>t. Smtp_Read (to_bytes t)) ts) (s2, fs)" "ready s2" "receiveMessage s2"
      "of_path (messageOut s2) = None" "messagePath s2 = messagePath s1"
      "stored_recipients s2 = stored_recipients s1" "s_replies s2 = s_replies s1"
    using Cons.IH [OF 1(2-4)] Cons.prems(4) by auto
  with 1 smtp_cons [OF 1(1)] show ?case by (intro exI [of _ s2]) simp
qed (auto intro: smtp_nil)

lemma lost_after_reset:
  assumes "ready s" "\<not> receiveMessage s" "lastCommand s = Rset" "rcptCount s = 0" "of_path (messageOut s) = None"
    and "length (recipients s) = MAX_RCPT_ALLOWED" "fs_files fs (messagePath s) = None" "ok_address a"
    and "length rs \<le> MAX_RCPT_ALLOWED" "\<forall>r \<in> set rs. ok_rcpt fs r" "\<forall>t \<in> set ts. ok_chunk t"
  shows "\<exists>s' fs'. smtp_run (s, fs) (command_events (mail_cmd a) @ rcpt_events rs
        @ command_events (''DATA'' @ CRLF) @ message_events ts) (s', fs')
    \<and> fs_files fs' = fs_files fs
    \<and> s_replies s' = s_replies s @ replicate (length rs + 1) (response_line 250)
        @ [response_line 354, response_line 250]"
proof -
  obtain s1 where 1: "smtp_run (s, fs) (command_events (mail_cmd a) @ rcpt_events rs @ command_events (''DATA'' @ CRLF)) (s1, fs)"
      "ready s1" "receiveMessage s1" "of_path (messageOut s1) = None" "messagePath s1 = messagePath s"
      "s_replies s1 = s_replies s @ replicate (length rs + 1) (response_line 250) @ [response_line 354]"
    using envelope_run [OF assms(1,2) _ assms(4,6,8,9,10)] assms(3,5) by auto
  obtain s2 where 2: "smtp_run (s1, fs) (map (\<lambda>t. Smtp_Read (to_bytes t)) ts) (s2, fs)" "ready s2" "receiveMessage s2"
      "messagePath s2 = messagePath s1" "s_replies s2 = s_replies s1"
    using lost_chunks_run [OF 1(2-4) assms(11), of fs] by blast
  let ?t = "''.'' @ CRLF"
  let ?s = "(filled ?t s2)\<lparr>messageOut := of_close (messageOut s2)\<rparr>"
  have nofile: "fs_files (snd (fold (deliver_one (messagePath s)) l (us, fs))) = fs_files fs" for l us
  proof (induction l arbitrary: us)
    case (Cons r l)
    then show ?case using assms(7) by (cases r) (simp add: fs_copy_missing)
  qed simp
  let ?io = "deleteMessage (deliverMessage (?s, fs))"
  have last: "s_length (filled ?t s2) = 3 \<and> strncmp_eq (buffer_text (filled ?t s2)) (''.'' @ CRLF) 3"
    using terminator_iff [of ?t s2] by simp
  have io: "fs_files (snd ?io) = fs_files fs" "s_replies (fst ?io) = s_replies s2"
    using nofile assms(7) 1(5) 2(4)
    by (auto simp: deleteMessage_def deliverMessage_def case_prod_unfold Let_def fun_upd_idem)
  have "processMessage (filled ?t s2, fs) = Inr (responded 250 (fst ?io), snd ?io)"
    unfolding processMessage_def prod.case Let_def if_P [OF last]
    by (metis filled_fields(6) prod.collapse reply_simps(2))
  then have step: "smtp_step (s2, fs) (Smtp_Read (to_bytes ?t)) (responded 250 (fst ?io), snd ?io)"
    using 2(2,3) by (intro step_read) (simp_all add: ready_def on_read_filled)
  have "smtp_run (s, fs) ((command_events (mail_cmd a) @ rcpt_events rs @ command_events (''DATA'' @ CRLF))
      @ message_events ts) (responded 250 (fst ?io), snd ?io)"
    unfolding message_events_def
    by (intro smtp_run_append [OF 1(1)] smtp_run_append [OF 2(1)] smtp_run_one step)
  then show ?thesis
    using io 1(6) 2(5) by (intro exI [of _ "responded 250 (fst ?io)"] exI [of _ "snd ?io"]) simp
qed

lemma rset_command:
  assumes "\<not> fs_denied fs (messagePath s)"
  shows "processCommand (filled (''RSET'' @ CRLF) s, fs) = Inr (responded 250 ((filled (''RSET'' @ CRLF) s)\<lparr>
    rcptCount := 0, returnAddress := [], receiveMessage := False, messageOut := of_close (messageOut s), lastCommand := Rset\<rparr>),
    fs_remove (messagePath s) fs)"
  using assms
  by (subst processCommand_word [where w = "''RSET''" and c = "CHR 0x0D"
        and rest = "CHR 0x0A # drop (length (''RSET'' @ CRLF)) (buffer_text s)"])
    (simp_all add: processRset_def deleteMessage_def)

text \<open>A reset session loses mail. After RSET, which closes and removes the message file, a client may go on
  with MAIL, RCPT, DATA and the text, as RFC 5321 allows; every command and the message itself are answered
  as in a successful transaction, but nothing is stored or delivered: apart from the removed message file
  no file changes.\<close>
theorem reset_loses_mail:
  assumes "ready s" "\<not> receiveMessage s" "length (recipients s) = MAX_RCPT_ALLOWED" "\<not> fs_denied fs (messagePath s)"
    and "ok_address a" "length rs \<le> MAX_RCPT_ALLOWED" "\<forall>r \<in> set rs. ok_rcpt fs r" "\<forall>t \<in> set ts. ok_chunk t"
  shows "\<exists>s' fs'. smtp_run (s, fs) (command_events (''RSET'' @ CRLF) @ command_events (mail_cmd a) @ rcpt_events rs
        @ command_events (''DATA'' @ CRLF) @ message_events ts) (s', fs')
    \<and> fs_files fs' = (fs_files fs)(messagePath s := None)
    \<and> s_replies s' = s_replies s @ replicate (length rs + 2) (response_line 250)
        @ [response_line 354, response_line 250]"
proof -
  let ?r = "''RSET'' @ CRLF" and ?fs = "fs_remove (messagePath s) fs"
  let ?s = "reading_after 250 ((filled ?r s)\<lparr>rcptCount := 0, returnAddress := [], receiveMessage := False,
    messageOut := of_close (messageOut s), lastCommand := Rset\<rparr>)"
  have run: "smtp_run (s, fs) (command_events ?r) (?s, ?fs)"
    unfolding command_events_def
    by (rule command_answered [OF assms(1,2) rset_command [OF assms(4)]]) simp_all
  have "ready ?s" using assms(1) by (simp add: ready_def)
  moreover have "\<forall>r \<in> set rs. ok_rcpt ?fs r"
    using assms(7) by (auto simp: ok_rcpt_def fs_is_directory_def)
  moreover have "of_path (of_close os) = None" for os by (simp add: of_close_def)
  ultimately obtain s' fs' where l: "smtp_run (?s, ?fs) (command_events (mail_cmd a) @ rcpt_events rs
        @ command_events (''DATA'' @ CRLF) @ message_events ts) (s', fs')" "fs_files fs' = fs_files ?fs"
      "s_replies s' = s_replies ?s @ replicate (length rs + 1) (response_line 250) @ [response_line 354, response_line 250]"
    using lost_after_reset [of ?s ?fs a rs ts] assms(3,5,6,8) by auto
  from smtp_run_append [OF run l(1)] l(2,3) show ?thesis by (intro exI [of _ s'] exI [of _ fs']) simp
qed

theorem reset_loses_mail_witness:
  "\<exists>s' fs'. smtp_run (sample_session, sample_fs) (command_events (''RSET'' @ CRLF) @ command_events (mail_cmd ''bob@lan'')
        @ rcpt_events [(''ann'', ''lan'')] @ command_events (''DATA'' @ CRLF) @ message_events [''Hi'']) (s', fs')
    \<and> fs_files fs' ''./mailboxes/lan/ann/message-00001.eml'' = None \<and> length (s_replies s') = 5"
proof -
  have pre: "\<not> fs_denied sample_fs (messagePath sample_session)" "ok_address ''bob@lan''"
    "length [(''ann'', ''lan'')] \<le> MAX_RCPT_ALLOWED" "\<forall>r \<in> set [(''ann'', ''lan'')]. ok_rcpt sample_fs r"
    "\<forall>t \<in> set [''Hi'']. ok_chunk t"
    using sample_rcpt(1) by (simp_all add: ok_address_def ok_chunk_def MAX_RCPT_ALLOWED_def)
  obtain s' fs' where run: "smtp_run (sample_session, sample_fs) (command_events (''RSET'' @ CRLF) @ command_events (mail_cmd ''bob@lan'')
        @ rcpt_events [(''ann'', ''lan'')] @ command_events (''DATA'' @ CRLF) @ message_events [''Hi'']) (s', fs')"
    and f: "fs_files fs' = (fs_files sample_fs)(messagePath sample_session := None)"
    and r: "s_replies s' = s_replies sample_session @ replicate (length [(''ann'', ''lan'')] + 2) (response_line 250)
        @ [response_line 354, response_line 250]"
    using reset_loses_mail [OF sample_session_ok(1,2,4) pre] by blast
  have "fs_files fs' ''./mailboxes/lan/ann/message-00001.eml'' = None \<and> length (s_replies s') = 5"
    using f r by simp
  with run show ?thesis by blast
qed

text \<open>The end of a message is seen only in a segment of its own: text that ends in a line with a single dot,
  as a client sends it that does not flush before the dot, is stored, dot included, and the session waits
  for more without an answer.\<close>
theorem dot_inside_segment_is_text:
  assumes "ready s" "receiveMessage s" "messageOut s = \<lparr>of_path = Some p, of_bad = False\<rparr>" "fs_files fs p = Some old"
    and "t \<noteq> []" "length t \<le> 507"
  shows "\<exists>s'. smtp_step (s, fs) (Smtp_Read (to_bytes (t @ CRLF @ ''.'' @ CRLF)))
      (s', set_file p (old @ to_bytes (t @ CRLF @ ''.'' @ CRLF)) fs)
    \<and> s_pending s' = Reading \<and> s_replies s' = s_replies s \<and> receiveMessage s'"
proof -
  have "t @ CRLF @ ''.'' @ CRLF \<noteq> ''.'' @ CRLF" by (cases t) auto
  with chunk_step [OF assms(1-4), of "t @ CRLF @ ''.'' @ CRLF"] assms(2,6) show ?thesis
    by (intro exI [of _ "(filled (t @ CRLF @ ''.'' @ CRLF) s)\<lparr>s_pending := Reading\<rparr>"]) simp
qed

theorem dot_inside_segment_is_text_witness:
  "\<exists>s'. smtp_step (sample_session\<lparr>receiveMessage := True, messageOut := \<lparr>of_path = Some ''f'', of_bad = False\<rparr>\<rparr>,
        set_file ''f'' [] sample_fs) (Smtp_Read (to_bytes (''Bye'' @ CRLF @ ''.'' @ CRLF)))
      (s', set_file ''f'' (to_bytes (''Bye'' @ CRLF @ ''.'' @ CRLF)) (set_file ''f'' [] sample_fs))
    \<and> s_pending s' = Reading"
  using dot_inside_segment_is_text [of "sample_session\<lparr>receiveMessage := True, messageOut := \<lparr>of_path = Some ''f'', of_bad = False\<rparr>\<rparr>"
      "''f''" "set_file ''f'' [] sample_fs" "[]" "''Bye''"] sample_session_ok(1)
  by (auto simp: ready_def)

section \<open>Commands\<close>

text \<open>A client that follows RFC 5321 cannot even greet this server: HELO with a domain name is refused with
  502, because after a blank only MAIL and RCPT are looked for, and nothing else changes.\<close>
theorem helo_with_domain_refused:
  assumes "ready s" "\<not> receiveMessage s" "length d \<le> 500"
  shows "\<exists>s'. smtp_step (s, fs) (Smtp_Read (to_bytes (''HELO '' @ d @ CRLF))) (s', fs)
    \<and> s_replies s' = s_replies s @ [response_line 502] \<and> lastCommand s' = lastCommand s"
proof -
  let ?t = "''HELO '' @ d @ CRLF"
  have "processCommand (filled ?t s, fs) = Inr (responded 502 (filled ?t s), fs)"
    by (subst processCommand_word [where w = "''HELO''" and c = "CHR '' ''"
          and rest = "d @ CRLF @ drop (length ?t) (buffer_text s)"]) (simp_all add: strncmp_eq_def)
  then have "smtp_step (s, fs) (Smtp_Read (to_bytes ?t)) (responded 502 (filled ?t s), fs)"
    using assms by (intro step_read) (simp_all add: ready_def on_read_filled)
  then show ?thesis by (intro exI [of _ "responded 502 (filled ?t s)"]) simp
qed

theorem helo_with_domain_refused_witness:
  "\<exists>s'. smtp_step (sample_session, sample_fs) (Smtp_Read (to_bytes (''HELO '' @ ''client.example.org'' @ CRLF))) (s', sample_fs)
    \<and> s_replies s' = [response_line 502]"
  using helo_with_domain_refused [of sample_session "''client.example.org''" sample_fs] by auto

text \<open>VRFY silences the session: the handler neither answers nor reads on, so no operation is outstanding and
  no further step is possible; the connection hangs without even being closed.\<close>
theorem vrfy_stalls_session:
  assumes "ready s" "\<not> receiveMessage s"
  shows "\<exists>io'. smtp_step (s, fs) (Smtp_Read (to_bytes (''VRFY'' @ CRLF))) io'
    \<and> (\<forall>e io''. \<not> smtp_step io' e io'') \<and> s_pending (fst io') \<noteq> Closed"
proof -
  let ?t = "''VRFY'' @ CRLF"
  have "processCommand (filled ?t s, fs) = Inr (filled ?t s, fs)"
    by (subst processCommand_word [where w = "''VRFY''" and c = "CHR 0x0D"
          and rest = "CHR 0x0A # drop (length ?t) (buffer_text s)"]) (simp_all add: processVrfy_def)
  then have "smtp_step (s, fs) (Smtp_Read (to_bytes ?t)) (filled ?t s, fs)"
    using assms by (intro step_read) (simp_all add: ready_def on_read_filled)
  moreover have "\<not> smtp_step (filled ?t s, fs) e io''" for e io''
    by (auto simp: filled_def elim: smtp_step.cases)
  ultimately show ?thesis by (intro exI [of _ "(filled ?t s, fs)"]) (auto simp: filled_def)
qed

theorem vrfy_stalls_session_witness:
  "\<exists>io'. smtp_step (sample_session, sample_fs) (Smtp_Read (to_bytes (''VRFY'' @ CRLF))) io' \<and> (\<forall>e io''. \<not> smtp_step io' e io'')"
  using vrfy_stalls_session [of sample_session sample_fs] by auto

text \<open>A command of exactly 512 octets with an address that is not closed makes the server read one octet past
  its receive buffer: the second scan of \<open>getAddress\<close> is one position ahead of the counter that bounds it.\<close>
theorem open_address_overread:
  assumes "ready s" "\<not> receiveMessage s" "lastCommand s = Helo \<or> lastCommand s = Rset"
    and "length a = 501" "\<forall>x \<in> set a. x \<noteq> CHR ''>'' \<and> \<not> is_eol x"
  shows "on_read (to_bytes (''MAIL FROM:<'' @ a)) (s, fs) = Inl Out_Of_Bounds"
proof -
  let ?t = "''MAIL FROM:<'' @ a"
  have len: "length ?t = 512" "length (s_buffer s) = 512" using assms(1,4) by (simp_all add: ready_def)
  have buf: "buffer_text (filled ?t s) = ?t" using len by simp
  have w: "takeWhile (\<lambda>c. c \<noteq> CHR ''<'' \<and> \<not> is_eol c) (take COMMAND_BUFFER_SIZE ?t) = ''MAIL FROM:''"
    using assms(4) by (simp add: COMMAND_BUFFER_SIZE_def)
  have nth: "?t ! k \<noteq> CHR ''>'' \<and> \<not> is_eol (?t ! k)" if "11 \<le> k" "k < 512" for k
  proof -
    have "?t ! k = a ! (k - 11)" using that nth_append [of "''MAIL FROM:<''" a k] by (simp add: eval_nat_numeral)
    then show ?thesis using assms(4,5) that by (simp add: less_diff_conv2)
  qed
  have "10 \<le> k \<Longrightarrow> k \<le> 511 \<Longrightarrow> scan_end ?t k = Inl Out_Of_Bounds" for k
  proof (induction "511 - k" arbitrary: k)
    case 0
    then have "rd ?t (k + 1) = Inl Out_Of_Bounds" using len(1) by (intro rd_out) linarith
    with 0 show ?case by (subst scan_end.simps) (simp add: COMMAND_BUFFER_SIZE_def)
  next
    case (Suc n)
    then have "rd ?t (k + 1) = Inr (?t ! (k + 1))" using len(1) by (intro rd_in) linarith
    moreover have "scan_end ?t (k + 1) = Inl Out_Of_Bounds" using Suc by simp
    ultimately show ?case using nth [of "k + 1"] Suc.prems Suc.hyps(2)
      by (subst scan_end.simps) (simp add: COMMAND_BUFFER_SIZE_def del: append_Cons)
  qed
  from this [of "length ''MAIL FROM:''"] have e: "scan_end ?t (length ''MAIL FROM:'') = Inl Out_Of_Bounds" by simp
  have g: "getAddress ?t = Inl Out_Of_Bounds"
    unfolding getAddress_def w Let_def e by (simp add: COMMAND_BUFFER_SIZE_def)
  have "processCommand (filled ?t s, fs) = processMailFrom (filled ?t s, fs)"
    using len by (subst processCommand_word [where w = "''MAIL''" and c = "CHR '' ''" and rest = "''FROM:<'' @ a"])
      (simp_all add: strncmp_eq_def)
  also have "\<dots> = Inl Out_Of_Bounds"
    using assms(3) g buf by (auto simp: processMailFrom_def simp del: filled_text)
  finally show ?thesis using assms(2) by (simp only: on_read_filled if_False)
qed

theorem open_address_overread_witness:
  "on_read (to_bytes (''MAIL FROM:<'' @ replicate 501 CHR ''a'')) (sample_session\<lparr>lastCommand := Helo\<rparr>, sample_fs)
    = Inl Out_Of_Bounds"
  using open_address_overread [of "sample_session\<lparr>lastCommand := Helo\<rparr>" "replicate 501 CHR ''a''" sample_fs]
    sample_session_ok(1) by (simp add: ready_def)

section \<open>All sessions\<close>

text \<open>C22: in every state the server can reach, each session's message path and open stream are empty or the file
  named after its own identifier, its recipient counter is within the table and every counted recipient has
  an address of the form user@domain with the mailbox path made of it; and text is being received exactly
  when the last command was DATA.\<close>
theorem sessions_well_formed:
  assumes "server_run (new_smtp_server fs) es srv" "smtp_sessions srv i = Some s"
  shows "s_id s = i \<and> own_files s \<and> unat (rcptCount s) \<le> MAX_RCPT_ALLOWED
    \<and> (\<forall>r \<in> set (take (unat (rcptCount s)) (recipients s)). rcpt_ok r)
    \<and> (receiveMessage s \<longleftrightarrow> lastCommand s = Data)"
proof -
  have "server_inv (new_smtp_server fs)" by (simp add: server_inv_def new_smtp_server_def)
  from server_run_inv [OF assms(1) this] assms(2) show ?thesis by (simp add: server_inv_def smtp_inv_def)
qed

text \<open>The first connection is accepted and greeted.\<close>

definition greeted :: smtp_session where
  "greeted = responded 220 (new_smtp_session 1 (replicate 512 0))"

lemma greeted_run: "server_run (new_smtp_server sample_fs) [Accepted (replicate 512 0)]
   \<lparr>nextSessionId = 1, smtp_sessions = [1 \<mapsto> greeted], smtp_fs = sample_fs, smtp_running = True\<rparr>"
proof -
  have "start_session (new_smtp_session 1 (replicate 512 0)) = Inr greeted"
    by (simp add: start_session_def greeted_def sendResponse_def responded_def response_line_def response_text_def)
  then have "acceptConnection (replicate 512 0) (new_smtp_server sample_fs)
      = Inr \<lparr>nextSessionId = 1, smtp_sessions = [1 \<mapsto> greeted], smtp_fs = sample_fs, smtp_running = True\<rparr>"
    by (simp add: acceptConnection_def new_smtp_server_def)
  then show ?thesis by (intro srv_cons [OF accepted srv_nil]) (simp_all add: new_smtp_server_def)
qed

theorem sessions_well_formed_witness:
  "s_id greeted = 1 \<and> own_files greeted \<and> \<not> receiveMessage greeted"
  using sessions_well_formed [OF greeted_run, of 1 greeted]
  by (simp add: greeted_def new_smtp_session_def)

text \<open>C23: whatever a client does, its session's steps leave the message files of all other sessions as they are.\<close>
theorem message_files_isolated:
  assumes "server_run (new_smtp_server fs) es srv" "server_step srv (Session_Event i e) srv'" "j \<noteq> i"
  shows "fs_files (smtp_fs srv') (message_name j) = fs_files (smtp_fs srv) (message_name j)"
proof -
  have "server_inv (new_smtp_server fs)" by (simp add: server_inv_def new_smtp_server_def)
  from server_run_inv [OF assms(1) this] have inv: "server_inv srv" .
  obtain s s' fs' where st: "smtp_sessions srv i = Some s" "smtp_step (s, smtp_fs srv) e (s', fs')" "smtp_fs srv' = fs'"
    using assms(2) by (cases rule: server_step.cases) (auto simp: closeSession_def)
  then have "own_files s" "smtp_inv s" "s_id s = i" using inv by (auto simp: server_inv_def)
  with smtp_step_confined [OF st(2)] st(3) assms(3) show ?thesis by (simp add: confined_def)
qed

theorem message_files_isolated_witness:
  "\<exists>srv'. server_step \<lparr>nextSessionId = 1, smtp_sessions = [1 \<mapsto> greeted], smtp_fs = sample_fs, smtp_running = True\<rparr> (Session_Event 1 Smtp_Written) srv'
    \<and> fs_files (smtp_fs srv') (message_name 7) = None"
proof -
  obtain s' where "smtp_step (greeted, sample_fs) Smtp_Written (s', sample_fs)"
    using smtp_step.written [of greeted] by (auto simp: greeted_def receive_def)
  then obtain srv' where st: "server_step \<lparr>nextSessionId = 1, smtp_sessions = [1 \<mapsto> greeted], smtp_fs = sample_fs, smtp_running = True\<rparr> (Session_Event 1 Smtp_Written) srv'"
    using server_step.session [of "\<lparr>nextSessionId = 1, smtp_sessions = [1 \<mapsto> greeted], smtp_fs = sample_fs, smtp_running = True\<rparr>" 1 greeted] by fastforce
  with message_files_isolated [OF greeted_run st, of 7] show ?thesis by auto
qed

text \<open>\<open>closeSession\<close> is empty: a session that has entered the table stays in it for ever, whatever
  happens to its connection.\<close>
theorem sessions_never_removed:
  assumes "server_run srv es srv'" "i \<in> dom (smtp_sessions srv)"
  shows "i \<in> dom (smtp_sessions srv')"
  using server_run_grows [OF assms(1)] assms(2) by blast

theorem sessions_never_removed_witness:
  "\<exists>srv' s'. server_run \<lparr>nextSessionId = 1, smtp_sessions = [1 \<mapsto> greeted], smtp_fs = sample_fs, smtp_running = True\<rparr>
      [Session_Event 1 Smtp_Error] srv' \<and> smtp_sessions srv' 1 = Some s'"
proof -
  let ?srv = "\<lparr>nextSessionId = 1, smtp_sessions = [1 \<mapsto> greeted], smtp_fs = sample_fs, smtp_running = True\<rparr>"
  have "smtp_step (greeted, sample_fs) Smtp_Error (close_session greeted, sample_fs)"
    by (rule smtp_step.failed) (simp add: greeted_def)
  then obtain srv' where run: "server_run ?srv [Session_Event 1 Smtp_Error] srv'"
    using server_step.session [of ?srv 1 greeted Smtp_Error "close_session greeted" sample_fs] srv_cons srv_nil by fastforce
  with sessions_never_removed [OF run, of 1] show ?thesis by auto
qed

end
