(* ===== verification/SMTP_Machine.thy ===== *)
theory SMTP_Machine
  imports SMTP_Properties
begin

text \<open>
  The SMTP dialogue as a machine on command lines: which code answers which line in which phase, for
  any lines in any order, and the proof that a session implements it when every line
  arrives in a segment of its own.
\<close>

section \<open>Lines\<close>

datatype mail_line = L_Helo | L_Mail string | L_Rcpt string string | L_Data | L_Rset | L_Noop | L_Quit | L_Text string

primrec line_text :: "mail_line \<Rightarrow> string" where
  "line_text L_Helo = ''HELO'' @ CRLF"
| "line_text (L_Mail a) = mail_cmd a"
| "line_text (L_Rcpt u d) = rcpt_cmd (u @ CHR ''@'' # d)"
| "line_text L_Data = ''DATA'' @ CRLF"
| "line_text L_Rset = ''RSET'' @ CRLF"
| "line_text L_Noop = ''NOOP'' @ CRLF"
| "line_text L_Quit = ''QUIT'' @ CRLF"
| "line_text (L_Text t) = t @ CRLF"

text \<open>Any other line: no command, and its first word, if there are more, no beginning of one with an address.\<close>

definition first_word :: "string \<Rightarrow> string" where
  "first_word t = takeWhile (\<lambda>c. c \<noteq> CHR '' '') t"

definition other_line :: "string \<Rightarrow> bool" where
  "other_line t \<longleftrightarrow> length t \<le> 500 \<and> (\<forall>c \<in> set t. c \<noteq> CHR 0x00 \<and> \<not> is_eol c)
     \<and> (if CHR '' '' \<in> set t
        then first_word t \<noteq> take (length (first_word t)) ''MAIL FROM'' \<and> first_word t \<noteq> take (length (first_word t)) ''RCPT TO''
        else t \<notin> {''HELO'', ''DATA'', ''RSET'', ''VRFY'', ''NOOP'', ''QUIT''})"

primrec ok_mail_line :: "mail_line \<Rightarrow> bool" where
  "ok_mail_line L_Helo = True"
| "ok_mail_line (L_Mail a) = ok_address a"
| "ok_mail_line (L_Rcpt u d) = (ok_address (u @ CHR ''@'' # d) \<and> CHR ''@'' \<notin> set u)"
| "ok_mail_line L_Data = True"
| "ok_mail_line L_Rset = True"
| "ok_mail_line L_Noop = True"
| "ok_mail_line L_Quit = True"
| "ok_mail_line (L_Text t) = other_line t"

section \<open>The machine\<close>

text \<open>\<open>m_open\<close>: a message file is open. A domain is refused with a code or accepted.\<close>

record mail_state =
  m_text :: bool
  m_phase :: Command
  m_rcpts :: "(string \<times> string) list"
  m_open :: bool
  m_closed :: bool

definition mail_start :: mail_state where
  "mail_start = \<lparr>m_text = False, m_phase = Cmd_Undefined, m_rcpts = [], m_open = False, m_closed = False\<rparr>"

definition other_code :: "string \<Rightarrow> nat" where
  "other_code t = (if CHR '' '' \<in> set t \<or> length t = 4 then 502 else 500)"

definition mail_command :: "(string \<Rightarrow> nat option) \<Rightarrow> mail_line \<Rightarrow> mail_state \<Rightarrow> nat \<times> mail_state" where
  "mail_command refuse l m =
     (case l of
        L_Helo \<Rightarrow> if m_open m then (451, m\<lparr>m_rcpts := []\<rparr>)
                  else (250, m\<lparr>m_phase := Helo, m_rcpts := [], m_open := True\<rparr>)
      | L_Mail a \<Rightarrow> if m_phase m \<in> {Helo, Rset} then (250, m\<lparr>m_phase := MailFrom\<rparr>) else (503, m)
      | L_Rcpt u d \<Rightarrow>
          if m_phase m \<noteq> MailFrom then (501, m)
          else if 100 \<le> length (m_rcpts m) then (523, m)
          else (case refuse d of Some c \<Rightarrow> (c, m) | None \<Rightarrow> (250, m\<lparr>m_rcpts := m_rcpts m @ [(u, d)]\<rparr>))
      | L_Data \<Rightarrow> (354, m\<lparr>m_text := True, m_phase := Data\<rparr>)
      | L_Rset \<Rightarrow> (250, m\<lparr>m_phase := Rset, m_rcpts := [], m_open := False\<rparr>)
      | L_Noop \<Rightarrow> (250, m)
      | L_Quit \<Rightarrow> (221, m\<lparr>m_closed := True\<rparr>)
      | L_Text t \<Rightarrow> (other_code t, m))"

definition mail_step :: "(string \<Rightarrow> nat option) \<Rightarrow> mail_line \<Rightarrow> mail_state \<Rightarrow> nat option \<times> mail_state" where
  "mail_step refuse l m =
     (if m_closed m then (None, m)
      else if m_text m
      then (if l = L_Text ''.'' then (Some 250, m\<lparr>m_open := False\<rparr>) else (None, m))
      else (case mail_command refuse l m of (code, m) \<Rightarrow> (Some code, m)))"

fun mail_codes :: "(string \<Rightarrow> nat option) \<Rightarrow> mail_line list \<Rightarrow> mail_state \<Rightarrow> nat list" where
  "mail_codes refuse [] m = []"
| "mail_codes refuse (l # ls) m =
     (case mail_step refuse l m of (code, m) \<Rightarrow> (case code of Some c \<Rightarrow> [c] | None \<Rightarrow> []) @ mail_codes refuse ls m)"

text \<open>What happens on the connection: the line is read, and if it is answered, the answer is written.\<close>

definition line_events :: "(string \<Rightarrow> nat option) \<Rightarrow> mail_line \<Rightarrow> mail_state \<Rightarrow> smtp_event list" where
  "line_events refuse l m =
     (if m_closed m then []
      else Smtp_Read (to_bytes (line_text l)) # (if fst (mail_step refuse l m) = None then [] else [Smtp_Written]))"

fun mail_events :: "(string \<Rightarrow> nat option) \<Rightarrow> mail_line list \<Rightarrow> mail_state \<Rightarrow> smtp_event list" where
  "mail_events refuse [] m = []"
| "mail_events refuse (l # ls) m = line_events refuse l m @ mail_events refuse ls (snd (mail_step refuse l m))"

definition mail_end :: "(string \<Rightarrow> nat option) \<Rightarrow> mail_line list \<Rightarrow> mail_state \<Rightarrow> mail_state" where
  "mail_end refuse ls m = fold (\<lambda>l m. snd (mail_step refuse l m)) ls m"

section \<open>A session and the machine\<close>

definition domain_path :: "string \<Rightarrow> string" where
  "domain_path d = path_append mailboxesRoot d"

definition domain_refusal :: "fsys \<Rightarrow> string \<Rightarrow> nat option" where
  "domain_refusal fs d =
     (if fs_denied fs (domain_path d) then Some 451 else if \<not> fs_is_directory fs (domain_path d) then Some 551 else None)"

definition places_ok :: "(string \<Rightarrow> nat option) \<Rightarrow> string \<Rightarrow> fsys \<Rightarrow> bool" where
  "places_ok refuse msg fs \<longleftrightarrow> fs_creatable fs msg \<and> \<not> fs_dirs fs msg \<and> domain_refusal fs = refuse"

definition matches :: "(string \<Rightarrow> nat option) \<Rightarrow> smtp_session \<Rightarrow> fsys \<Rightarrow> mail_state \<Rightarrow> bool" where
  "matches refuse s fs m \<longleftrightarrow> smtp_inv s \<and> own_files s \<and> places_ok refuse (message_name (s_id s)) fs
     \<and> receiveMessage s = m_text m \<and> lastCommand s = m_phase m \<and> (of_path (messageOut s) \<noteq> None \<longleftrightarrow> m_open m)
     \<and> stored_recipients s = map (\<lambda>r. (rcpt_address r, rcpt_mailbox r)) (m_rcpts m)"

definition implements :: "(string \<Rightarrow> nat option) \<Rightarrow> smtp_io \<Rightarrow> mail_state \<Rightarrow> bool" where
  "implements refuse io m \<longleftrightarrow>
     (if m_closed m then s_pending (fst io) = Closed
      else s_pending (fst io) = Reading \<and> matches refuse (fst io) (snd io) m)"

text \<open>Nothing the session does to files touches the directories.\<close>

lemma domain_path_facts [simp]: "domain_path d \<noteq> message_name i" "domain_path d \<noteq> []"
proof -
  show "domain_path d \<noteq> message_name i" by (simp add: domain_path_def)
  have "0 < length mailboxesRoot" by (simp add: mailboxesRoot_def)
  then have "0 < length (domain_path d)" unfolding domain_path_def by (rule less_le_trans) (rule length_path_append)
  then show "domain_path d \<noteq> []" by auto
qed

lemma places_ok_set [simp]: "places_ok refuse msg (set_file (message_name i) d fs) = places_ok refuse msg fs"
  by (simp add: places_ok_def domain_refusal_def fs_is_directory_def fun_eq_iff)

lemma places_ok_remove [simp]: "p \<in> {[], message_name i} \<Longrightarrow> places_ok refuse msg (fs_remove p fs) = places_ok refuse msg fs"
  by (auto simp: places_ok_def domain_refusal_def fs_is_directory_def fun_eq_iff)

lemma places_ok_new: "\<not> fs_exists fs p \<Longrightarrow> places_ok refuse msg (set_file p d fs) = places_ok refuse msg fs"
  by (auto simp: places_ok_def domain_refusal_def fs_is_directory_def fs_exists_def fun_eq_iff)

lemma places_ok_copy: "places_ok refuse msg (fs_copy src dst fs) = places_ok refuse msg fs"
  by (auto simp: fs_copy_def Let_def places_ok_new split: option.split)

lemma places_ok_deliver: "places_ok refuse msg (snd (fold (deliver_one src) rs (us, fs))) = places_ok refuse msg fs"
proof (induction rs arbitrary: us fs)
  case (Cons r rs)
  show ?case by (cases r) (simp add: Cons places_ok_copy)
qed simp

section \<open>Every line goes to its handler\<close>

lemma first_word_split:
  "CHR '' '' \<in> set t \<Longrightarrow> \<exists>rest. t = first_word t @ CHR '' '' # rest \<and> CHR '' '' \<notin> set (first_word t)"
proof -
  assume "CHR '' '' \<in> set t"
  then obtain u v where "t = u @ CHR '' '' # v" "CHR '' '' \<notin> set u" using split_list_first by fastforce
  moreover from this have "first_word t = u" unfolding first_word_def by (simp only:) (subst takeWhile_append2, auto)
  ultimately show ?thesis by (intro exI [of _ v]) simp
qed

lemma strncmp_word:
  assumes "CHR 0x00 \<notin> set w" "CHR 0x00 \<notin> set lit"
  shows "strncmp_eq (w @ rest) lit (length w) \<longleftrightarrow> w = take (length w) lit"
proof -
  have clean: "takeWhile (\<lambda>c. c \<noteq> CHR 0x00) u = u" if "CHR 0x00 \<notin> set u" for u
    using that by (auto intro: takeWhile_eq_all_conv [THEN iffD2])
  have "CHR 0x00 \<notin> set (take (length w) lit)" using assms(2) by (meson in_set_takeD)
  moreover have "take (length w) (w @ rest) = w" by simp
  ultimately show ?thesis using clean assms(1) unfolding strncmp_eq_def by presburger
qed

lemma text_command:
  assumes "other_line t"
  shows "processCommand (filled (t @ CRLF) s, fs) = reply (other_code t) (filled (t @ CRLF) s, fs)"
proof (cases "CHR '' '' \<in> set t")
  case True
  then obtain rest where r: "t = first_word t @ CHR '' '' # rest" "CHR '' '' \<notin> set (first_word t)"
    using first_word_split by blast
  define w where "w = first_word t"
  have w: "t = w @ CHR '' '' # rest" "CHR '' '' \<notin> set w" using r by (simp_all add: w_def)
  have ok: "\<forall>x \<in> set w. x \<noteq> CHR '' '' \<and> \<not> is_eol x" "length w < 512" "CHR 0x00 \<notin> set w"
    using assms w by (auto simp: other_line_def)
  have no: "w \<noteq> take (length w) ''MAIL FROM''" "w \<noteq> take (length w) ''RCPT TO''"
    using assms True by (simp_all add: other_line_def w_def)
  have cmp: "\<not> strncmp_eq (w @ u) ''MAIL FROM'' (length w)" "\<not> strncmp_eq (w @ u) ''RCPT TO'' (length w)" for u
    using strncmp_word [OF ok(3), of "''MAIL FROM''" u] strncmp_word [OF ok(3), of "''RCPT TO''" u] no by simp_all
  have "buffer_text (filled (t @ CRLF) s) = w @ CHR '' '' # (rest @ CRLF @ drop (length (t @ CRLF)) (buffer_text s))"
    by (simp add: w(1))
  from processCommand_word [OF this ok(1) _ ok(2), of fs] True show ?thesis by (simp add: cmp other_code_def)
next
  case False
  have ok: "\<forall>x \<in> set t. x \<noteq> CHR '' '' \<and> \<not> is_eol x" "length t < 512"
    using assms False by (auto simp: other_line_def)
  have no: "t \<notin> {''HELO'', ''DATA'', ''RSET'', ''VRFY'', ''NOOP'', ''QUIT''}" using assms False by (simp add: other_line_def)
  have "buffer_text (filled (t @ CRLF) s) = t @ CHR 0x0D # (CHR 0x0A # drop (length (t @ CRLF)) (buffer_text s))" by simp
  from processCommand_word [OF this ok(1) _ ok(2), of fs] no False show ?thesis by (simp add: other_code_def)
qed

lemma four_letters:
  assumes "length w = 4" "\<forall>x \<in> set w. x \<noteq> CHR '' '' \<and> \<not> is_eol x"
  shows "processCommand (filled (w @ CRLF) s, fs) =
    (let io = (filled (w @ CRLF) s, fs) in
     if w = ''HELO'' then processHelo io else if w = ''DATA'' then processData io else if w = ''RSET'' then processRset io
     else if w = ''VRFY'' then processVrfy io else if w = ''NOOP'' then processNoop io else if w = ''QUIT'' then processQuit io
     else reply 502 io)"
proof -
  have "buffer_text (filled (w @ CRLF) s) = w @ CHR 0x0D # (CHR 0x0A # drop (length (w @ CRLF)) (buffer_text s))" by simp
  from processCommand_word [OF this assms(2)] assms(1) show ?thesis by (simp add: Let_def)
qed

lemma word_commands:
  "processCommand (filled (''HELO'' @ CRLF) s, fs) = processHelo (filled (''HELO'' @ CRLF) s, fs)"
  "processCommand (filled (''DATA'' @ CRLF) s, fs) = processData (filled (''DATA'' @ CRLF) s, fs)"
  "processCommand (filled (''RSET'' @ CRLF) s, fs) = processRset (filled (''RSET'' @ CRLF) s, fs)"
  "processCommand (filled (''NOOP'' @ CRLF) s, fs) = processNoop (filled (''NOOP'' @ CRLF) s, fs)"
  "processCommand (filled (''QUIT'' @ CRLF) s, fs) = processQuit (filled (''QUIT'' @ CRLF) s, fs)"
  using four_letters [of "''HELO''" s fs] four_letters [of "''DATA''" s fs] four_letters [of "''RSET''" s fs]
    four_letters [of "''NOOP''" s fs] four_letters [of "''QUIT''" s fs]
  by simp_all

lemma address_commands:
  assumes "ok_address a"
  shows "processCommand (filled (mail_cmd a) s, fs) = processMailFrom (filled (mail_cmd a) s, fs)"
    "processCommand (filled (rcpt_cmd a) s, fs) = processRcptTo (filled (rcpt_cmd a) s, fs)"
    "getAddress (buffer_text (filled (mail_cmd a) s)) = Inr a" "getAddress (buffer_text (filled (rcpt_cmd a) s)) = Inr a"
proof -
  let ?r = "\<lambda>t. CRLF @ drop (length t) (buffer_text s)"
  show "getAddress (buffer_text (filled (mail_cmd a) s)) = Inr a"
    by (rule getAddress_found [where pre = "''MAIL FROM:''" and rest = "?r (mail_cmd a)"])
      (use assms in \<open>auto simp: mail_cmd_def ok_address_def\<close>)
  show "getAddress (buffer_text (filled (rcpt_cmd a) s)) = Inr a"
    by (rule getAddress_found [where pre = "''RCPT TO:''" and rest = "?r (rcpt_cmd a)"])
      (use assms in \<open>auto simp: rcpt_cmd_def ok_address_def\<close>)
  show "processCommand (filled (mail_cmd a) s, fs) = processMailFrom (filled (mail_cmd a) s, fs)"
    by (subst processCommand_word [where w = "''MAIL''" and c = "CHR '' ''" and rest = "''FROM:<'' @ a @ ''>'' @ ?r (mail_cmd a)"])
      (simp_all add: mail_cmd_def strncmp_eq_def)
  show "processCommand (filled (rcpt_cmd a) s, fs) = processRcptTo (filled (rcpt_cmd a) s, fs)"
    by (subst processCommand_word [where w = "''RCPT''" and c = "CHR '' ''" and rest = "''TO:<'' @ a @ ''>'' @ ?r (rcpt_cmd a)"])
      (simp_all add: rcpt_cmd_def strncmp_eq_def)
qed

section \<open>Every handler follows the machine\<close>

lemma matches_filled: "matches refuse s fs m \<Longrightarrow> length t \<le> 512 \<Longrightarrow> matches refuse (filled t s) fs m"
  by (auto simp: matches_def smtp_inv_def own_files_def stored_recipients_def filled_def)

text \<open>A handler's result against the machine's: the code, the new state and the replies so far.\<close>

definition answers_as :: "(string \<Rightarrow> nat option) \<Rightarrow> smtp_session \<Rightarrow> nat \<times> mail_state \<Rightarrow> smtp_io resl \<Rightarrow> bool" where
  "answers_as refuse s cm r \<longleftrightarrow> (\<exists>s1 fs1. r = Inr (responded (fst cm) s1, fs1) \<and> matches refuse s1 fs1 (snd cm)
     \<and> s_replies s1 = s_replies s \<and> s_id s1 = s_id s)"

lemma answers_same:
  "matches refuse s fs m \<Longrightarrow> known_code c \<Longrightarrow> answers_as refuse s (c, m) (reply c (s, fs))"
  by (auto simp: answers_as_def reply_known)

lemma matches_not_data: "matches refuse s fs m \<Longrightarrow> \<not> m_text m \<Longrightarrow> lastCommand s \<noteq> Data"
  by (auto simp: matches_def smtp_inv_def)

lemma helo_answers:
  assumes "matches refuse s fs m" "\<not> m_text m"
  shows "answers_as refuse s (mail_command refuse L_Helo m) (processHelo (s, fs))"
proof (cases "m_open m")
  case True
  let ?s = "s\<lparr>rcptCount := 0, returnAddress := [], messageOut := (messageOut s)\<lparr>of_bad := True\<rparr>, messagePath := []\<rparr>"
  have "of_path (messageOut s) \<noteq> None" using assms(1) True by (simp add: matches_def)
  then have "processHelo (s, fs) = Inr (responded 451 ?s, fs)"
    by (simp add: processHelo_def createMessage_def of_open_def)
  moreover have "matches refuse ?s fs (m\<lparr>m_rcpts := []\<rparr>)"
    using assms by (auto simp: matches_def smtp_inv_def own_files_def stored_recipients_def)
  ultimately show ?thesis using True by (auto simp: answers_as_def mail_command_def)
next
  case False
  let ?msg = "message_name (s_id s)"
  let ?s = "s\<lparr>rcptCount := 0, returnAddress := [], messagePath := ?msg,
    messageOut := \<lparr>of_path = Some ?msg, of_bad = False\<rparr>, lastCommand := Helo\<rparr>"
  have "of_path (messageOut s) = None" "fs_creatable fs ?msg" "\<not> fs_is_directory fs ?msg"
    using assms(1) False by (simp_all add: matches_def places_ok_def fs_is_directory_def)
  then have "processHelo (s, fs) = Inr (responded 250 ?s, set_file ?msg [] fs)"
    by (cases "messageOut s") (simp add: processHelo_def createMessage_def of_open_def Let_def)
  moreover have "matches refuse ?s (set_file ?msg [] fs) (m\<lparr>m_phase := Helo, m_rcpts := [], m_open := True\<rparr>)"
    using assms matches_not_data [OF assms] by (auto simp: matches_def smtp_inv_def own_files_def stored_recipients_def)
  ultimately show ?thesis using False by (auto simp: answers_as_def mail_command_def)
qed

lemma mail_answers:
  assumes "matches refuse s fs m" "\<not> m_text m" "ok_address a" "getAddress (buffer_text s) = Inr a"
  shows "answers_as refuse s (mail_command refuse (L_Mail a) m) (processMailFrom (s, fs))"
proof (cases "m_phase m \<in> {Helo, Rset}")
  case True
  then have "matches refuse (s\<lparr>returnAddress := a, lastCommand := MailFrom\<rparr>) fs (m\<lparr>m_phase := MailFrom\<rparr>)"
    using assms(1,2) matches_not_data [OF assms(1,2)] by (auto simp: matches_def smtp_inv_def own_files_def stored_recipients_def)
  then show ?thesis
    using True assms unfolding answers_as_def mail_command_def processMailFrom_def
    by (intro exI [of _ "s\<lparr>returnAddress := a, lastCommand := MailFrom\<rparr>"] exI [of _ fs]) (auto simp: matches_def ok_address_def)
next
  case False
  moreover have "processMailFrom (s, fs) = reply 503 (s, fs)" using False assms(1) by (auto simp: processMailFrom_def matches_def)
  ultimately show ?thesis using answers_same [OF assms(1), of 503] by (simp add: mail_command_def known_code_def)
qed

lemma stored_recipient:
  assumes "smtp_inv s" "unat (rcptCount s) < 100"
  shows "stored_recipients (s\<lparr>recipients := (recipients s)[unat (rcptCount s) := r], rcptCount := rcptCount s + 1\<rparr>)
    = stored_recipients s @ [r]"
proof -
  have "unat (rcptCount s + 1) = Suc (unat (rcptCount s))" using assms(2) by (simp add: unat_word_ariths)
  then show ?thesis
    using assms by (simp add: stored_recipients_def smtp_inv_def MAX_RCPT_ALLOWED_def take_Suc_conv_app_nth)
qed

lemma rcpt_count: "matches refuse s fs m \<Longrightarrow> unat (rcptCount s) = length (m_rcpts m)"
proof -
  assume m: "matches refuse s fs m"
  then have "length (stored_recipients s) = length (m_rcpts m)" by (simp add: matches_def)
  then show ?thesis using m by (simp add: stored_recipients_def matches_def smtp_inv_def)
qed

lemma rcpt_answers:
  assumes "matches refuse s fs m" "\<not> m_text m" "ok_address (u @ CHR ''@'' # d)" "CHR ''@'' \<notin> set u"
    and "getAddress (buffer_text s) = Inr (u @ CHR ''@'' # d)"
  shows "answers_as refuse s (mail_command refuse (L_Rcpt u d) m) (processRcptTo (s, fs))"
proof -
  note n = rcpt_count [OF assms(1)]
  have ph: "lastCommand s = m_phase m" and ref: "refuse = domain_refusal fs" and inv: "smtp_inv s"
    using assms(1) by (auto simp: matches_def places_ok_def)
  consider "m_phase m \<noteq> MailFrom" | "m_phase m = MailFrom" "100 \<le> length (m_rcpts m)"
    | c where "m_phase m = MailFrom" "length (m_rcpts m) < 100" "refuse d = Some c"
    | "m_phase m = MailFrom" "length (m_rcpts m) < 100" "refuse d = None" by force
  then show ?thesis
  proof cases
    case 1
    then have "processRcptTo (s, fs) = reply 501 (s, fs)" by (simp add: processRcptTo_def ph)
    then show ?thesis using 1 answers_same [OF assms(1), of 501] by (simp add: mail_command_def known_code_def)
  next
    case 2
    then have "processRcptTo (s, fs) = reply 523 (s, fs)" by (simp add: processRcptTo_def ph n MAX_RCPT_ALLOWED_def)
    then show ?thesis using 2 answers_same [OF assms(1), of 523] by (simp add: mail_command_def known_code_def)
  next
    case 3
    then have "processRcptTo (s, fs) = reply c (s, fs)" "known_code c"
      using assms(4,5) by (auto simp: processRcptTo_def ph n MAX_RCPT_ALLOWED_def Let_def ref domain_refusal_def domain_path_def
          known_code_def split: if_splits)
    then show ?thesis using 3 answers_same [OF assms(1), of c] by (simp add: mail_command_def)
  next
    case 4
    let ?r = "(rcpt_address (u, d), rcpt_mailbox (u, d))"
    let ?s = "s\<lparr>recipients := (recipients s)[unat (rcptCount s) := ?r], rcptCount := rcptCount s + 1\<rparr>"
    have "rcpt_ok ?r" using assms(4) by (auto simp: rcpt_ok_def)
    then have "smtp_inv ?s" using smtp_inv_recipient [OF inv] 4(2) n by (simp add: MAX_RCPT_ALLOWED_def)
    moreover have "stored_recipients ?s = stored_recipients s @ [?r]" using stored_recipient [OF inv] 4(2) n by simp
    ultimately have "matches refuse ?s fs (m\<lparr>m_rcpts := m_rcpts m @ [(u, d)]\<rparr>)"
      using assms(1) by (simp add: matches_def own_files_def)
    moreover have "processRcptTo (s, fs) = Inr (responded 250 ?s, fs)"
      using assms(3-5) 4 by (auto simp: processRcptTo_def ph n MAX_RCPT_ALLOWED_def Let_def ref domain_refusal_def domain_path_def
          split: if_splits)
    ultimately show ?thesis using 4 by (auto simp: answers_as_def mail_command_def)
  qed
qed

lemma data_answers:
  assumes "matches refuse s fs m" "\<not> m_text m"
  shows "answers_as refuse s (mail_command refuse L_Data m) (processData (s, fs))"
proof -
  have "matches refuse (s\<lparr>receiveMessage := True, lastCommand := Data\<rparr>) fs (m\<lparr>m_text := True, m_phase := Data\<rparr>)"
    using assms by (auto simp: matches_def smtp_inv_def own_files_def stored_recipients_def)
  then show ?thesis using matches_not_data [OF assms] by (auto simp: answers_as_def mail_command_def processData_def)
qed

lemma rset_answers:
  assumes "matches refuse s fs m" "\<not> m_text m"
  shows "answers_as refuse s (mail_command refuse L_Rset m) (processRset (s, fs))"
proof -
  let ?s = "s\<lparr>rcptCount := 0, returnAddress := [], receiveMessage := False, messageOut := of_close (messageOut s), lastCommand := Rset\<rparr>"
  let ?fs = "if fs_denied fs (messagePath s) then fs else fs_remove (messagePath s) fs"
  have "processRset (s, fs) = Inr (responded 250 ?s, ?fs)" by (simp add: processRset_def deleteMessage_def)
  moreover have "matches refuse ?s ?fs (m\<lparr>m_phase := Rset, m_rcpts := [], m_open := False\<rparr>)"
    using assms by (auto simp: matches_def smtp_inv_def own_files_def stored_recipients_def of_close_def)
  ultimately show ?thesis by (auto simp: answers_as_def mail_command_def)
qed

lemma line_length: "ok_mail_line l \<Longrightarrow> line_text l \<noteq> [] \<and> length (line_text l) \<le> 512"
  by (cases l) (auto simp: mail_cmd_def rcpt_cmd_def ok_address_def other_line_def)

lemma line_answers:
  assumes "matches refuse s fs m" "\<not> m_text m" "ok_mail_line l"
  shows "answers_as refuse s (mail_command refuse l m) (processCommand (filled (line_text l) s, fs))"
proof -
  have m: "matches refuse (filled (line_text l) s) fs m" using assms(1) matches_filled line_length [OF assms(3)] by simp
  have same: "answers_as refuse (filled t s) cm r \<Longrightarrow> answers_as refuse s cm r" for t cm r by (simp add: answers_as_def)
  show ?thesis
  proof (cases l)
    case L_Helo
    then show ?thesis using helo_answers [OF m assms(2)] same by (simp add: word_commands del: append.simps)
  next
    case (L_Mail a)
    then show ?thesis using mail_answers [OF m assms(2), of a] address_commands assms(3) same by simp
  next
    case (L_Rcpt u d)
    then show ?thesis using rcpt_answers [OF m assms(2), of u d] address_commands assms(3) same by simp
  next
    case L_Data
    then show ?thesis using data_answers [OF m assms(2)] same by (simp add: word_commands del: append.simps)
  next
    case L_Rset
    then show ?thesis using rset_answers [OF m assms(2)] same by (simp add: word_commands del: append.simps)
  next
    case L_Noop
    then show ?thesis using answers_same [OF m, of 250] same
      by (simp add: word_commands processNoop_def mail_command_def known_code_def del: append.simps)
  next
    case L_Quit
    moreover have "matches refuse (filled (line_text l) s) fs (m\<lparr>m_closed := True\<rparr>)" using m by (simp add: matches_def)
    ultimately show ?thesis using same [OF answers_same [of refuse "filled (line_text l) s" fs "m\<lparr>m_closed := True\<rparr>" 221]]
      by (simp add: word_commands processQuit_def mail_command_def known_code_def del: append.simps)
  next
    case (L_Text t)
    have "known_code (other_code t)" by (simp add: known_code_def other_code_def)
    from same [OF answers_same [OF m this]] L_Text assms(3) show ?thesis
      by (simp add: mail_command_def text_command del: reply_simps)
  qed
qed

text \<open>Text mode: the dot in a line of its own is answered, everything else is text.\<close>

lemma text_end:
  assumes "matches refuse s fs m"
  shows "answers_as refuse s (250, m\<lparr>m_open := False\<rparr>)
    (reply 250 (deleteMessage (deliverMessage (s\<lparr>messageOut := of_close (messageOut s)\<rparr>, fs))))"
proof -
  let ?c = "s\<lparr>messageOut := of_close (messageOut s)\<rparr>"
  obtain us fs1 where d: "fold (deliver_one (messagePath s)) (take (unat (rcptCount s)) (recipients s)) ([], fs) = (us, fs1)"
    by fastforce
  let ?s = "?c\<lparr>unknownRecipients := us, messageOut := of_close (of_close (messageOut s))\<rparr>"
  let ?fs = "if fs_denied fs1 (messagePath s) then fs1 else fs_remove (messagePath s) fs1"
  have "deleteMessage (deliverMessage (?c, fs)) = (?s, ?fs)" by (simp add: deliverMessage_def deleteMessage_def d Let_def)
  moreover have "places_ok refuse (message_name (s_id s)) fs1"
    using places_ok_deliver [of refuse "message_name (s_id s)" "messagePath s" "take (unat (rcptCount s)) (recipients s)" "[]" fs]
      assms d by (simp add: matches_def)
  then have "matches refuse ?s ?fs (m\<lparr>m_open := False\<rparr>)"
    using assms by (auto simp: matches_def smtp_inv_def own_files_def stored_recipients_def of_close_def)
  ultimately show ?thesis by (auto simp: answers_as_def)
qed

lemma text_line:
  assumes "matches refuse s fs m"
  shows "\<exists>os fs1. of_write d (messageOut s, fs) = (os, fs1) \<and> matches refuse (s\<lparr>messageOut := os\<rparr>) fs1 m"
proof -
  have "of_path (messageOut s) \<in> {None, Some (message_name (s_id s))}" using assms by (simp add: matches_def own_files_def)
  then show ?thesis
    using assms
    by (auto simp: of_write_def matches_def own_files_def stored_recipients_def smtp_inv_def split: option.split)
qed

section \<open>Runs\<close>

lemma smtp_step_deterministic: "smtp_step io e io1 \<Longrightarrow> smtp_step io e io2 \<Longrightarrow> io1 = io2"
  by (induction rule: smtp_step.induct) (auto simp: smtp_step_read smtp_step_written smtp_step_error)

lemma smtp_run_deterministic: "smtp_run io es io1 \<Longrightarrow> smtp_run io es io2 \<Longrightarrow> io1 = io2"
proof (induction arbitrary: io2 rule: smtp_run.induct)
  case (smtp_nil io)
  then show ?case by (cases rule: smtp_run.cases) simp_all
next
  case (smtp_cons io e io' es io'')
  from smtp_cons.prems obtain x where "smtp_step io e x" "smtp_run x es io2" by (cases rule: smtp_run.cases) auto
  then show ?case using smtp_step_deterministic [OF smtp_cons.hyps(1)] smtp_cons.IH by blast
qed

lemma answered_run:
  assumes "s_pending s = Reading" "on_read (to_bytes t) (s, fs) = Inr (responded code s1, fs1)" "t \<noteq> []" "length t \<le> 512"
  shows "smtp_run (s, fs) [Smtp_Read (to_bytes t), Smtp_Written]
    (if code = 221 then close_session (responded code s1) else (responded code s1)\<lparr>s_pending := Reading\<rparr>, fs1)"
proof -
  have "smtp_step (s, fs) (Smtp_Read (to_bytes t)) (responded code s1, fs1)" using assms by (intro step_read)
  moreover have "smtp_step (responded code s1, fs1) Smtp_Written
      (if code = 221 then close_session (responded code s1) else (responded code s1)\<lparr>s_pending := Reading\<rparr>, fs1)"
    by (auto simp: smtp_step_written receive_def)
  ultimately show ?thesis by (rule smtp_cons [OF _ smtp_run_one])
qed

lemma matches_pending: "matches refuse (s\<lparr>s_pending := p\<rparr>) fs m = matches refuse s fs m"
  "matches refuse (responded c s) fs m = matches refuse s fs m"
  by (auto simp: matches_def smtp_inv_def own_files_def stored_recipients_def)

lemma closed_by: "m_closed (snd (mail_command refuse l m)) \<longleftrightarrow> m_closed m \<or> fst (mail_command refuse l m) = 221 \<and> l = L_Quit"
  by (cases l) (auto simp: mail_command_def split: option.split)

text \<open>No refusal is a 221.\<close>

lemma quit_code:
  assumes "\<forall>d. refuse d \<noteq> Some 221"
  shows "fst (mail_command refuse l m) = 221 \<longleftrightarrow> l = L_Quit"
  using assms by (cases l) (auto simp: mail_command_def other_code_def split: option.split)

lemma line_run:
  assumes "implements refuse io m" "ok_mail_line l" "\<forall>d. refuse d \<noteq> Some 221"
  shows "\<exists>io'. smtp_run io (line_events refuse l m) io' \<and> implements refuse io' (snd (mail_step refuse l m))
    \<and> s_replies (fst io') = s_replies (fst io) @ map response_line (mail_codes refuse [l] m)"
proof -
  obtain s fs where io: "io = (s, fs)" by (cases io)
  note len = line_length [OF assms(2)]
  consider "m_closed m" | "\<not> m_closed m" "\<not> m_text m" | "\<not> m_closed m" "m_text m" "l = L_Text ''.''"
    | "\<not> m_closed m" "m_text m" "l \<noteq> L_Text ''.''" by blast
  then show ?thesis
  proof cases
    case 1
    then show ?thesis using assms(1) by (intro exI [of _ io]) (simp add: line_events_def mail_step_def smtp_nil)
  next
    case 2
    then have r: "s_pending s = Reading" "matches refuse s fs m" using assms(1) by (simp_all add: implements_def io)
    then have nt: "\<not> receiveMessage s" using 2 by (simp add: matches_def)
    from line_answers [OF r(2) 2(2) assms(2), unfolded answers_as_def]
    obtain s1 fs1 where a: "processCommand (filled (line_text l) s, fs) = Inr (responded (fst (mail_command refuse l m)) s1, fs1)"
      "matches refuse s1 fs1 (snd (mail_command refuse l m))" "s_replies s1 = s_replies s" by blast
    have "on_read (to_bytes (line_text l)) (s, fs) = Inr (responded (fst (mail_command refuse l m)) s1, fs1)"
      using nt a(1) by (simp add: on_read_filled)
    from answered_run [OF r(1) this] len a(2,3) 2 show ?thesis
      using closed_by [of refuse l m] quit_code [OF assms(3), of l m]
      by (intro exI, intro conjI) (assumption | simp add: line_events_def mail_step_def case_prod_unfold implements_def matches_pending close_session_def io)+
  next
    case 3
    then have r: "s_pending s = Reading" "matches refuse s fs m" "receiveMessage s" using assms(1)
      by (simp_all add: implements_def io matches_def)
    have "matches refuse (filled (line_text l) s) fs m" using matches_filled [OF r(2)] len by simp
    from text_end [OF this, unfolded answers_as_def] obtain s1 fs1 where
      a: "reply 250 (deleteMessage (deliverMessage ((filled (line_text l) s)\<lparr>messageOut := of_close (messageOut (filled (line_text l) s))\<rparr>, fs)))
        = Inr (responded 250 s1, fs1)" "matches refuse s1 fs1 (m\<lparr>m_open := False\<rparr>)" "s_replies s1 = s_replies s" by auto
    have dot: "s_length (filled (line_text l) s) = 3 \<and> strncmp_eq (buffer_text (filled (line_text l) s)) (''.'' @ CRLF) 3"
      using terminator_iff [of "''.'' @ CRLF" s] 3(3) by simp
    have "on_read (to_bytes (line_text l)) (s, fs) = Inr (responded 250 s1, fs1)"
      unfolding on_read_filled if_P [OF r(3)] processMessage_def prod.case Let_def if_P [OF dot] by (rule a(1))
    from answered_run [OF r(1) this] len a(2,3) 3 show ?thesis
      by (intro exI, intro conjI) (assumption | simp add: line_events_def mail_step_def implements_def matches_pending io)+
  next
    case 4
    then have r: "s_pending s = Reading" "matches refuse s fs m" "receiveMessage s" using assms(1)
      by (simp_all add: implements_def io matches_def)
    let ?s = "filled (line_text l) s"
    have "matches refuse ?s fs m" using matches_filled [OF r(2)] len by simp
    from text_line [OF this] obtain os fs1 where
      w: "of_write (take (s_length ?s) (s_buffer ?s)) (messageOut ?s, fs) = (os, fs1)" "matches refuse (?s\<lparr>messageOut := os\<rparr>) fs1 m" by blast
    have "line_text l \<noteq> ''.'' @ CRLF" using 4(3) by (cases l) (auto simp: mail_cmd_def rcpt_cmd_def)
    then have nodot: "\<not> (s_length ?s = 3 \<and> strncmp_eq (buffer_text ?s) (''.'' @ CRLF) 3)" using terminator_iff len by blast
    have "on_read (to_bytes (line_text l)) (s, fs) = Inr (receive (?s\<lparr>messageOut := os\<rparr>, fs1))"
      unfolding on_read_filled if_P [OF r(3)] processMessage_def prod.case Let_def if_not_P [OF nodot] w(1) by simp
    then have "smtp_run (s, fs) [Smtp_Read (to_bytes (line_text l))] (receive (?s\<lparr>messageOut := os\<rparr>, fs1))"
      using r(1) len [THEN conjunct1] len [THEN conjunct2] by (intro smtp_run_one step_read)
    with w(2) 4 show ?thesis
      by (intro exI, intro conjI) (simp add: line_events_def mail_step_def io, simp_all add: mail_step_def implements_def matches_pending receive_def io)
  qed
qed

lemma lines_run:
  assumes "implements refuse io m" "\<forall>l \<in> set ls. ok_mail_line l" "\<forall>d. refuse d \<noteq> Some 221"
  shows "\<exists>io'. smtp_run io (mail_events refuse ls m) io' \<and> implements refuse io' (mail_end refuse ls m)
    \<and> s_replies (fst io') = s_replies (fst io) @ map response_line (mail_codes refuse ls m)"
  using assms(1,2)
proof (induction ls arbitrary: io m)
  case Nil
  then show ?case by (intro exI [of _ io]) (simp add: mail_end_def smtp_nil)
next
  case (Cons l ls)
  let ?m = "snd (mail_step refuse l m)"
  obtain io1 where 1: "smtp_run io (line_events refuse l m) io1" "implements refuse io1 ?m"
    "s_replies (fst io1) = s_replies (fst io) @ map response_line (mail_codes refuse [l] m)"
    using line_run [OF Cons.prems(1) _ assms(3), of l] Cons.prems(2) by auto
  obtain io2 where 2: "smtp_run io1 (mail_events refuse ls ?m) io2" "implements refuse io2 (mail_end refuse ls ?m)"
    "s_replies (fst io2) = s_replies (fst io1) @ map response_line (mail_codes refuse ls ?m)"
    using Cons.IH [OF 1(2)] Cons.prems(2) by auto
  have "mail_codes refuse (l # ls) m = mail_codes refuse [l] m @ mail_codes refuse ls ?m" by (simp add: case_prod_unfold)
  with 1(3) 2(3) have "s_replies (fst io2) = s_replies (fst io) @ map response_line (mail_codes refuse (l # ls) m)" by simp
  with smtp_run_append [OF 1(1) 2(1)] 2(2) show ?case by (intro exI [of _ io2]) (simp add: mail_end_def)
qed

lemma domain_refusal_code: "domain_refusal fs d \<noteq> Some 221"
  by (simp add: domain_refusal_def)

lemma greeted:
  assumes "length junk = 512" "fs_creatable fs (message_name i)" "\<not> fs_dirs fs (message_name i)"
    and "start_session (new_smtp_session i junk) = Inr s"
  shows "\<exists>s0. smtp_step (s, fs) Smtp_Written (s0, fs) \<and> implements (domain_refusal fs) (s0, fs) mail_start
    \<and> s_replies s0 = [response_line 220]"
proof -
  let ?s0 = "s\<lparr>s_pending := Reading\<rparr>"
  have s: "s = responded 220 (new_smtp_session i junk)"
    using assms(4) reply_known [of 220 "new_smtp_session i junk" fs] by (simp add: start_session_def reply_def known_code_def resl_simps)
  have "matches (domain_refusal fs) (new_smtp_session i junk) fs mail_start"
    using assms(2,3) smtp_inv_new [OF assms(1), of i]
    by (simp add: matches_def places_ok_def) (simp add: new_smtp_session_def own_files_def of_closed_def stored_recipients_def mail_start_def)
  then have "implements (domain_refusal fs) (?s0, fs) mail_start"
    by (simp add: implements_def matches_pending s mail_start_def)
  moreover have "smtp_step (s, fs) Smtp_Written (?s0, fs)" by (simp add: smtp_step_written receive_def s)
  ultimately show ?thesis by (intro exI [of _ ?s0]) (simp add: s new_smtp_session_def)
qed

text \<open>C3: a session implements the mail machine: from the greeting, whatever well-formed lines the client sends in whatever
  order, each in a segment of its own, the session can take exactly the steps of reading each line and writing
  each answer, its replies are the greeting and the machine's codes, and phase, recipients, mode and
  message file are the machine's; and it can take these steps in no other way.\<close>
theorem session_is_mail_machine:
  assumes "length junk = 512" "fs_creatable fs (message_name i)" "\<not> fs_dirs fs (message_name i)"
    and "start_session (new_smtp_session i junk) = Inr s" "\<forall>l \<in> set ls. ok_mail_line l"
  shows "\<exists>io'. smtp_run (s, fs) (Smtp_Written # mail_events (domain_refusal fs) ls mail_start) io'
    \<and> s_replies (fst io') = map response_line (220 # mail_codes (domain_refusal fs) ls mail_start)
    \<and> implements (domain_refusal fs) io' (mail_end (domain_refusal fs) ls mail_start)
    \<and> (\<forall>io''. smtp_run (s, fs) (Smtp_Written # mail_events (domain_refusal fs) ls mail_start) io'' \<longrightarrow> io'' = io')"
proof -
  let ?refuse = "domain_refusal fs"
  obtain s0 where 0: "smtp_step (s, fs) Smtp_Written (s0, fs)" "implements ?refuse (s0, fs) mail_start"
    "s_replies s0 = [response_line 220]"
    using greeted [OF assms(1-4)] by blast
  obtain io' where 1: "smtp_run (s0, fs) (mail_events ?refuse ls mail_start) io'"
    "implements ?refuse io' (mail_end ?refuse ls mail_start)"
    "s_replies (fst io') = s_replies s0 @ map response_line (mail_codes ?refuse ls mail_start)"
    using lines_run [OF 0(2) assms(5)] domain_refusal_code by auto
  have run: "smtp_run (s, fs) (Smtp_Written # mail_events ?refuse ls mail_start) io'" by (rule smtp_cons [OF 0(1) 1(1)])
  show ?thesis
  proof (intro exI conjI allI impI)
    show "s_replies (fst io') = map response_line (220 # mail_codes ?refuse ls mail_start)" using 1(3) 0(3) by simp
  qed (rule run, rule 1(2), rule smtp_run_deterministic [OF _ run])
qed

definition sample_lines :: "mail_line list" where
  "sample_lines = [L_Rcpt ''ann'' ''lan'', L_Text ''EHLO me'', L_Helo, L_Mail ''bob@lan'', L_Rcpt ''ann'' ''lan'', L_Rcpt ''ann'' ''wan'',
     L_Mail ''bob@lan'', L_Data, L_Text ''Hi there'', L_Text ''.'', L_Quit]"

theorem session_is_mail_machine_witness:
  "\<exists>s io'. start_session (new_smtp_session 1 (replicate 512 0)) = Inr s
    \<and> smtp_run (s, sample_fs) (Smtp_Written # mail_events (domain_refusal sample_fs) sample_lines mail_start) io'
    \<and> s_replies (fst io') = map response_line [220, 501, 502, 250, 250, 250, 551, 503, 354, 250]"
proof -
  obtain s where s: "start_session (new_smtp_session 1 (replicate 512 0)) = Inr s"
    by (simp add: start_session_def sendResponse_def response_text_def)
  have pre: "length (replicate 512 (0 :: u8)) = 512" "fs_creatable sample_fs (message_name 1)" "\<not> fs_dirs sample_fs (message_name 1)"
    "\<forall>l \<in> set sample_lines. ok_mail_line l"
    by (simp_all add: sample_fs_def message_name_1 sample_lines_def ok_address_def other_line_def first_word_def)
  have ref: "domain_refusal sample_fs ''lan'' = None" "domain_refusal sample_fs ''wan'' = Some 551"
    by (simp_all add: domain_refusal_def domain_path_def sample_fs_def mailboxesRoot_def fs_is_directory_def)
  have "mail_codes (domain_refusal sample_fs) sample_lines mail_start = [501, 502, 250, 250, 250, 551, 503, 354, 250]"
    by (simp add: sample_lines_def mail_start_def mail_step_def mail_command_def ref other_code_def)
  with session_is_mail_machine [OF pre(1-3) s pre(4)] s show ?thesis by auto
qed

end
