(* ===== verification/SMTP_Bounds.thy ===== *)
theory SMTP_Bounds
  imports SMTP_Properties "HOL-Library.Sublist"
begin

text \<open>
  The bounds of the SMTP session's receive buffer: exactly which segments make a session read outside of it.
\<close>

section \<open>The scans of an address\<close>

definition unclosed_address :: "string \<Rightarrow> bool" where
  "unclosed_address buf \<longleftrightarrow> (\<forall>c \<in> set buf. \<not> is_eol c) \<and> CHR ''<'' \<in> set buf
     \<and> CHR ''>'' \<notin> set (dropWhile (\<lambda>c. c \<noteq> CHR ''<'') buf)"

lemma scan_end_step:
  assumes "length buf = 512"
  shows "scan_end buf i =
    (if 512 \<le> i then Inr i else if i = 511 then Inl Out_Of_Bounds
     else if buf ! Suc i = CHR ''>'' \<or> is_eol (buf ! Suc i) then Inr i else scan_end buf (Suc i))"
  using assms by (subst scan_end.simps) (simp add: COMMAND_BUFFER_SIZE_def rd_def)

lemma scan_end_faults:
  assumes "length buf = 512"
  shows "scan_end buf i = Inl f \<longleftrightarrow>
    f = Out_Of_Bounds \<and> i < 512 \<and> (\<forall>c \<in> set (drop (Suc i) buf). c \<noteq> CHR ''>'' \<and> \<not> is_eol c)"
proof (induction "512 - i" arbitrary: i)
  case (Suc n)
  have "drop (Suc i) buf = (if i < 511 then buf ! Suc i # drop (Suc (Suc i)) buf else [])"
    using assms by (simp add: Cons_nth_drop_Suc)
  with Suc(1) [of "Suc i"] Suc(2) show ?case by (subst scan_end_step [OF assms]) auto
qed (subst scan_end_step [OF assms], simp)

lemma scan_end_inside:
  assumes "length buf = 512"
  shows "i < 512 \<Longrightarrow> scan_end buf i = Inr j \<Longrightarrow> Suc j < 512"
proof (induction "512 - i" arbitrary: i)
  case (Suc n)
  with Suc(1) [of "Suc i"] show ?case unfolding scan_end_step [OF assms, of i] by (simp split: if_splits)
qed simp

lemma getAddress_faults:
  assumes "length buf = 512"
  shows "getAddress buf = Inl f \<longleftrightarrow> f = Out_Of_Bounds \<and> unclosed_address buf"
proof -
  let ?P = "\<lambda>c. c \<noteq> CHR ''<'' \<and> \<not> is_eol c"
  define pre where "pre = takeWhile ?P buf"
  have pre: "\<forall>c \<in> set pre. ?P c" by (auto simp: pre_def dest: set_takeWhileD)
  have i: "takeWhile ?P (take COMMAND_BUFFER_SIZE buf) = pre" using assms by (simp add: pre_def COMMAND_BUFFER_SIZE_def)
  show ?thesis
  proof (cases "dropWhile ?P buf")
    case Nil
    then have "pre = buf" by (simp add: pre_def)
    with assms pre show ?thesis unfolding getAddress_def i Let_def
      by (auto simp: COMMAND_BUFFER_SIZE_def unclosed_address_def)
  next
    case (Cons c r)
    then have buf: "buf = pre @ c # r" "\<not> ?P c"
      using takeWhile_dropWhile_id [of ?P buf] by (auto simp: pre_def dropWhile_eq_Cons_conv)
    have len: "length pre < 512" using assms buf(1) by simp
    have rd: "rd buf (length pre) = Inr c" using buf(1) by simp
    show ?thesis
    proof (cases "c = CHR ''<''")
      case True
      then have "dropWhile (\<lambda>c. c \<noteq> CHR ''<'') buf = CHR ''<'' # r"
        using buf(1) pre by (subst buf(1), subst dropWhile_append2) auto
      then have u: "unclosed_address buf \<longleftrightarrow> (\<forall>c \<in> set r. c \<noteq> CHR ''>'' \<and> \<not> is_eol c)"
        using pre True unfolding unclosed_address_def by (subst buf(1)) (auto simp: buf(1))
      have "drop (Suc (length pre)) buf = r" by (simp add: buf(1))
      then have s: "scan_end buf (length pre) = Inl f \<longleftrightarrow> f = Out_Of_Bounds \<and> unclosed_address buf" for f
        using scan_end_faults [OF assms, of "length pre" f] len u by simp
      show ?thesis
      proof (cases "scan_end buf (length pre)")
        case (Inl g)
        then show ?thesis using s [of g] s [of f] rd True len unfolding getAddress_def i Let_def
          by (auto simp: COMMAND_BUFFER_SIZE_def)
      next
        case (Inr j)
        then have "Suc j < 512" using scan_end_inside [OF assms len] by simp
        then show ?thesis using s [of Out_Of_Bounds] Inr rd True len assms unfolding getAddress_def i Let_def
          by (simp add: COMMAND_BUFFER_SIZE_def)
      qed
    next
      case False
      then have "is_eol c" "c \<in> set buf" using buf by auto
      then show ?thesis using rd False len unfolding getAddress_def i Let_def
        by (auto simp: COMMAND_BUFFER_SIZE_def unclosed_address_def)
    qed
  qed
qed

section \<open>The commands that look for an address\<close>

abbreviation command_word :: "string \<Rightarrow> string" where
  "command_word buf \<equiv> takeWhile (\<lambda>c. c \<noteq> CHR '' '') buf"

definition seeks_address :: "smtp_session \<Rightarrow> string \<Rightarrow> bool" where
  "seeks_address s buf \<longleftrightarrow> CHR '' '' \<in> set buf \<and>
     (lastCommand s \<in> {Helo, Rset} \<and> prefix (command_word buf) ''MAIL''
      \<or> lastCommand s = MailFrom \<and> unat (rcptCount s) < MAX_RCPT_ALLOWED
          \<and> command_word buf \<noteq> [] \<and> prefix (command_word buf) ''RCPT'')"

text \<open>\<open>strncmp\<close> compares as many characters as the word has: every beginning of the verb will do, the empty one included.\<close>

lemma strncmp_eq_word:
  assumes "CHR '' '' \<notin> set w" "CHR 0x00 \<notin> set (v @ CHR '' '' # u)"
  shows "strncmp_eq (w @ t) (v @ CHR '' '' # u) (length w) \<longleftrightarrow> prefix w v"
proof -
  let ?l = "v @ CHR '' '' # u" and ?Q = "\<lambda>c. c \<noteq> CHR 0x00"
  have l: "takeWhile ?Q (take n ?l) = take n ?l" for n
    using assms(2) by (subst takeWhile_eq_all_conv) (metis in_set_takeD)
  show ?thesis
  proof (cases "length w \<le> length v")
    case True
    then have tk: "take (length w) ?l = take (length w) v" "length (take (length w) v) = length w" by simp_all
    have full: "takeWhile ?Q w = w" if "length (takeWhile ?Q w) = length w"
      using that takeWhile_eq_take [of ?Q w] by simp
    have "takeWhile ?Q w = take (length w) v \<longleftrightarrow> w = take (length w) v"
    proof
      assume "takeWhile ?Q w = take (length w) v"
      with tk(2) full show "w = take (length w) v" by argo
    next
      assume "w = take (length w) v"
      with l [of "length w"] show "takeWhile ?Q w = take (length w) v" unfolding tk(1) by argo
    qed
    moreover have "prefix w v \<longleftrightarrow> w = take (length w) v" by (metis take_is_prefix prefix_def append_eq_conv_conj)
    ultimately show ?thesis unfolding strncmp_eq_def l unfolding tk(1) by simp
  next
    case False
    then have "CHR '' '' \<in> set (take (length w) ?l)" by (simp add: take_Cons')
    moreover have "CHR '' '' \<notin> set (takeWhile ?Q w)" using assms(1) by (auto dest: set_takeWhileD)
    ultimately have "takeWhile ?Q w \<noteq> take (length w) ?l" by metis
    moreover have "\<not> prefix w v" using False by (auto dest: prefix_length_le)
    ultimately show ?thesis unfolding strncmp_eq_def l by simp
  qed
qed

lemma strncmp_eq_verbs:
  assumes "CHR '' '' \<notin> set w"
  shows "strncmp_eq (w @ t) ''MAIL FROM'' (length w) \<longleftrightarrow> prefix w ''MAIL''"
    and "strncmp_eq (w @ t) ''RCPT TO'' (length w) \<longleftrightarrow> prefix w ''RCPT''"
  using strncmp_eq_word [OF assms, of "''MAIL''" "''FROM''" t] strncmp_eq_word [OF assms, of "''RCPT''" "''TO''" t]
  by simp_all

lemma verbs_apart: "prefix w ''MAIL'' \<Longrightarrow> prefix w ''RCPT'' \<Longrightarrow> w = []"
  by (cases w) auto

lemma never_faults [simp]:
  "processHelo io \<noteq> Inl f" "processData io \<noteq> Inl f" "processRset io \<noteq> Inl f" "processVrfy io \<noteq> Inl f"
  "processNoop io \<noteq> Inl f" "processQuit io \<noteq> Inl f" "processMessage io \<noteq> Inl f"
  by (cases io; simp add: processHelo_def processData_def processRset_def processVrfy_def processNoop_def processQuit_def
      processMessage_def case_prod_unfold Let_def reply_known known_code_def reply_def sendResponse_def response_text_def)+

lemma mail_faults:
  assumes "length (buffer_text s) = 512"
  shows "processMailFrom (s, fs) = Inl f \<longleftrightarrow>
    f = Out_Of_Bounds \<and> lastCommand s \<in> {Helo, Rset} \<and> unclosed_address (buffer_text s)"
  using getAddress_faults [OF assms, of f]
  by (cases "getAddress (buffer_text s)") (auto simp: processMailFrom_def)

lemma rcpt_faults:
  assumes "length (buffer_text s) = 512"
  shows "processRcptTo (s, fs) = Inl f \<longleftrightarrow>
    f = Out_Of_Bounds \<and> lastCommand s = MailFrom \<and> unat (rcptCount s) < MAX_RCPT_ALLOWED \<and> unclosed_address (buffer_text s)"
  using getAddress_faults [OF assms, of f]
  by (cases "getAddress (buffer_text s)") (auto simp: processRcptTo_def Let_def split: option.split)

lemma processCommand_faults:
  assumes "length (buffer_text s) = 512"
  shows "processCommand (s, fs) = Inl f \<longleftrightarrow>
    f = Out_Of_Bounds \<and> seeks_address s (buffer_text s) \<and> unclosed_address (buffer_text s)"
proof -
  let ?P = "\<lambda>c. c \<noteq> CHR '' '' \<and> \<not> is_eol c" and ?buf = "buffer_text s"
  define w where "w = takeWhile ?P ?buf"
  have w: "\<forall>c \<in> set w. ?P c" by (auto simp: w_def dest: set_takeWhileD)
  show ?thesis
  proof (cases "dropWhile ?P ?buf")
    case Nil
    then have all: "takeWhile ?P ?buf = ?buf" using takeWhile_dropWhile_id [of ?P ?buf] by simp
    have "CHR '' '' \<notin> set ?buf" using w unfolding w_def all by blast
    moreover have "take COMMAND_BUFFER_SIZE ?buf = ?buf" using assms by (intro take_all) (simp add: COMMAND_BUFFER_SIZE_def)
    then have "takeWhile ?P (take COMMAND_BUFFER_SIZE ?buf) = ?buf" by (simp only: all)
    then have "processCommand (s, fs) = reply 500 (s, fs)"
      using assms by (simp only: processCommand_def Let_def fst_conv COMMAND_BUFFER_SIZE_def refl if_True)
    ultimately show ?thesis by (simp add: seeks_address_def)
  next
    case (Cons c r)
    then have buf: "?buf = w @ c # r" "\<not> ?P c"
      using takeWhile_dropWhile_id [of ?P ?buf] by (auto simp: w_def dropWhile_eq_Cons_conv)
    have len: "length w < 512" using assms buf(1) by simp
    have c: "c = CHR '' '' \<or> is_eol c" using buf(2) by blast
    note run = processCommand_word [OF buf(1) w c len, of fs]
    show ?thesis
    proof (cases "c = CHR '' ''")
      case True
      have sp: "CHR '' '' \<notin> set w" "command_word ?buf = w" using w True unfolding buf(1) by auto
      have "processCommand (s, fs) = (if prefix w ''MAIL'' then processMailFrom (s, fs)
          else if prefix w ''RCPT'' then processRcptTo (s, fs) else reply 502 (s, fs))"
        unfolding run if_P [OF True] strncmp_eq_verbs [OF sp(1)] by (rule refl)
      moreover have "CHR '' '' \<in> set ?buf" using True buf(1) by simp
      ultimately show ?thesis using verbs_apart [of w]
        unfolding seeks_address_def sp(2) by (auto simp: mail_faults [OF assms] rcpt_faults [OF assms])
    next
      case False
      then have "is_eol c" "\<not> unclosed_address ?buf" using buf by (auto simp: unclosed_address_def)
      moreover have "processCommand (s, fs) \<noteq> Inl f" using False unfolding run if_not_P [OF False] by simp
      ultimately show ?thesis by simp
    qed
  qed
qed

section \<open>Every segment\<close>

text \<open>The buffer once a segment has arrived: its octets, and behind them whatever the buffer held before.\<close>

definition received_text :: "bytes \<Rightarrow> smtp_session \<Rightarrow> string" where
  "received_text d s = of_bytes (overwrite (s_buffer s) 0 d)"

text \<open>C37: exactly when an SMTP session reads outside its receive buffer. A segment of any octets, in a session with any history,
  faults only if the session is not receiving a message and the whole buffer, stale octets included, holds no CR or LF,
  has a space behind a beginning of MAIL or RCPT (an empty one counts as MAIL), the command is in its place in the sequence
  and nothing closes the first '<'. Every other segment is handled.\<close>
theorem session_overreads_exactly:
  assumes "length (s_buffer s) = COMMAND_BUFFER_SIZE" "length d \<le> COMMAND_BUFFER_SIZE"
  shows "on_read d (s, fs) = Inl f \<longleftrightarrow> f = Out_Of_Bounds \<and> \<not> receiveMessage s
    \<and> seeks_address s (received_text d s) \<and> unclosed_address (received_text d s)"
proof -
  let ?s = "s\<lparr>s_buffer := overwrite (s_buffer s) 0 d, s_length := length d, s_pending := Idle\<rparr>"
  have "length (buffer_text ?s) = 512" using assms by (simp add: COMMAND_BUFFER_SIZE_def overwrite_0_append of_bytes_def)
  from processCommand_faults [OF this, of fs f] show ?thesis
    by (simp add: on_read_def Let_def received_text_def seeks_address_def)
qed

theorem session_overreads_exactly_witness:
  "on_read (to_bytes ('' <'' @ replicate 510 CHR ''a'')) (sample_session\<lparr>lastCommand := Helo\<rparr>, sample_fs) = Inl Out_Of_Bounds
   \<and> on_read (to_bytes (''MAIL FROM:<a'' @ CRLF)) (sample_session\<lparr>lastCommand := Helo\<rparr>, sample_fs) \<noteq> Inl Out_Of_Bounds"
proof -
  let ?s = "sample_session\<lparr>lastCommand := Helo\<rparr>"
  have len: "length (s_buffer ?s) = COMMAND_BUFFER_SIZE"
    using sample_session_ok(1) by (simp add: ready_def COMMAND_BUFFER_SIZE_def)
  have t: "received_text (to_bytes t) ?s = t @ drop (length t) (buffer_text ?s)" for t
    by (simp add: received_text_def overwrite_0_append) (simp add: of_bytes_def drop_map)
  have "received_text (to_bytes ('' <'' @ replicate 510 CHR ''a'')) ?s = '' <'' @ replicate 510 CHR ''a''"
    using len unfolding t by (simp add: COMMAND_BUFFER_SIZE_def of_bytes_def)
  then have "seeks_address ?s (received_text (to_bytes ('' <'' @ replicate 510 CHR ''a'')) ?s)"
    "unclosed_address (received_text (to_bytes ('' <'' @ replicate 510 CHR ''a'')) ?s)"
    by (simp_all add: seeks_address_def unclosed_address_def)
  moreover have "\<not> unclosed_address (received_text (to_bytes (''MAIL FROM:<a'' @ CRLF)) ?s)"
    unfolding t by (simp add: unclosed_address_def)
  ultimately show ?thesis
    using session_overreads_exactly [OF len, of "to_bytes ('' <'' @ replicate 510 CHR ''a'')" sample_fs Out_Of_Bounds]
      session_overreads_exactly [OF len, of "to_bytes (''MAIL FROM:<a'' @ CRLF)" sample_fs Out_Of_Bounds]
    by (simp add: COMMAND_BUFFER_SIZE_def)
qed

end
