(* ===== verification/SMTP_Helpers.thy ===== *)
theory SMTP_Helpers
  imports SMTP_Server
begin

text \<open>
  The parts of \<open>smtp\<close> that the server is compiled with but does not call: the template
  \<open>SessionsManager\<close> and \<open>string_utils::split\<close>.
\<close>

section \<open>\<open>SessionsManager\<close>\<close>

text \<open>\<open>getId\<close> and \<open>start\<close> are the two members of the session type that the template uses.\<close>

type_synonym 's managed = "u32 \<Rightarrow> 's option"

definition manager_startSession :: "('s \<Rightarrow> u32) \<Rightarrow> ('s \<Rightarrow> 's) \<Rightarrow> 's \<Rightarrow> 's managed \<Rightarrow> 's managed" where
  "manager_startSession getId start session m =
     (let sessionId = getId session; m = m(sessionId \<mapsto> session)
      in m(sessionId := map_option start (m sessionId)))"

text \<open>The body is a comment.\<close>

definition manager_closeSession :: "u32 \<Rightarrow> 's managed \<Rightarrow> 's managed" where
  "manager_closeSession i m = m"

lemma manager_startSession_eq: "manager_startSession getId start session m = m(getId session \<mapsto> start session)"
  by (simp add: manager_startSession_def Let_def)

text \<open>Sessions never leave the manager: what is closed stays until a session with the same identifier is started.\<close>

lemma manager_grows:
  "dom m \<subseteq> dom (manager_startSession getId start session m)" "dom (manager_closeSession i m) = dom m"
  by (auto simp: manager_startSession_eq manager_closeSession_def)

section \<open>\<open>split\<close>\<close>

text \<open>\<open>std::getline\<close> on a string stream: \<open>None\<close> when nothing can be read, or else the item and the rest.\<close>

definition stream_getline :: "char \<Rightarrow> string \<Rightarrow> (string \<times> string) option" where
  "stream_getline delim ss =
     (if ss = [] then None
      else Some (case find_char delim ss of Some p \<Rightarrow> (take p ss, drop (p + 1) ss) | None \<Rightarrow> (ss, [])))"

function smtp_split :: "char \<Rightarrow> string \<Rightarrow> string list \<Rightarrow> string list" where
  "smtp_split delim ss result =
     (case stream_getline delim ss of
        None \<Rightarrow> result
      | Some (x, ss) \<Rightarrow> smtp_split delim ss (result @ [x]))"
  by pat_completeness auto
termination
  by (relation "measure (\<lambda>(delim, ss, result). length ss)")
    (auto simp: stream_getline_def split: if_splits option.splits)

declare smtp_split.simps [simp del]

text \<open>It is the same function as the one of \<open>ftp/common\<close>.\<close>

lemma smtp_split_eq: "smtp_split delim ss result = result @ getline_split delim ss"
proof (induction delim ss result rule: smtp_split.induct)
  case (1 delim ss result)
  then show ?case
    by (subst smtp_split.simps, subst getline_split.simps) (auto simp: stream_getline_def split: option.splits)
qed

end
