(* ===== verification/FTP_Users.thy ===== *)
theory FTP_Users
  imports Std_String
begin

text \<open>
  \<open>ftp/server: UsersDB\<close>: the map from user names to passwords. The singleton is an argument of
  the session's functions; it is filled once, before any session starts, and only read then.
\<close>

type_synonym users_db = "string \<Rightarrow> string option"

definition usernameIsKnown :: "users_db \<Rightarrow> string \<Rightarrow> bool" where
  "usernameIsKnown db username \<longleftrightarrow> db username \<noteq> None"

definition passwordIsValid :: "users_db \<Rightarrow> string \<Rightarrow> string \<Rightarrow> bool resl" where
  "passwordIsValid db username password =
     (case db username of
        None \<Rightarrow> Inl (Std_Exception ''UsersDB could not check password - username is unknown.'')
      | Some p \<Rightarrow> Inr (p = password))"

text \<open>The file is not read (\<open>not implemented yet\<close>).\<close>

definition loadFromFile :: "string \<Rightarrow> users_db \<Rightarrow> users_db" where
  "loadFromFile filename db = db(''testuser'' \<mapsto> ''testpassword'')"

lemma passwordIsValid_known: "usernameIsKnown db u \<Longrightarrow> \<exists>b. passwordIsValid db u p = Inr b"
  by (auto simp: usernameIsKnown_def passwordIsValid_def)

end
