(* ===== verification/FTP_Session.thy ===== *)
theory FTP_Session
  imports File_System FTP_Users
begin

text \<open>
  \<open>ftp/server: FTPSession\<close>. Every session is a thread that reads a command, executes it and
  answers; the handlers are functions on the session, the file system and the environment's
  answers during the command (the data connection's socket calls, what the directory iterator
  yields). Handlers throw before they have changed anything, so an exception is a fault value
  and the worker goes on from the state before the command.
\<close>

section \<open>State\<close>

datatype TransferType = Transfer_ASCII | Transfer_Binary

text \<open>
  The data socket: closed, open without a peer (after a failed \<open>connect\<close>), or connected to a
  client the server called or that called the server.
\<close>

datatype data_peer = Called string u16 | Accepted_On u16
datatype data_socket = Ds_Closed | Ds_Open | Ds_Connected data_peer

record ftp_session =
  f_dataPort :: u16
  dataSocket :: data_socket
  acceptorOpen :: bool
  rootDir :: string
  currDir :: string
  f_username :: string
  quitCmdLoop :: bool
  transferType :: TransferType
  ctrl_open :: bool
  ctrl_out :: "string list"
  data_out :: bytes

text \<open>
  The answers of the environment: whether \<open>make_address\<close> accepts a host, the results of the
  socket calls, the data \<open>read_some\<close> delivers until the peer closes, what \<open>in_avail\<close> reports for
  a rest of a file, which files can be read, the directory iterator (names with their formatted
  times, \<open>None\<close> where a query throws), which directories can be made and what can be removed; and the
  compiler's choice of an order of evaluation that C++ leaves open (\<open>e_left_first\<close>).
\<close>

record ftp_env =
  e_address_ok :: "string \<Rightarrow> bool"
  e_socket_ok :: bool
  e_connect_ok :: "string \<Rightarrow> u16 \<Rightarrow> bool"
  e_acc_open :: bool
  e_acc_reuse :: bool
  e_acc_bind :: bool
  e_acc_listen :: bool
  e_acc_accept :: bool
  e_write_ok :: "nat \<Rightarrow> bool"
  e_reads :: "bytes list"
  e_in_avail :: "nat \<Rightarrow> nat"
  e_readable :: "string \<Rightarrow> bool"
  e_listing :: "string \<Rightarrow> (string \<times> string option) list option"
  e_mkdir_ok :: "string \<Rightarrow> bool"
  e_remove_ok :: "string \<Rightarrow> bool"
  e_left_first :: bool

type_synonym ftp_io = "ftp_session \<times> fsys"

definition new_ftp_session :: "u16 \<Rightarrow> string \<Rightarrow> ftp_session" where
  "new_ftp_session port root = \<lparr>f_dataPort = port, dataSocket = Ds_Closed, acceptorOpen = False,
     rootDir = root, currDir = root, f_username = [], quitCmdLoop = False,
     transferType = Transfer_Binary, ctrl_open = True, ctrl_out = [], data_out = []\<rparr>"

section \<open>Sending\<close>

definition sendMessageToClient :: "string \<Rightarrow> ftp_session \<Rightarrow> ftp_session" where
  "sendMessageToClient msg s = s\<lparr>ctrl_out := ctrl_out s @ [msg @ CRLF]\<rparr>"

text \<open>The end of a handler: the message is sent, nothing else happens.\<close>

definition say :: "string \<Rightarrow> ftp_io \<Rightarrow> ftp_io resl" where
  "say msg io = Inr (sendMessageToClient msg (fst io), snd io)"

definition connected :: "ftp_session \<Rightarrow> bool" where
  "connected s \<longleftrightarrow> (case dataSocket s of Ds_Connected p \<Rightarrow> True | _ \<Rightarrow> False)"

text \<open>The \<open>k\<close>-th write of a command.\<close>

definition sendDataToClient :: "ftp_env \<Rightarrow> nat \<Rightarrow> bytes \<Rightarrow> ftp_session \<Rightarrow> bool \<times> ftp_session" where
  "sendDataToClient env k d s =
     (if connected s \<and> e_write_ok env k then (True, s\<lparr>data_out := data_out s @ d\<rparr>) else (False, s))"

definition sendAsciiDataToClient :: "ftp_env \<Rightarrow> nat \<Rightarrow> string \<Rightarrow> ftp_session \<Rightarrow> ftp_session" where
  "sendAsciiDataToClient env k line s = snd (sendDataToClient env k (to_bytes (line @ CRLF)) s)"

section \<open>The data connection\<close>

text \<open>\<open>connect\<close> opens a closed socket, fails on a connected one, and leaves it open when it fails.\<close>

definition openDataConnectionActive :: "ftp_env \<Rightarrow> string \<Rightarrow> u16 \<Rightarrow> ftp_session \<Rightarrow> (bool \<times> ftp_session) resl" where
  "openDataConnectionActive env addr port s =
     (if \<not> e_address_ok env addr then Inl (Std_Exception ''make_address'')
      else if connected s then Inr (False, s)
      else if dataSocket s = Ds_Closed \<and> \<not> e_socket_ok env then Inr (False, s)
      else if e_connect_ok env addr port then Inr (True, s\<lparr>dataSocket := Ds_Connected (Called addr port)\<rparr>)
      else Inr (False, s\<lparr>dataSocket := Ds_Open\<rparr>))"

text \<open>Opening an acceptor that is open already is an error; a later failure leaves it open.\<close>

definition openDataConnectionPassive :: "ftp_env \<Rightarrow> u16 \<Rightarrow> ftp_session \<Rightarrow> bool \<times> ftp_session" where
  "openDataConnectionPassive env port s =
     (if dataSocket s \<noteq> Ds_Closed then (False, s)
      else if acceptorOpen s \<or> \<not> e_acc_open env then (False, s)
      else let s = s\<lparr>acceptorOpen := True\<rparr> in
           if \<not> e_acc_reuse env then (False, s)
           else if \<not> e_acc_bind env then (False, s)
           else if \<not> e_acc_listen env then (False, s)
           else if \<not> e_acc_accept env then (False, s)
           else (True, s\<lparr>dataSocket := Ds_Connected (Accepted_On port)\<rparr>))"

definition closeDataConnection :: "ftp_session \<Rightarrow> ftp_session" where
  "closeDataConnection s = s\<lparr>dataSocket := Ds_Closed, acceptorOpen := False\<rparr>"

section \<open>Login\<close>

definition handleUser :: "users_db \<Rightarrow> string \<Rightarrow> ftp_io \<Rightarrow> ftp_io resl" where
  "handleUser db args io =
     (let (s, fs) = io in
      if usernameIsKnown db args
      then Inr ((sendMessageToClient (''331 Password required for '' @ args) s)\<lparr>f_username := args\<rparr>, fs)
      else Inr (s, fs))"

definition handlePass :: "users_db \<Rightarrow> string \<Rightarrow> ftp_io \<Rightarrow> ftp_io resl" where
  "handlePass db args io =
     (let (s, fs) = io in
      if f_username s \<noteq> []
      then bind_res (passwordIsValid db (f_username s) args) (\<lambda>valid.
             if valid then say (''230 User '' @ f_username s @ '' logged in'') io
             else say ''530 login authentication failed'' io)
      else Inr io)"

section \<open>Directories\<close>

text \<open>A status query without an error code throws where it fails.\<close>

definition exists_or_throw :: "fsys \<Rightarrow> string \<Rightarrow> bool resl" where
  "exists_or_throw fs p = (if fs_denied fs p then Inl (Std_Exception ''status'') else Inr (fs_exists fs p))"

definition handleCwd :: "string \<Rightarrow> ftp_io \<Rightarrow> ftp_io resl" where
  "handleCwd args io =
     (let (s, fs) = io;
          dir = (if args = ''..'' then parent_path (currDir s)
                 else if args \<noteq> [] \<and> args \<noteq> ''.'' then path_append (currDir s) args
                 else currDir s)
      in bind_res (exists_or_throw fs dir) (\<lambda>ex.
           if ex \<and> fs_is_directory fs dir
           then say (''250 The current directory has been changed to '' @ dir) (s\<lparr>currDir := dir\<rparr>, fs)
           else say ''550 Requested action not taken, directory unavailable'' io))"

definition handlePwd :: "ftp_io \<Rightarrow> ftp_io resl" where
  "handlePwd io = say (''257 '' @ [CHR 0x22] @ currDir (fst io) @ [CHR 0x22]) io"

text \<open>The regular expressions: \<open>^[a-zA-Z0-9]+$\<close>, and \<open>(.+?)(\.[^.]*$|$)\<close> where \<open>.\<close> is no line end.\<close>

definition alnum_name :: "string \<Rightarrow> bool" where
  "alnum_name s \<longleftrightarrow> s \<noteq> [] \<and> list_all (\<lambda>c. let n = of_char c :: nat in
     (97 \<le> n \<and> n \<le> 122) \<or> (65 \<le> n \<and> n \<le> 90) \<or> (48 \<le> n \<and> n \<le> 57)) s"

definition dele_name :: "string \<Rightarrow> bool" where
  "dele_name s \<longleftrightarrow> s \<noteq> [] \<and>
     (let line = list_all (\<lambda>c. c \<noteq> CHR 0x0A \<and> c \<noteq> CHR 0x0D) in
      line s \<or> (case rfind_char (CHR ''.'') s of None \<Rightarrow> False | Some i \<Rightarrow> 0 < i \<and> line (take i s)))"

definition make_directory :: "string \<Rightarrow> fsys \<Rightarrow> fsys" where
  "make_directory p fs = fs\<lparr>fs_dirs := (\<lambda>q. q = p \<or> fs_dirs fs q)\<rparr>"

definition remove_directory :: "string \<Rightarrow> fsys \<Rightarrow> fsys" where
  "remove_directory p fs = fs\<lparr>fs_dirs := (\<lambda>q. q \<noteq> p \<and> fs_dirs fs q)\<rparr>"

definition handleMkd :: "ftp_env \<Rightarrow> string \<Rightarrow> ftp_io \<Rightarrow> ftp_io resl" where
  "handleMkd env args io =
     (let (s, fs) = io; dir = path_append (currDir s) args in
      if \<not> alnum_name args then say ''550 Invalid name'' io
      else if \<not> fs_exists fs dir \<and> e_mkdir_ok env dir
      then say ''250 Directory successfully created'' (s, make_directory dir fs)
      else say ''550 Could not create directory'' io)"

definition handleRmd :: "ftp_env \<Rightarrow> string \<Rightarrow> ftp_io \<Rightarrow> ftp_io resl" where
  "handleRmd env args io =
     (let (s, fs) = io; dir = path_append (currDir s) args in
      if \<not> alnum_name args then say ''550 Invalid name'' io
      else if \<not> fs_denied fs dir \<and> fs_is_directory fs dir
      then (if e_remove_ok env dir then say ''250 Directory successfully removed'' (s, remove_directory dir fs)
            else say ''550 Could not remove directory'' io)
      else say ''550 Directory not exist or given name is not directory'' io)"

definition handleDele :: "ftp_env \<Rightarrow> string \<Rightarrow> ftp_io \<Rightarrow> ftp_io resl" where
  "handleDele env args io =
     (let (s, fs) = io; p = path_append (currDir s) args in
      if \<not> dele_name args then say ''550 Invalid name'' io
      else bind_res (exists_or_throw fs p) (\<lambda>ex.
        if ex \<and> fs_files fs p \<noteq> None
        then (if e_remove_ok env p then say ''250 file successfully deleted'' (s, fs_remove p fs)
              else say ''550 could not delete file'' io)
        else say ''550 File doesn't exist'' io))"

text \<open>One line of a listing; entries whose queries throw are left out.\<close>

definition entry_line :: "fsys \<Rightarrow> string \<Rightarrow> string \<times> string option \<Rightarrow> string list" where
  "entry_line fs dir entry =
     (case entry of
        (name, None) \<Rightarrow> []
      | (name, Some ftime) \<Rightarrow>
          (let p = path_append dir name in
           if fs_denied fs p then []
           else [(case fs_files fs p of
                    Some d \<Rightarrow> zero_pad 16 (dec_of_nat (length d))
                  | None \<Rightarrow> if fs_dirs fs p then '' -- directory    '' else ''                '')
                 @ [CHR 0x09] @ ftime @ [CHR 0x09] @ name]))"

definition readDirectory :: "ftp_env \<Rightarrow> string \<Rightarrow> ftp_io \<Rightarrow> string list resl" where
  "readDirectory env dirName io =
     (let (s, fs) = io; p = path_append (currDir s) dirName in
      if fs_denied fs p \<or> \<not> fs_is_directory fs p then Inr []
      else case e_listing env p of
             None \<Rightarrow> Inl (Std_Exception ''directory_iterator'')
           | Some entries \<Rightarrow> Inr (concat (map (entry_line fs p) entries)))"

fun send_listing :: "ftp_env \<Rightarrow> nat \<Rightarrow> string list \<Rightarrow> ftp_session \<Rightarrow> ftp_session" where
  "send_listing env k [] s = s"
| "send_listing env k (l # ls) s = send_listing env (k + 1) ls (sendAsciiDataToClient env k l s)"

definition handleNlst :: "ftp_env \<Rightarrow> string \<Rightarrow> ftp_io \<Rightarrow> ftp_io resl" where
  "handleNlst env args io =
     (let (s, fs) = io in
      if dataSocket s = Ds_Closed then say ''425 No data connection'' io
      else case readDirectory env args io of
             Inl e \<Rightarrow> Inr (closeDataConnection s, fs)
           | Inr dirContent \<Rightarrow>
               if dirContent = []
               then Inr (closeDataConnection (sendMessageToClient ''550 The directory does not exist'' s), fs)
               else Inr (closeDataConnection (sendMessageToClient ''226 Transfer complete''
                      (send_listing env 0 dirContent
                        (sendMessageToClient ''125 Data connection is ready to transfer files list'' s))), fs))"

end
