(* ===== verification/FTP_Commands.thy ===== *)
theory FTP_Commands
  imports FTP_Session
begin

text \<open>
  \<open>ftp/server: FTPSession\<close>, continued: the commands that set up the data connection, the two file
  transfers, the dispatch of \<open>executeCommand\<close> and the loop of the worker thread.
\<close>

section \<open>Setting up the data connection\<close>

definition handleEpsv :: "ftp_env \<Rightarrow> ftp_io \<Rightarrow> ftp_io resl" where
  "handleEpsv env io =
     (let (s, fs) = io;
          s = sendMessageToClient (''229 Entering Extended Passive Mode (|||''
                @ dec_of_nat (unat (f_dataPort s)) @ ''|)'') s
      in Inr (snd (openDataConnectionPassive env (f_dataPort s) s), fs))"

definition pasv_reply :: "u16 \<Rightarrow> string" where
  "pasv_reply port =
     (let h = getline_split (CHR ''.'') ''127.0.0.1'' in
      ''227 Entering Passive Mode ('' @ h ! 0 @ '','' @ h ! 1 @ '','' @ h ! 2 @ '','' @ h ! 3 @ '',''
        @ dec_of_nat (unat (port div 256)) @ '','' @ dec_of_nat (unat (port mod 256)) @ '').'')"

definition handlePasv :: "ftp_env \<Rightarrow> ftp_io \<Rightarrow> ftp_io resl" where
  "handlePasv env io =
     (let (s, fs) = io; s = sendMessageToClient (pasv_reply (f_dataPort s)) s
      in Inr (snd (openDataConnectionPassive env (f_dataPort s) s), fs))"

text \<open>
  The host and the port of six comma-separated fields; the sum is an \<open>int\<close> before it is cut to 16 bits. C++
  leaves open how the evaluations of the two operands of the sum are interleaved. Each ends at its first
  fault or exception, so where both have one, either can be the first, and nothing else depends on the
  order: \<open>left_first\<close> says which.
\<close>

definition port_high :: "string list \<Rightarrow> int resl" where
  "port_high elements =
     bind_res (rd elements 4) (\<lambda>e4. bind_res (stoi e4) (\<lambda>p1.
       if in_int (p1 * 256) then Inr (p1 * 256) else Inl Signed_Overflow))"

definition port_low :: "string list \<Rightarrow> int resl" where
  "port_low elements = bind_res (rd elements 5) stoi"

definition both_operands :: "bool \<Rightarrow> int resl \<Rightarrow> int resl \<Rightarrow> (int \<times> int) resl" where
  "both_operands left_first l r =
     (if left_first then bind_res l (\<lambda>a. bind_res r (\<lambda>b. Inr (a, b)))
      else bind_res r (\<lambda>b. bind_res l (\<lambda>a. Inr (a, b))))"

definition port_args :: "bool \<Rightarrow> string \<Rightarrow> (string \<times> u16) resl" where
  "port_args left_first args =
     (let elements = getline_split (CHR '','') args in
      bind_res (rd elements 0) (\<lambda>e0.
      bind_res (rd elements 1) (\<lambda>e1.
      bind_res (rd elements 2) (\<lambda>e2.
      bind_res (rd elements 3) (\<lambda>e3.
      bind_res (both_operands left_first (port_high elements) (port_low elements)) (\<lambda>(a, b).
        if \<not> in_int (a + b) then Inl Signed_Overflow
        else Inr (e0 @ ''.'' @ e1 @ ''.'' @ e2 @ ''.'' @ e3, word_of_int (a + b))))))))"

definition handlePort :: "ftp_env \<Rightarrow> string \<Rightarrow> ftp_io \<Rightarrow> ftp_io resl" where
  "handlePort env args io =
     (let (s, fs) = io in
      bind_res (port_args (e_left_first env) args) (\<lambda>(host, port).
      bind_res (openDataConnectionActive env host port s) (\<lambda>(ok, s).
        if ok then say ''200 PORT command successful'' (s, fs) else Inr (s, fs))))"

definition parseExtendedArguments :: "string \<Rightarrow> string" where
  "parseExtendedArguments args = args"

text \<open>What PORT does before: the text between the first brackets, where there are any.\<close>

definition strip_brackets :: "string \<Rightarrow> string" where
  "strip_brackets args =
     (let args = (case find_char (CHR ''('') args of None \<Rightarrow> args | Some p \<Rightarrow> drop (p + 1) args)
      in case find_char (CHR '')'') args of None \<Rightarrow> args | Some p \<Rightarrow> take p args)"

section \<open>Sending a file\<close>

definition file_content :: "ftp_env \<Rightarrow> fsys \<Rightarrow> string \<Rightarrow> bytes" where
  "file_content env fs p =
     (if e_readable env p then (case fs_files fs p of Some d \<Rightarrow> d | None \<Rightarrow> []) else [])"

text \<open>
  \<open>readsome\<close> takes at most what \<open>in_avail\<close> reports, so the loop ends where nothing is reported,
  at the end of the file or not.
\<close>

function send_blocks :: "ftp_env \<Rightarrow> nat \<Rightarrow> bytes \<Rightarrow> ftp_session \<Rightarrow> bool \<times> ftp_session" where
  "send_blocks env k rest s =
     (let n = min 1024 (min (e_in_avail env (length rest)) (length rest)) in
      if n = 0 then (True, s)
      else case sendDataToClient env k (take n rest) s of
             (ok, s) \<Rightarrow> if \<not> ok then (False, s) else send_blocks env (k + 1) (drop n rest) s)"
  by pat_completeness auto
termination by (relation "measure (\<lambda>(env, k, rest, s). length rest)") auto

declare send_blocks.simps [simp del]

fun send_lines :: "ftp_env \<Rightarrow> nat \<Rightarrow> string list \<Rightarrow> ftp_session \<Rightarrow> bool \<times> ftp_session" where
  "send_lines env k [] s = (True, s)"
| "send_lines env k (l # ls) s =
     (case sendDataToClient env k (to_bytes (l @ CRLF)) s of
        (ok, s) \<Rightarrow> if \<not> ok then (False, s) else send_lines env (k + 1) ls s)"

definition handleRetr :: "ftp_env \<Rightarrow> string \<Rightarrow> ftp_io \<Rightarrow> ftp_io resl" where
  "handleRetr env args io =
     (let (s, fs) = io; p = path_append (currDir s) args in
      if dataSocket s = Ds_Closed then say ''425 No data connection'' io
      else bind_res (exists_or_throw fs p) (\<lambda>ex.
        if \<not> ex then say ''550 File does not exist'' io
        else
          let (transferSuccess, s) =
                (if transferType s = Transfer_Binary
                 then send_blocks env 0 (file_content env fs p)
                        (sendMessageToClient ''150 Data connection (binary mode) is ready to transfer file'' s)
                 else send_lines env 0 (getline_split (CHR 0x0A) (of_bytes (file_content env fs p)))
                        (sendMessageToClient ''150 Data connection (ASCII mode) is ready to transfer file.'' s));
              s = (if transferSuccess
                   then sendMessageToClient ''226 The file transferred successfully, closing data connection'' s
                   else s)
          in Inr (closeDataConnection s, fs)))"

section \<open>Receiving a file\<close>

text \<open>Blocks are taken until one is shorter than 512 bytes; the end of the data is an error of \<open>read_some\<close>.\<close>

fun receive_blocks :: "(bytes \<Rightarrow> bytes) \<Rightarrow> bytes list \<Rightarrow> ofstream \<times> fsys \<Rightarrow> bool \<times> ofstream \<times> fsys" where
  "receive_blocks f [] out = (False, out)"
| "receive_blocks f (b # bs) out =
     (let b = take 512 b; out = of_write (f b) out
      in if length b = 512 then receive_blocks f bs out else (True, out))"

definition drop_cr :: "bytes \<Rightarrow> bytes" where
  "drop_cr = filter (\<lambda>b. b \<noteq> 0x0D)"

definition handleStor :: "ftp_env \<Rightarrow> string \<Rightarrow> ftp_io \<Rightarrow> ftp_io resl" where
  "handleStor env args io =
     (let (s, fs) = io; p = path_append (currDir s) args in
      if dataSocket s = Ds_Closed then say ''425 No data connection'' io
      else
        let binary = (transferType s = Transfer_Binary);
            s = sendMessageToClient (if binary then ''150 Data connection (binary mode) is ready to transfer file''
                  else ''150 Data connection (ASCII mode) is ready to transfer file'') s;
            (transferSuccess, out, fs) = receive_blocks (if binary then (\<lambda>b. b) else drop_cr)
                  (if connected s then e_reads env else []) (of_open p (of_closed, fs));
            s = sendMessageToClient (if transferSuccess
                  then ''226 The file transferred successfully, closing data connection''
                  else ''446 Transfer failed'') s
        in Inr (closeDataConnection s, fs))"

section \<open>The remaining commands\<close>

definition handleType :: "string \<Rightarrow> ftp_io \<Rightarrow> ftp_io resl" where
  "handleType args io =
     (let (s, fs) = io in
      if length args \<noteq> 1 then say ''504 Invalid argument'' io
      else bind_res (std_toupper (args ! 0)) (\<lambda>c.
        if c = CHR ''A'' then say ''200 Switched to ASCII mode'' (s\<lparr>transferType := Transfer_ASCII\<rparr>, fs)
        else if c = CHR ''I'' then say ''200 Switched to Binary mode'' (s\<lparr>transferType := Transfer_Binary\<rparr>, fs)
        else say ''504 Invalid argument'' io))"

definition handleFeat :: "ftp_io \<Rightarrow> ftp_io resl" where
  "handleFeat io =
     (let (s, fs) = io in
      Inr (sendMessageToClient ''211 End'' (sendMessageToClient '' nothing essential now ''
             (sendMessageToClient ''211-Features supported:'' s)), fs))"

definition handleSyst :: "ftp_io \<Rightarrow> ftp_io resl" where
  "handleSyst io = say ''215 UNIX Type: L8'' io"

definition handleQuit :: "ftp_io \<Rightarrow> ftp_io resl" where
  "handleQuit io =
     (let (s, fs) = io in Inr ((sendMessageToClient ''221 Goodbye.'' s)\<lparr>quitCmdLoop := True\<rparr>, fs))"

section \<open>Dispatch\<close>

definition executeCommand :: "users_db \<Rightarrow> ftp_env \<Rightarrow> string \<Rightarrow> ftp_io \<Rightarrow> ftp_io resl" where
  "executeCommand db env cmd io =
     (let (command, args) = (case find_char (CHR '' '') cmd of
            Some p \<Rightarrow> (take p cmd, drop (p + 1) cmd) | None \<Rightarrow> (cmd, []))
      in bind_res (uppercase command) (\<lambda>command.
         if command = ''CWD'' then handleCwd args io
         else if command = ''DELE'' then handleDele env args io
         else if command = ''EPRT'' then handlePort env (parseExtendedArguments args) io
         else if command = ''EPSV'' then handleEpsv env io
         else if command = ''FEAT'' then handleFeat io
         else if command = ''LIST'' then handleNlst env args io
         else if command = ''NLST'' then handleNlst env args io
         else if command = ''MKD'' then handleMkd env args io
         else if command = ''PASS'' then handlePass db args io
         else if command = ''PASV'' then handlePasv env io
         else if command = ''PORT'' then handlePort env (strip_brackets args) io
         else if command = ''PWD'' then handlePwd io
         else if command = ''QUIT'' then handleQuit io
         else if command = ''RETR'' then handleRetr env args io
         else if command = ''RMD'' then handleRmd env args io
         else if command = ''SYST'' then handleSyst io
         else if command = ''STOR'' then handleStor env args io
         else if command = ''TYPE'' then handleType args io
         else if command = ''USER'' then handleUser db args io
         else say ''500 Unknown command'' io))"

section \<open>The worker\<close>

text \<open>
  One turn of the command loop: what \<open>read_until\<close> has put into the buffer (all that arrived, at
  least one line) or the value of its error. The buffer is local to the turn, so what follows the
  first line is dropped. An exception, QUIT, or the end of the control connection ends the loop,
  which closes the control socket.
\<close>

datatype ftp_event = Received_Text string | Read_Failed int

definition first_line :: "string \<Rightarrow> string" where
  "first_line t = (case find_sub CRLF t of Some p \<Rightarrow> take p t | None \<Rightarrow> t)"

definition ftp_start :: "ftp_session \<Rightarrow> ftp_session" where
  "ftp_start s = sendMessageToClient ''220 myhost.mydomain FTP-server (version 1.0) ready'' s"

definition ftp_turn :: "users_db \<Rightarrow> ftp_env \<Rightarrow> ftp_event \<Rightarrow> ftp_io \<Rightarrow> ftp_io resl" where
  "ftp_turn db env e io =
     (let (s, fs) = io in
      case e of
        Read_Failed code \<Rightarrow> Inr (if code = 2 then s\<lparr>ctrl_open := False\<rparr> else s, fs)
      | Received_Text t \<Rightarrow>
          (case executeCommand db env (first_line t) io of
             Inr (s', fs') \<Rightarrow> Inr (if quitCmdLoop s' then s'\<lparr>ctrl_open := False\<rparr> else s', fs')
           | Inl (Std_Exception x) \<Rightarrow> Inr (s\<lparr>ctrl_open := False\<rparr>, fs)
           | Inl e \<Rightarrow> Inl e))"

fun worker :: "users_db \<Rightarrow> (ftp_env \<times> ftp_event) list \<Rightarrow> ftp_io \<Rightarrow> ftp_io resl" where
  "worker db [] io = Inr io"
| "worker db ((env, e) # es) io =
     (if ctrl_open (fst io) then bind_res (ftp_turn db env e io) (worker db es) else Inr io)"

end
