(* ===== verification/FTP_Server.thy ===== *)
theory FTP_Server
  imports FTP_Commands Machines
begin

text \<open>
  \<open>ftp/server: FTPServer\<close>: accepting connections, one session (and thread) for each, all on one
  file system and, for their passive data connections, on one port. The turns of the sessions
  interleave command by command. Then what every handler does to a session, and the invariant of
  the sessions.
\<close>

section \<open>State and steps\<close>

definition FTP_DATA_CONNECTION_PORT :: u16 where
  "FTP_DATA_CONNECTION_PORT = 10020"

record ftp_server =
  f_users :: users_db
  f_sessions :: "ftp_session list"
  ftp_fs :: fsys
  ftp_accepting :: bool

definition new_ftp_server :: "fsys \<Rightarrow> ftp_server" where
  "new_ftp_server fs = \<lparr>f_users = loadFromFile ''users-db.txt'' (\<lambda>_. None), f_sessions = [],
     ftp_fs = fs, ftp_accepting = True\<rparr>"

text \<open>The handler of \<open>acceptConnections\<close>: the error code and the value of \<open>HOME\<close>.\<close>

definition accept_connection :: "bool \<Rightarrow> string option \<Rightarrow> ftp_server \<Rightarrow> ftp_server" where
  "accept_connection ok home srv =
     (if \<not> ok then srv
      else case home of
             None \<Rightarrow> srv
           | Some homeDir \<Rightarrow> srv\<lparr>f_sessions := f_sessions srv
               @ [ftp_start (new_ftp_session FTP_DATA_CONNECTION_PORT homeDir)]\<rparr>)"

datatype ftp_server_event = New_Connection bool "string option" | Session_Turn nat ftp_env ftp_event

fun ftp_server_step :: "ftp_server_event \<Rightarrow> ftp_server \<Rightarrow> ftp_server resl" where
  "ftp_server_step (New_Connection ok home) srv =
     Inr (if ftp_accepting srv then accept_connection ok home srv else srv)"
| "ftp_server_step (Session_Turn i env e) srv =
     (if i < length (f_sessions srv) \<and> ctrl_open (f_sessions srv ! i)
      then bind_res (ftp_turn (f_users srv) env e (f_sessions srv ! i, ftp_fs srv)) (\<lambda>(s, fs).
             Inr (srv\<lparr>f_sessions := (f_sessions srv)[i := s], ftp_fs := fs\<rparr>))
      else Inr srv)"

fun ftp_server_run :: "ftp_server_event list \<Rightarrow> ftp_server \<Rightarrow> ftp_server resl" where
  "ftp_server_run [] srv = Inr srv"
| "ftp_server_run (e # es) srv = bind_res (ftp_server_step e srv) (ftp_server_run es)"

interpretation ftp_srv: fault_machine ftp_server_step ftp_server_run
  by unfold_locales (auto simp: bind_res_eq_Inr)

interpretation ftp_worker: fault_machine "\<lambda>(env, e). ftp_turn db env e" "worker db" for db
  by unfold_locales (auto simp: bind_res_eq_Inr split: if_splits)

section \<open>What the handlers do to a session\<close>

lemma sendMessage_fields [simp]:
  "f_dataPort (sendMessageToClient m s) = f_dataPort s" "dataSocket (sendMessageToClient m s) = dataSocket s"
  "acceptorOpen (sendMessageToClient m s) = acceptorOpen s" "rootDir (sendMessageToClient m s) = rootDir s"
  "currDir (sendMessageToClient m s) = currDir s" "f_username (sendMessageToClient m s) = f_username s"
  "quitCmdLoop (sendMessageToClient m s) = quitCmdLoop s" "transferType (sendMessageToClient m s) = transferType s"
  "ctrl_open (sendMessageToClient m s) = ctrl_open s" "data_out (sendMessageToClient m s) = data_out s"
  "ctrl_out (sendMessageToClient m s) = ctrl_out s @ [m @ CRLF]" "connected (sendMessageToClient m s) = connected s"
  by (simp_all add: sendMessageToClient_def connected_def)

lemma closeDataConnection_fields [simp]:
  "f_dataPort (closeDataConnection s) = f_dataPort s" "dataSocket (closeDataConnection s) = Ds_Closed"
  "acceptorOpen (closeDataConnection s) = False" "rootDir (closeDataConnection s) = rootDir s"
  "currDir (closeDataConnection s) = currDir s" "f_username (closeDataConnection s) = f_username s"
  "quitCmdLoop (closeDataConnection s) = quitCmdLoop s" "transferType (closeDataConnection s) = transferType s"
  "ctrl_open (closeDataConnection s) = ctrl_open s" "data_out (closeDataConnection s) = data_out s"
  "ctrl_out (closeDataConnection s) = ctrl_out s"
  by (simp_all add: closeDataConnection_def)

lemma say_Inr [simp]: "say m io = Inr (sendMessageToClient m (fst io), snd io)"
  by (simp add: say_def)

text \<open>Sending only adds to what was sent over the data connection.\<close>

definition sent_more :: "ftp_session \<Rightarrow> ftp_session \<Rightarrow> bool" where
  "sent_more s t \<longleftrightarrow> (\<exists>d. t = s\<lparr>data_out := data_out s @ d\<rparr>)"

lemma sent_more_refl [intro]: "sent_more s s"
  unfolding sent_more_def by (intro exI [of _ "[]"]) simp

lemma sent_more_trans: "sent_more s t \<Longrightarrow> sent_more t u \<Longrightarrow> sent_more s u"
  by (auto simp: sent_more_def)

lemma sent_more_fields:
  assumes "sent_more s t"
  shows "f_dataPort t = f_dataPort s" "dataSocket t = dataSocket s" "acceptorOpen t = acceptorOpen s"
    "rootDir t = rootDir s" "currDir t = currDir s" "f_username t = f_username s" "quitCmdLoop t = quitCmdLoop s"
    "transferType t = transferType s" "ctrl_open t = ctrl_open s" "ctrl_out t = ctrl_out s"
  using assms by (auto simp: sent_more_def)

lemma sendData_only: "sent_more s (snd (sendDataToClient env k d s))"
  by (auto simp: sendDataToClient_def) (auto simp: sent_more_def)

lemma send_blocks_only: "sent_more s (snd (send_blocks env k rest s))"
proof (induction env k rest s rule: send_blocks.induct)
  case (1 env k rest s)
  let ?n = "min 1024 (min (e_in_avail env (length rest)) (length rest))"
  obtain ok s1 where sd: "sendDataToClient env k (take ?n rest) s = (ok, s1)" by fastforce
  have s1: "sent_more s s1" using sendData_only [of s env k "take ?n rest"] sd by simp
  have eq: "send_blocks env k rest s = (if ?n = 0 then (True, s) else if \<not> ok then (False, s1)
      else send_blocks env (k + 1) (drop ?n rest) s1)"
    by (simp only: send_blocks.simps [of env k rest s] Let_def sd prod.case)
  consider "?n = 0" | "?n \<noteq> 0" "\<not> ok" | "?n \<noteq> 0" "ok" by blast
  then show ?case
  proof cases
    case 3
    then have e: "send_blocks env k rest s = send_blocks env (k + 1) (drop ?n rest) s1"
      unfolding eq by (simp only: if_False not_True_eq_False)
    have "\<not> \<not> ok" using 3 by simp
    from sent_more_trans [OF s1 "1.IH" [OF refl 3(1) sd [symmetric] this]] show ?thesis unfolding e .
  qed (use s1 in \<open>auto simp: eq\<close>)
qed

lemma send_lines_only: "sent_more s (snd (send_lines env k ls s))"
proof (induction ls arbitrary: k s)
  case (Cons l ls)
  obtain ok s1 where sd: "sendDataToClient env k (to_bytes (l @ CRLF)) s = (ok, s1)" by fastforce
  have "sent_more s s1" using sendData_only [of s env k "to_bytes (l @ CRLF)"] sd by simp
  then show ?case using sd sent_more_trans [OF _ Cons.IH [of s1 "k + 1"]] by (auto simp del: to_bytes_append)
qed auto

lemma send_listing_only: "sent_more s (send_listing env k ls s)"
proof (induction ls arbitrary: k s)
  case (Cons l ls)
  have "sent_more s (sendAsciiDataToClient env k l s)"
    using sendData_only by (simp add: sendAsciiDataToClient_def)
  from sent_more_trans [OF this Cons.IH [of "sendAsciiDataToClient env k l s" "k + 1"]] show ?case by simp
qed auto

section \<open>What a command leaves alone\<close>

definition same_user :: "ftp_session \<Rightarrow> ftp_io \<Rightarrow> bool" where
  "same_user s io \<longleftrightarrow> f_username (fst io) = f_username s \<and> rootDir (fst io) = rootDir s
     \<and> f_dataPort (fst io) = f_dataPort s \<and> ctrl_open (fst io) = ctrl_open s"

lemma same_user_simps [simp]:
  "same_user s (sendMessageToClient m t, fs) = same_user s (t, fs)"
  "same_user s (closeDataConnection t, fs) = same_user s (t, fs)"
  "same_user s (t\<lparr>currDir := d\<rparr>, fs) = same_user s (t, fs)"
  "same_user s (t\<lparr>transferType := ty\<rparr>, fs) = same_user s (t, fs)"
  "same_user s (t\<lparr>quitCmdLoop := b\<rparr>, fs) = same_user s (t, fs)"
  "same_user s (t\<lparr>dataSocket := ds\<rparr>, fs) = same_user s (t, fs)"
  "same_user s (t\<lparr>acceptorOpen := b\<rparr>, fs) = same_user s (t, fs)"
  "same_user s (s, fs)"
  by (simp_all add: same_user_def)

lemma same_user_sent_more: "sent_more t u \<Longrightarrow> same_user s (u, fs) = same_user s (t, fs)"
  by (auto simp: sent_more_def same_user_def)

lemma openDataConnectionPassive_same_user:
  "same_user s (snd (openDataConnectionPassive env port t), fs) = same_user s (t, fs)"
  by (simp add: openDataConnectionPassive_def Let_def)

lemma handleNlst_same_user: "holds (same_user s) (handleNlst env args (s, fs))"
  using send_listing_only same_user_sent_more
  by (auto simp: handleNlst_def split: sum.split) fastforce

lemma handleRetr_same_user: "holds (same_user s) (handleRetr env args (s, fs))"
proof -
  have b: "same_user s (snd (send_blocks env 0 d t), fs) = same_user s (t, fs)"
    "same_user s (snd (send_lines env 0 ls t), fs) = same_user s (t, fs)" for d ls t
    using same_user_sent_more send_blocks_only send_lines_only by blast+
  show ?thesis using b by (auto simp: handleRetr_def exists_or_throw_def Let_def case_prod_unfold)
qed

lemma handlePort_same_user: "holds (same_user s) (handlePort env args (s, fs))"
  unfolding handlePort_def prod.case
  by (auto simp: openDataConnectionActive_def split: if_splits)

definition command_results :: "users_db \<Rightarrow> ftp_env \<Rightarrow> ftp_io \<Rightarrow> string \<Rightarrow> ftp_io resl set" where
  "command_results db env io args =
     {handleUser db args io, handlePass db args io, handleCwd args io, handleDele env args io, handleEpsv env io,
      handleFeat io, handleNlst env args io, handleMkd env args io, handlePasv env io, handlePwd io, handleQuit io,
      handleRetr env args io, handleRmd env args io, handleSyst io, handleStor env args io, handleType args io,
      say ''500 Unknown command'' io, Inl Bad_Character}"

definition is_port_command :: "string \<Rightarrow> bool" where
  "is_port_command cmd \<longleftrightarrow> map toupper (takeWhile (\<lambda>c. c \<noteq> CHR '' '') cmd) \<in> {''PORT'', ''EPRT''}"

lemma executeCommand_dispatch:
  "executeCommand db env cmd io \<in> \<Union> (range (command_results db env io))
   \<or> is_port_command cmd \<and> (\<exists>args. executeCommand db env cmd io = handlePort env args io)"
proof -
  let ?S = "\<Union> (range (command_results db env io))"
  have if_in: "(if c then x else y) \<in> S" if "x \<in> S" "y \<in> S" for c and x y :: "ftp_io resl" and S using that by simp
  have sub: "command_results db env io a \<subseteq> ?S" for a by blast
  have mem:
    "handleUser db a io \<in> ?S" "handlePass db a io \<in> ?S" "handleCwd a io \<in> ?S" "handleDele env a io \<in> ?S"
    "handleEpsv env io \<in> ?S" "handleFeat io \<in> ?S" "handleNlst env a io \<in> ?S" "handleMkd env a io \<in> ?S"
    "handlePasv env io \<in> ?S" "handlePwd io \<in> ?S" "handleQuit io \<in> ?S" "handleRetr env a io \<in> ?S"
    "handleRmd env a io \<in> ?S" "handleSyst io \<in> ?S" "handleStor env a io \<in> ?S" "handleType a io \<in> ?S"
    "say ''500 Unknown command'' io \<in> ?S" "Inl Bad_Character \<in> ?S" for a
    by (rule subsetD [OF sub [of a]], simp only: command_results_def insert_iff simp_thms)+
  let ?word = "takeWhile (\<lambda>c. c \<noteq> CHR '' '') cmd"
  obtain args where split: "(case find_char (CHR '' '') cmd of
      Some p \<Rightarrow> (take p cmd, drop (p + 1) cmd) | None \<Rightarrow> (cmd, [])) = (?word, args)"
  proof (cases "CHR '' '' \<in> set cmd")
    case True
    then show ?thesis using that [of "drop (length ?word + 1) cmd"]
      by (simp add: find_char_def flip: takeWhile_eq_take)
  next
    case False
    then have w: "?word = cmd" by (auto simp: takeWhile_eq_all_conv)
    show ?thesis using False by (intro that [of "[]"]) (simp add: w)
  qed
  show ?thesis
  proof (cases "\<forall>c \<in> set ?word. toupper_ok c")
    case False
    then have "executeCommand db env cmd io = Inl Bad_Character"
      unfolding executeCommand_def Let_def split prod.case by (simp only: uppercase_eq if_False bind_res_Inl)
    then show ?thesis using mem(18) by simp
  next
    case True
    then have up: "uppercase ?word = Inr (map toupper ?word)" unfolding uppercase_eq by (rule if_P)
    note run = executeCommand_def [of db env cmd io, unfolded Let_def split prod.case up bind_res_Inr]
    consider "map toupper ?word = ''PORT''" | "map toupper ?word = ''EPRT''"
      | "map toupper ?word \<noteq> ''PORT''" "map toupper ?word \<noteq> ''EPRT''" by blast
    then show ?thesis
    proof cases
      case 3
      then show ?thesis unfolding run by (intro disjI1) (simp only: if_False, (rule if_in mem)+)
    qed (auto simp: run is_port_command_def)
  qed
qed

lemma executeCommand_same_user:
  "holds (\<lambda>io'. same_user s io' \<or> (\<exists>args. f_username (fst io') = args \<and> usernameIsKnown db args
      \<and> ctrl_open (fst io') = ctrl_open s)) (executeCommand db env cmd (s, fs))"
proof -
  have u: "holds (\<lambda>io'. same_user s io' \<or> (\<exists>args. f_username (fst io') = args \<and> usernameIsKnown db args
      \<and> ctrl_open (fst io') = ctrl_open s)) (handleUser db args (s, fs))" for args
    by (auto simp: handleUser_def)
  have "holds (same_user s) x"
    if "x \<in> {handlePort env args (s, fs), handlePass db args (s, fs), handleCwd args (s, fs), handleDele env args (s, fs),
      handleEpsv env (s, fs), handleFeat (s, fs), handleNlst env args (s, fs), handleMkd env args (s, fs),
      handlePasv env (s, fs), handlePwd (s, fs), handleQuit (s, fs), handleRetr env args (s, fs), handleRmd env args (s, fs),
      handleSyst (s, fs), handleStor env args (s, fs), handleType args (s, fs), say ''500 Unknown command'' (s, fs), Inl Bad_Character}" for x args
    using that handleNlst_same_user handleRetr_same_user handlePort_same_user openDataConnectionPassive_same_user
    by (elim insertE)
      (auto simp: handlePass_def handleCwd_def handleDele_def handleEpsv_def handleFeat_def handleMkd_def handlePasv_def
        handlePwd_def handleQuit_def handleRmd_def handleSyst_def handleStor_def handleType_def Let_def case_prod_unfold
        exists_or_throw_def)
  with u executeCommand_dispatch [of db env cmd "(s, fs)"] show ?thesis
    unfolding command_results_def by (fastforce simp: holds_def)
qed

section \<open>Invariant\<close>

text \<open>The user a session names is one of the database, so the password check never throws.\<close>

definition known_user :: "users_db \<Rightarrow> ftp_session \<Rightarrow> bool" where
  "known_user db s \<longleftrightarrow> f_username s = [] \<or> usernameIsKnown db (f_username s)"

lemma ftp_turn_known_user:
  "known_user db s \<Longrightarrow> holds (\<lambda>io'. known_user db (fst io')) (ftp_turn db env e (s, fs))"
  using executeCommand_same_user [of s db env "case e of Received_Text t \<Rightarrow> first_line t | _ \<Rightarrow> []" fs]
  by (auto simp: ftp_turn_def known_user_def same_user_def holds_def split: ftp_event.splits sum.splits fault.splits if_splits)

definition ftp_inv :: "ftp_server \<Rightarrow> bool" where
  "ftp_inv srv \<longleftrightarrow> (\<forall>s \<in> set (f_sessions srv). known_user (f_users srv) s)"

lemma new_session_known [simp]: "known_user db (ftp_start (new_ftp_session port home))"
  by (simp add: known_user_def ftp_start_def new_ftp_session_def)

lemma ftp_server_step_inv: "ftp_inv srv \<Longrightarrow> holds ftp_inv (ftp_server_step e srv)"
proof (cases e)
  case (New_Connection ok home)
  assume "ftp_inv srv"
  then show ?thesis unfolding New_Connection
    by (auto simp: accept_connection_def ftp_inv_def split: option.split)
next
  case (Session_Turn i env e)
  assume inv: "ftp_inv srv"
  show ?thesis
  proof (cases "i < length (f_sessions srv) \<and> ctrl_open (f_sessions srv ! i)")
    case True
    have "known_user (f_users srv) (f_sessions srv ! i)" using inv True by (simp add: ftp_inv_def)
    from ftp_turn_known_user [OF this, of env e "ftp_fs srv"] show ?thesis
      using True inv set_update_subset_insert [of "f_sessions srv" i]
      by (fastforce simp: Session_Turn ftp_inv_def holds_def bind_res_eq_Inr)
  next
    case False
    then show ?thesis using inv unfolding Session_Turn ftp_server_step.simps if_not_P [OF False] by simp
  qed
qed

lemma ftp_server_run_inv: "ftp_inv srv \<Longrightarrow> holds ftp_inv (ftp_server_run es srv)"
  by (rule ftp_srv.frun_holds) (auto intro: ftp_server_step_inv)

section \<open>Commands by name\<close>

lemma executeCommand_word:
  assumes "CHR '' '' \<notin> set w"
  shows "map toupper w = ''RETR'' \<Longrightarrow> executeCommand db env (w @ '' '' @ args) io = handleRetr env args io"
    "map toupper w = ''STOR'' \<Longrightarrow> executeCommand db env (w @ '' '' @ args) io = handleStor env args io"
    "map toupper w = ''CWD'' \<Longrightarrow> executeCommand db env (w @ '' '' @ args) io = handleCwd args io"
    "map toupper w = ''PASS'' \<Longrightarrow> executeCommand db env (w @ '' '' @ args) io = handlePass db args io"
    "map toupper w = ''USER'' \<Longrightarrow> executeCommand db env (w @ '' '' @ args) io = handleUser db args io"
    "map toupper w = ''EPRT'' \<Longrightarrow> executeCommand db env (w @ '' '' @ args) io = handlePort env args io"
    "map toupper w = ''PORT'' \<Longrightarrow> executeCommand db env (w @ '' '' @ args) io = handlePort env (strip_brackets args) io"
    "map toupper w = ''NLST'' \<Longrightarrow> executeCommand db env (w @ '' '' @ args) io = handleNlst env args io"
    "map toupper w = ''PASV'' \<Longrightarrow> executeCommand db env w io = handlePasv env io"
    "map toupper w = ''EPSV'' \<Longrightarrow> executeCommand db env w io = handleEpsv env io"
  using assms by (simp_all add: executeCommand_def parseExtendedArguments_def uppercase_ascii)

section \<open>Transfers\<close>

lemma record_append:
  "s\<lparr>data_out := data_out s @ take n d\<rparr>\<lparr>data_out := data_out (s\<lparr>data_out := data_out s @ take n d\<rparr>) @ drop n d\<rparr>
     = s\<lparr>data_out := data_out s @ d\<rparr>"
  by simp

lemma send_blocks_all:
  assumes "connected s" "\<forall>k. e_write_ok env k" "\<forall>n > 0. 0 < e_in_avail env n"
  shows "send_blocks env k rest s = (True, s\<lparr>data_out := data_out s @ rest\<rparr>)"
  using assms
proof (induction env k rest s rule: send_blocks.induct)
  case (1 env k rest s)
  let ?n = "min 1024 (min (e_in_avail env (length rest)) (length rest))"
  show ?case
  proof (cases "rest = []")
    case True
    then show ?thesis by (subst send_blocks.simps) simp
  next
    case False
    then have n: "?n \<noteq> 0" using "1.prems"(3) by simp
    let ?s = "s\<lparr>data_out := data_out s @ take ?n rest\<rparr>"
    have sd: "sendDataToClient env k (take ?n rest) s = (True, ?s)"
      using "1.prems" by (simp add: sendDataToClient_def)
    have "\<not> \<not> True" "connected ?s" using "1.prems" by (simp_all add: connected_def)
    note ih = "1.IH" [OF refl n sd [symmetric] this(1) this(2) "1.prems"(2,3)]
    have "send_blocks env k rest s = send_blocks env (k + 1) (drop ?n rest) ?s"
      by (simp only: send_blocks.simps [of env k rest s] Let_def sd prod.case if_not_P [OF n] not_True_eq_False if_False)
    also have "\<dots> = (True, s\<lparr>data_out := data_out s @ rest\<rparr>)" unfolding ih by (simp only: record_append)
    finally show ?thesis .
  qed
qed

lemma send_lines_all:
  assumes "connected s" "\<forall>k. e_write_ok env k"
  shows "send_lines env k ls s = (True, s\<lparr>data_out := data_out s @ to_bytes (concat (map (\<lambda>l. l @ CRLF) ls))\<rparr>)"
  using assms(1)
proof (induction ls arbitrary: k s)
  case (Cons l ls)
  let ?s = "s\<lparr>data_out := data_out s @ to_bytes (l @ CRLF)\<rparr>"
  have "connected ?s" using Cons.prems by (simp add: connected_def)
  from Cons.IH [OF this] show ?case using Cons.prems assms(2) by (simp add: sendDataToClient_def to_bytes_def)
qed simp

text \<open>The blocks taken: all full ones up to the first that is not, and that one.\<close>

definition taken_blocks :: "bytes list \<Rightarrow> bytes list" where
  "taken_blocks bs = takeWhile (\<lambda>b. length b = 512) bs @ take 1 (dropWhile (\<lambda>b. length b = 512) bs)"

lemma receive_blocks_taken:
  "fs_files fs p = Some old \<Longrightarrow> \<forall>b \<in> set bs. length b \<le> 512 \<Longrightarrow>
     receive_blocks f bs (\<lparr>of_path = Some p, of_bad = False\<rparr>, fs)
       = (\<not> (\<forall>b \<in> set bs. length b = 512), \<lparr>of_path = Some p, of_bad = False\<rparr>,
          set_file p (old @ concat (map f (taken_blocks bs))) fs)"
proof (induction bs arbitrary: fs old)
  case Nil
  then show ?case by (cases fs) (auto simp: taken_blocks_def set_file_def)
next
  case (Cons b bs)
  let ?fs = "set_file p (old @ f b) fs"
  have "set_file p d (set_file p d' fs) = set_file p d fs" for d d' by (simp add: set_file_def)
  moreover have "fs_files ?fs p = Some (old @ f b)" by simp
  ultimately show ?case
    using Cons.prems Cons.IH [of ?fs "old @ f b"]
    by (auto simp: of_write_open [OF Cons.prems(1)] taken_blocks_def)
qed

section \<open>A failed passive mode\<close>

text \<open>No data socket, but an acceptor left open by an attempt that failed after opening it.\<close>

definition wedged :: "ftp_session \<Rightarrow> bool" where
  "wedged s \<longleftrightarrow> dataSocket s = Ds_Closed \<and> acceptorOpen s"

lemma wedged_simps [simp]:
  "wedged (sendMessageToClient m s) = wedged s" "wedged (s\<lparr>currDir := d\<rparr>) = wedged s"
  "wedged (s\<lparr>transferType := ty\<rparr>) = wedged s" "wedged (s\<lparr>quitCmdLoop := b\<rparr>) = wedged s"
  "wedged (s\<lparr>f_username := u\<rparr>) = wedged s" "wedged (s\<lparr>ctrl_open := b\<rparr>) = wedged s"
  by (simp_all add: wedged_def)

lemma wedged_passive: "wedged s \<Longrightarrow> openDataConnectionPassive env port s = (False, s)"
  by (simp add: wedged_def openDataConnectionPassive_def)

lemma wedged_command:
  assumes "wedged s" "\<not> is_port_command cmd"
  shows "holds (\<lambda>io'. wedged (fst io') \<and> data_out (fst io') = data_out s) (executeCommand db env cmd (s, fs))"
proof -
  have "dataSocket s = Ds_Closed" using assms(1) by (simp add: wedged_def)
  then have "holds (\<lambda>io'. wedged (fst io') \<and> data_out (fst io') = data_out s) x"
    if "x \<in> command_results db env (s, fs) args" for x args
    using that assms(1) unfolding command_results_def
    by (elim insertE)
      (auto simp: handleUser_def handlePass_def handleCwd_def handleDele_def handleEpsv_def handleFeat_def handleMkd_def
        handleNlst_def handlePasv_def handlePwd_def handleQuit_def handleRetr_def handleRmd_def handleSyst_def
        handleStor_def handleType_def Let_def exists_or_throw_def wedged_passive)
  then show ?thesis using executeCommand_dispatch [of db env cmd "(s, fs)"] assms(2) by blast
qed

end
