(* ===== verification/FTP_Properties.thy ===== *)
theory FTP_Properties
  imports FTP_Server
begin

text \<open>
  The properties of the FTP server: the two transfers, the data connection, login, and the
  commands that lead out of the root directory, out of bounds, or nowhere.
\<close>

section \<open>A sample environment\<close>

definition good_env :: "bytes list \<Rightarrow> ftp_env" where
  "good_env bs = \<lparr>e_address_ok = (\<lambda>_. True), e_socket_ok = True, e_connect_ok = (\<lambda>_ _. True), e_acc_open = True,
     e_acc_reuse = True, e_acc_bind = True, e_acc_listen = True, e_acc_accept = True, e_write_ok = (\<lambda>_. True),
     e_reads = bs, e_in_avail = (\<lambda>n. n), e_readable = (\<lambda>_. True), e_listing = (\<lambda>_. Some []),
     e_mkdir_ok = (\<lambda>_. True), e_remove_ok = (\<lambda>_. True), e_left_first = True\<rparr>"

definition ftp_fs0 :: "(string \<Rightarrow> bytes option) \<Rightarrow> fsys" where
  "ftp_fs0 files = \<lparr>fs_files = files, fs_dirs = (\<lambda>p. p \<in> {''/'', ''/home'', ''/home/u''}),
     fs_creatable = (\<lambda>_. True), fs_denied = (\<lambda>_. False)\<rparr>"

definition ftp_s0 :: ftp_session where
  "ftp_s0 = (new_ftp_session 10020 ''/home/u'')\<lparr>dataSocket := Ds_Connected (Accepted_On 10020), acceptorOpen := True\<rparr>"

lemma ftp_sample_simps [simp]:
  "connected ftp_s0" "currDir ftp_s0 = ''/home/u''" "transferType ftp_s0 = Transfer_Binary" "data_out ftp_s0 = []"
  "fs_files (ftp_fs0 files) = files" "\<not> fs_denied (ftp_fs0 files) p" "fs_creatable (ftp_fs0 files) p"
  "fs_dirs (ftp_fs0 files) p \<longleftrightarrow> p \<in> {''/'', ''/home'', ''/home/u''}"
  "e_write_ok (good_env bs) k" "e_in_avail (good_env bs) n = n" "e_readable (good_env bs) p" "e_reads (good_env bs) = bs"
  "f_username ftp_s0 = []" "ctrl_out ftp_s0 = []" "e_address_ok (good_env bs) h" "e_connect_ok (good_env bs) h q"
  "e_socket_ok (good_env bs)"
  by (simp_all add: ftp_s0_def new_ftp_session_def connected_def ftp_fs0_def good_env_def)

section \<open>Transfers\<close>

definition sent_form :: "TransferType \<Rightarrow> bytes \<Rightarrow> bytes" where
  "sent_form ty d = (if ty = Transfer_Binary then d
     else to_bytes (concat (map (\<lambda>l. l @ CRLF) (getline_split (CHR 0x0A) (of_bytes d)))))"

definition stored_form :: "TransferType \<Rightarrow> bytes \<Rightarrow> bytes" where
  "stored_form ty d = (if ty = Transfer_Binary then d else drop_cr d)"

definition reply_codes :: "ftp_session \<Rightarrow> string list" where
  "reply_codes s = map (take 3) (ctrl_out s)"

lemma reply_codes_simps [simp]:
  "reply_codes (sendMessageToClient m s) = reply_codes s @ [take 3 (m @ CRLF)]"
  "reply_codes (closeDataConnection s) = reply_codes s" "reply_codes (s\<lparr>data_out := d\<rparr>) = reply_codes s"
  "reply_codes (s\<lparr>currDir := dir\<rparr>) = reply_codes s" "reply_codes (s\<lparr>f_username := u\<rparr>) = reply_codes s"
  "reply_codes (s\<lparr>dataSocket := ds\<rparr>) = reply_codes s" "reply_codes (s\<lparr>acceptorOpen := b\<rparr>) = reply_codes s"
  "reply_codes ftp_s0 = []"
  by (simp_all add: reply_codes_def closeDataConnection_def)

text \<open>A transfer leaves the command loop as it is, and no acceptor open.\<close>

definition same_loop :: "ftp_session \<Rightarrow> ftp_session \<Rightarrow> bool" where
  "same_loop s s' \<longleftrightarrow> currDir s' = currDir s \<and> transferType s' = transferType s \<and> ctrl_open s' = ctrl_open s \<and> quitCmdLoop s' = quitCmdLoop s \<and> \<not> acceptorOpen s'"

lemma retrieve:
  assumes "connected s" "\<not> fs_denied fs p" "fs_files fs p = Some d" "p = path_append (currDir s) name"
    and "e_readable env p" "\<forall>k. e_write_ok env k" "\<forall>n > 0. 0 < e_in_avail env n"
  shows "\<exists>s'. handleRetr env name (s, fs) = Inr (s', fs) \<and> data_out s' = data_out s @ sent_form (transferType s) d
    \<and> reply_codes s' = reply_codes s @ [''150'', ''226''] \<and> dataSocket s' = Ds_Closed \<and> same_loop s s'"
proof -
  have open_ds: "dataSocket s \<noteq> Ds_Closed" and ex: "exists_or_throw fs p = Inr True" and c: "file_content env fs p = d"
    using assms(1,2,3,5) by (auto simp: connected_def file_content_def exists_or_throw_def fs_exists_def)
  have conn: "connected (sendMessageToClient m s)" for m using assms(1) by simp
  note all = send_blocks_all [OF conn assms(6,7)] send_lines_all [OF conn assms(6)]
  show ?thesis
    unfolding handleRetr_def prod.case Let_def assms(4) [symmetric] if_not_P [OF open_ds] ex bind_res_Inr c all
    by (cases "transferType s") (simp_all add: sent_form_def same_loop_def)
qed

text \<open>C18: RETR sends the whole file, whoever asks: over a connected data socket whose writes succeed, and where
  \<open>in_avail\<close> reports something as long as something is left, the bytes sent are the file in binary mode
  and its lines with CRLF in ASCII mode; the replies are a 150 and a 226 and the connection is closed. The
  user database and the user name of the session do not matter.\<close>
theorem retrieve_sends_file:
  assumes "connected s" "\<not> fs_denied fs p" "fs_files fs p = Some d" "p = path_append (currDir s) name"
    and "e_readable env p" "\<forall>k. e_write_ok env k" "\<forall>n > 0. 0 < e_in_avail env n"
    and "map toupper w = ''RETR''" "CHR '' '' \<notin> set w"
  shows "\<exists>s'. executeCommand db env (w @ '' '' @ name) (s, fs) = Inr (s', fs)
    \<and> data_out s' = data_out s @ sent_form (transferType s) d
    \<and> reply_codes s' = reply_codes s @ [''150'', ''226''] \<and> dataSocket s' = Ds_Closed"
  using retrieve [OF assms(1-7)] unfolding executeCommand_word(1) [OF assms(9,8)] by blast

theorem retrieve_sends_file_witness:
  "\<exists>s'. executeCommand (\<lambda>_. None) (good_env []) (''Retr'' @ '' '' @ ''a.txt'') (ftp_s0, ftp_fs0 [''/home/u/a.txt'' \<mapsto> [1, 2, 3]])
      = Inr (s', ftp_fs0 [''/home/u/a.txt'' \<mapsto> [1, 2, 3]]) \<and> data_out s' = [1, 2, 3]"
proof -
  let ?fs = "ftp_fs0 [''/home/u/a.txt'' \<mapsto> [1, 2, 3]]"
  have w: "map toupper ''Retr'' = ''RETR''" by (simp add: toupper_def char_of_def bit_simps)
  have pre: "\<not> fs_denied ?fs ''/home/u/a.txt''" "fs_files ?fs ''/home/u/a.txt'' = Some [1, 2, 3]"
    "''/home/u/a.txt'' = path_append (currDir ftp_s0) ''a.txt''" "e_readable (good_env []) ''/home/u/a.txt''"
    "\<forall>k. e_write_ok (good_env []) k" "\<forall>n > 0. 0 < e_in_avail (good_env []) n" "CHR '' '' \<notin> set ''Retr''"
    by simp_all
  obtain s' where "executeCommand (\<lambda>_. None) (good_env []) (''Retr'' @ '' '' @ ''a.txt'') (ftp_s0, ?fs) = Inr (s', ?fs)"
    "data_out s' = data_out ftp_s0 @ sent_form (transferType ftp_s0) [1, 2, 3]"
    using retrieve_sends_file [OF ftp_sample_simps(1) pre(1-6) w pre(7)] by blast
  then show ?thesis by (intro exI [of _ s']) (simp add: sent_form_def)
qed

lemma store:
  assumes "connected s" "p = path_append (currDir s) name" "fs_creatable fs p" "\<not> fs_is_directory fs p"
    and "\<forall>b \<in> set (e_reads env). length b \<le> 512"
  shows "\<exists>s'. handleStor env name (s, fs)
      = Inr (s', set_file p (concat (map (stored_form (transferType s)) (taken_blocks (e_reads env)))) fs)
    \<and> reply_codes s' = reply_codes s @ [''150'',
        (if \<exists>b \<in> set (e_reads env). length b < 512 then ''226'' else ''446'')] \<and> dataSocket s' = Ds_Closed
    \<and> currDir s' = currDir s \<and> transferType s' = transferType s \<and> data_out s' = data_out s \<and> same_loop s s'"
proof -
  let ?f = "if transferType s = Transfer_Binary then (\<lambda>b. b) else drop_cr"
  have f: "?f = stored_form (transferType s)" by (auto simp: stored_form_def fun_eq_iff)
  have full: "(\<not> (\<forall>b \<in> set (e_reads env). length b = 512)) = (\<exists>b \<in> set (e_reads env). length b < 512)"
    using assms(5) by (metis le_neq_implies_less less_irrefl)
  have op: "of_open p (of_closed, fs) = (\<lparr>of_path = Some p, of_bad = False\<rparr>, set_file p [] fs)"
    using assms(3,4) by (simp add: of_open_def of_closed_def)
  have twice: "set_file p d (set_file p [] fs) = set_file p d fs" for d by (simp add: set_file_def)
  have r: "receive_blocks (stored_form (transferType s)) (e_reads env) (\<lparr>of_path = Some p, of_bad = False\<rparr>, set_file p [] fs)
      = (\<exists>b \<in> set (e_reads env). length b < 512, \<lparr>of_path = Some p, of_bad = False\<rparr>,
         set_file p (concat (map (stored_form (transferType s)) (taken_blocks (e_reads env)))) fs)"
    using receive_blocks_taken [OF _ assms(5), of "set_file p [] fs" p "[]"] full twice by simp
  have open_ds: "dataSocket s \<noteq> Ds_Closed" using assms(1) by (auto simp: connected_def)
  have conn: "connected (sendMessageToClient m s) = True" for m using assms(1) by simp
  show ?thesis
    unfolding handleStor_def prod.case assms(2) [symmetric] Let_def if_not_P [OF open_ds] f op conn if_True r
    by (simp add: same_loop_def)
qed

text \<open>C19: STOR stores what it takes: the file becomes the concatenation of the blocks up to the first that is not
  full (in ASCII mode without carriage returns), and the reply is 226 exactly if there was such a block,
  446 otherwise - so an upload whose length is a multiple of 512 is reported as failed although it is
  complete, and one whose data arrives in smaller pieces is cut off and reported as successful.\<close>
theorem store_takes_blocks:
  assumes "connected s" "p = path_append (currDir s) name" "fs_creatable fs p" "\<not> fs_is_directory fs p"
    and "\<forall>b \<in> set (e_reads env). length b \<le> 512" "map toupper w = ''STOR''" "CHR '' '' \<notin> set w"
  shows "\<exists>s'. executeCommand db env (w @ '' '' @ name) (s, fs)
      = Inr (s', set_file p (concat (map (stored_form (transferType s)) (taken_blocks (e_reads env)))) fs)
    \<and> reply_codes s' = reply_codes s @ [''150'',
        (if \<exists>b \<in> set (e_reads env). length b < 512 then ''226'' else ''446'')] \<and> dataSocket s' = Ds_Closed"
  using store [OF assms(1-5)] unfolding executeCommand_word(2) [OF assms(7,6)] by blast

theorem store_takes_blocks_witness:
  "\<exists>s'. executeCommand (\<lambda>_. None) (good_env [replicate 512 7]) (''STOR'' @ '' '' @ ''b'') (ftp_s0, ftp_fs0 (\<lambda>_. None))
      = Inr (s', set_file ''/home/u/b'' (replicate 512 7) (ftp_fs0 (\<lambda>_. None)))
    \<and> reply_codes s' = [''150'', ''446'']"
proof -
  have "map toupper ''STOR'' = ''STOR''" by (simp add: toupper_def)
  then show ?thesis
    using store_takes_blocks [of ftp_s0 "''/home/u/b''" "''b''" "ftp_fs0 (\<lambda>_. None)" "good_env [replicate 512 7]" "''STOR''" "\<lambda>_. None"]
    by (auto simp: taken_blocks_def stored_form_def fs_is_directory_def)
qed

section \<open>The data connection\<close>

lemma pasv_reply_text:
  "pasv_reply port = ''227 Entering Passive Mode (127,0,0,1,'' @ dec_of_nat (unat (port div 256)) @ '',''
     @ dec_of_nat (unat (port mod 256)) @ '').''"
proof -
  have "getline_split (CHR ''.'') (''127'' @ CHR ''.'' # ''0'' @ CHR ''.'' # ''0'' @ CHR ''.'' # ''1'') = [''127'', ''0'', ''0'', ''1'']"
    by (subst getline_split_step, simp)+ (subst getline_split_one, simp_all)
  then show ?thesis by (simp add: pasv_reply_def)
qed

lemma dec_no_char: "digit_val c = None \<Longrightarrow> c \<notin> set (dec_of_nat n)"
  using dec_of_nat_digits by blast

lemma pasv_bytes:
  fixes port :: u16
  shows "unat (port div 256) < 256" "unat (port mod 256) < 256"
    "word_of_int (int (unat (port div 256)) * 256 + int (unat (port mod 256))) = port"
proof -
  have p: "unat port < 65536" using unsigned_less [of port] by simp
  have d: "unat (port div 256) = unat port div 256" "unat (port mod 256) = unat port mod 256"
    by (simp_all add: unat_div unat_mod)
  show "unat (port div 256) < 256" "unat (port mod 256) < 256" using p d by (simp_all add: less_mult_imp_div_less)
  have "unat (port div 256) * 256 + unat (port mod 256) = unat port" unfolding d by (rule div_mult_mod_eq)
  then have "int (unat (port div 256)) * 256 + int (unat (port mod 256)) = int (unat port)"
    by (metis of_nat_add of_nat_mult of_nat_numeral)
  then show "word_of_int (int (unat (port div 256)) * 256 + int (unat (port mod 256))) = port" by simp
qed

lemma pasv_ints:
  assumes "a < 256" "b < 256"
  shows "in_int (int a * 256)" "in_int (int a * 256 + int b)" "int a \<le> INT_MAX" "int b \<le> INT_MAX"
  using assms by (simp_all add: in_int_def INT_MAX_def)

lemma pasv_argument: "port_args lf (strip_brackets (pasv_reply port)) = Inr (''127.0.0.1'', port)"
proof -
  let ?a = "dec_of_nat (unat (port div 256))" and ?b = "dec_of_nat (unat (port mod 256))"
  have no: "CHR ''('' \<notin> set (dec_of_nat n)" "CHR '')'' \<notin> set (dec_of_nat n)" "CHR '','' \<notin> set (dec_of_nat n)" for n
    by (rule dec_no_char, simp add: digit_val_def)+
  have "find_char (CHR ''('') (''227 Entering Passive Mode '' @ CHR ''('' # rest) = Some (length ''227 Entering Passive Mode '')" for rest
    by (rule find_char_append) simp
  then have s1: "strip_brackets (pasv_reply port) = (let args = ''127,0,0,1,'' @ ?a @ '','' @ ?b @ '').'' in
      case find_char (CHR '')'') args of None \<Rightarrow> args | Some p \<Rightarrow> take p args)"
    by (simp add: strip_brackets_def pasv_reply_text)
  have "find_char (CHR '')'') ((''127,0,0,1,'' @ ?a @ '','' @ ?b) @ CHR '')'' # ''.'') = Some (length (''127,0,0,1,'' @ ?a @ '','' @ ?b))"
    by (rule find_char_append) (simp add: no)
  then have s2: "strip_brackets (pasv_reply port) = ''127,0,0,1,'' @ ?a @ '','' @ ?b"
    unfolding s1 by simp
  have "getline_split (CHR '','') (''127'' @ CHR '','' # ''0'' @ CHR '','' # ''0'' @ CHR '','' # ''1'' @ CHR '','' # ?a @ CHR '','' # ?b)
      = [''127'', ''0'', ''0'', ''1'', ?a, ?b]"
    using no by (subst getline_split_step, simp)+ (subst getline_split_one, simp_all)
  then have sp: "getline_split (CHR '','') (''127,0,0,1,'' @ ?a @ '','' @ ?b) = [''127'', ''0'', ''0'', ''1'', ?a, ?b]" by simp
  note ints = pasv_ints [OF pasv_bytes(1,2) [of port]]
  show ?thesis
    unfolding s2 port_args_def sp Let_def both_operands_def port_high_def port_low_def
    using ints stoi_dec [OF ints(3)] stoi_dec [OF ints(4)] pasv_bytes(3) [of port] by (simp del: of_nat_unat)
qed

text \<open>The address in the reply to PASV is the address PORT understands: a client that hands the reply's text on to
  another session of this server, as a PORT command, names the passive port of the first on the local host.\<close>
theorem pasv_reply_is_port_argument:
  "port_args lf (strip_brackets (pasv_reply port)) = Inr (''127.0.0.1'', port)"
  by (rule pasv_argument)

text \<open>EPRT with the argument RFC 2428 prescribes, in which the fields are separated by a delimiter other than
  the comma, makes the session read beyond the end of a vector; so does a PORT without commas.\<close>
theorem eprt_out_of_bounds:
  assumes "map toupper w = ''EPRT'' \<or> map toupper w = ''PORT''" "CHR '' '' \<notin> set w" "CHR '','' \<notin> set args"
  shows "executeCommand db env (w @ '' '' @ args) (s, fs) = Inl Out_Of_Bounds"
proof -
  have few: "length (getline_split (CHR '','') a) \<le> 1" if "CHR '','' \<notin> set a" for a
    using that by (cases "a = []") simp_all
  have "port_args lf a = Inl Out_Of_Bounds" if "CHR '','' \<notin> set a" for lf a
    using few [OF that] by (cases "getline_split (CHR '','') a") (auto simp: port_args_def both_operands_def port_high_def port_low_def Let_def rd_def)
  moreover have "CHR '','' \<notin> set (strip_brackets args)"
    using assms(3) by (auto simp: strip_brackets_def Let_def split: option.splits dest: in_set_takeD in_set_dropD)
  ultimately show ?thesis
    using assms executeCommand_word(6,7) [OF assms(2)] by (auto simp: handlePort_def)
qed

theorem eprt_out_of_bounds_witness:
  "executeCommand (\<lambda>_. None) (good_env []) (''EPRT'' @ '' '' @ ''|1|127.0.0.1|5282|'') (ftp_s0, ftp_fs0 (\<lambda>_. None)) = Inl Out_Of_Bounds"
proof -
  have "map toupper ''EPRT'' = ''EPRT''" by (simp add: toupper_def)
  then show ?thesis using eprt_out_of_bounds [of "''EPRT''" "''|1|127.0.0.1|5282|''"] by simp
qed

lemma reconnect:
  assumes "port_args (e_left_first env) (strip_brackets args) = Inr (host, port)" "e_address_ok env host" "e_socket_ok env"
    and "e_connect_ok env host port" "dataSocket s = Ds_Closed"
  shows "\<exists>s'. handlePort env (strip_brackets args) (s, fs) = Inr (s', fs) \<and> connected s' \<and> currDir s' = currDir s
    \<and> transferType s' = transferType s \<and> data_out s' = data_out s \<and> reply_codes s' = reply_codes s @ [''200'']"
  using assms by (simp add: handlePort_def openDataConnectionActive_def connected_def)

text \<open>A file that has been stored is sent back as it was: STOR of blocks that end in one that is not full, a new data
  connection made with PORT, and RETR of the same name, in binary mode, over connections that do not fail,
  send exactly the bytes of the blocks; the replies are 150, 226, 200, 150 and 226.\<close>
theorem stored_file_comes_back:
  assumes "connected s" "transferType s = Transfer_Binary" "p = path_append (currDir s) name" "fs_creatable fs p"
    and "\<not> fs_is_directory fs p" "\<not> fs_denied fs p" "e_reads env = bs @ [b]" "\<forall>x \<in> set bs. length x = 512" "length b < 512"
    and "port_args (e_left_first env) (strip_brackets args) = Inr (host, port)" "e_address_ok env host" "e_socket_ok env" "e_connect_ok env host port"
    and "e_readable env p" "\<forall>k. e_write_ok env k" "\<forall>n > 0. 0 < e_in_avail env n"
  shows "\<exists>s'. bind_res (executeCommand db env (''STOR'' @ '' '' @ name) (s, fs)) (\<lambda>io.
      bind_res (executeCommand db env (''PORT'' @ '' '' @ args) io) (executeCommand db env (''RETR'' @ '' '' @ name)))
        = Inr (s', set_file p (concat bs @ b) fs)
    \<and> data_out s' = data_out s @ concat bs @ b \<and> reply_codes s' = reply_codes s @ [''150'', ''226'', ''200'', ''150'', ''226'']"
proof -
  have words: "map toupper ''STOR'' = ''STOR''" "CHR '' '' \<notin> set ''STOR''" "map toupper ''PORT'' = ''PORT''" "CHR '' '' \<notin> set ''PORT''"
    "map toupper ''RETR'' = ''RETR''" "CHR '' '' \<notin> set ''RETR''"
    by (simp_all add: toupper_def)
  let ?fs = "set_file p (concat bs @ b) fs"
  have taken: "taken_blocks (e_reads env) = bs @ [b]"
    using assms(7,8,9) by (simp add: taken_blocks_def takeWhile_append dropWhile_append)
  have le: "\<forall>x \<in> set (e_reads env). length x \<le> 512" and ex: "\<exists>x \<in> set (e_reads env). length x < 512"
    using assms(7-9) by auto
  have id: "stored_form Transfer_Binary = (\<lambda>x. x)" by (simp add: stored_form_def fun_eq_iff)
  obtain s1 where 1: "handleStor env name (s, fs) = Inr (s1, ?fs)" "reply_codes s1 = reply_codes s @ [''150'', ''226'']"
    "dataSocket s1 = Ds_Closed" "currDir s1 = currDir s" "transferType s1 = transferType s" "data_out s1 = data_out s"
    using store [OF assms(1,3,4,5) le] ex taken by (auto simp: assms(2) id)
  obtain s2 where 2: "handlePort env (strip_brackets args) (s1, ?fs) = Inr (s2, ?fs)" "connected s2" "currDir s2 = currDir s1"
    "transferType s2 = transferType s1" "data_out s2 = data_out s1" "reply_codes s2 = reply_codes s1 @ [''200'']"
    using reconnect [OF assms(10-13) 1(3)] by blast
  have pre: "\<not> fs_denied ?fs p" "fs_files ?fs p = Some (concat bs @ b)" "p = path_append (currDir s2) name"
    using assms(3,6) 1(4) 2(3) by simp_all
  obtain s3 where "handleRetr env name (s2, ?fs) = Inr (s3, ?fs)"
    "data_out s3 = data_out s2 @ sent_form (transferType s2) (concat bs @ b)" "reply_codes s3 = reply_codes s2 @ [''150'', ''226'']"
    using retrieve [OF 2(2) pre assms(14-16)] by blast
  then show ?thesis
    unfolding executeCommand_word(2) [OF words(2,1)] executeCommand_word(7) [OF words(4,3)] executeCommand_word(1) [OF words(6,5)]
      1(1) bind_res_Inr 2(1)
    using 1 2 assms(2) by (intro exI [of _ s3]) (simp add: sent_form_def)
qed

theorem stored_file_comes_back_witness:
  "\<exists>s'. bind_res (executeCommand (\<lambda>_. None) (good_env [replicate 512 7, [1, 2]]) (''STOR'' @ '' '' @ ''b'') (ftp_s0, ftp_fs0 (\<lambda>_. None))) (\<lambda>io.
      bind_res (executeCommand (\<lambda>_. None) (good_env [replicate 512 7, [1, 2]]) (''PORT'' @ '' '' @ pasv_reply 5000) io)
        (executeCommand (\<lambda>_. None) (good_env [replicate 512 7, [1, 2]]) (''RETR'' @ '' '' @ ''b'')))
        = Inr (s', set_file ''/home/u/b'' (replicate 512 7 @ [1, 2]) (ftp_fs0 (\<lambda>_. None)))
    \<and> data_out s' = replicate 512 7 @ [1, 2]"
proof -
  let ?env = "good_env [replicate 512 7, [1, 2]]"
  have pa: "port_args (e_left_first ?env) (strip_brackets (pasv_reply 5000)) = Inr (''127.0.0.1'', 5000)"
    by (rule pasv_argument)
  have pre: "''/home/u/b'' = path_append (currDir ftp_s0) ''b''" "fs_creatable (ftp_fs0 (\<lambda>_. None)) ''/home/u/b''"
    "\<not> fs_is_directory (ftp_fs0 (\<lambda>_. None)) ''/home/u/b''" "\<not> fs_denied (ftp_fs0 (\<lambda>_. None)) ''/home/u/b''"
    "e_reads ?env = [replicate 512 7] @ [[1, 2]]" "\<forall>x \<in> set [replicate 512 (7::u8)]. length x = 512" "length [1, 2::u8] < 512"
    and env: "e_address_ok ?env ''127.0.0.1''" "e_socket_ok ?env" "e_connect_ok ?env ''127.0.0.1'' 5000" "e_readable ?env ''/home/u/b''"
    "\<forall>k. e_write_ok ?env k" "\<forall>n > 0. 0 < e_in_avail ?env n"
    by (simp_all add: fs_is_directory_def)
  from stored_file_comes_back [OF ftp_sample_simps(1,3) pre pa env, of "\<lambda>_. None"]
  show ?thesis by (simp add: concat.simps) blast
qed

section \<open>Login\<close>

lemma users_fixed:
  assumes "ftp_server_run es srv = Inr srv'"
  shows "f_users srv' = f_users srv"
proof (rule ftp_srv.run_related [where R = "\<lambda>a b. f_users b = f_users a", OF assms])
  fix s e s'
  assume "ftp_server_step e s = Inr s'"
  then show "f_users s' = f_users s"
    by (cases e) (auto simp: bind_res_eq_Inr accept_connection_def split: if_splits option.splits)
qed auto

text \<open>The password check in every reachable state: it never throws; a session that has not named the one user of
  the database gets no answer, the others 230 for the password of that user and 530 for any other word.\<close>
theorem password_check:
  assumes "ftp_server_run es (new_ftp_server fs) = Inr srv" "s \<in> set (f_sessions srv)"
    and "map toupper w = ''PASS''" "CHR '' '' \<notin> set w"
  shows "executeCommand (f_users srv) env (w @ '' '' @ pw) (s, fs') = Inr (if f_username s = [] then s
      else sendMessageToClient (if pw = ''testpassword'' then ''230 User testuser logged in''
        else ''530 login authentication failed'') s, fs') \<and> f_username s \<in> {[], ''testuser''}"
proof -
  have "ftp_inv (new_ftp_server fs)" by (simp add: ftp_inv_def new_ftp_server_def)
  from holdsD [OF ftp_server_run_inv [OF this] assms(1)] assms(2) have known: "known_user (f_users srv) s"
    by (simp add: ftp_inv_def)
  have users: "f_users srv = [''testuser'' \<mapsto> ''testpassword'']"
    using users_fixed [OF assms(1)] by (simp add: new_ftp_server_def loadFromFile_def fun_eq_iff)
  then have u: "f_username s \<in> {[], ''testuser''}"
    using known by (auto simp: known_user_def usernameIsKnown_def split: if_splits)
  show ?thesis
    unfolding executeCommand_word(4) [OF assms(4,3)] handlePass_def prod.case
    using u users by (auto simp: passwordIsValid_def)
qed

definition one_session :: ftp_server where
  "one_session = (new_ftp_server (ftp_fs0 (\<lambda>_. None)))\<lparr>f_sessions := [ftp_start (new_ftp_session FTP_DATA_CONNECTION_PORT ''/home/u'')]\<rparr>"

lemma one_session_run: "ftp_server_run [New_Connection True (Some ''/home/u'')] (new_ftp_server (ftp_fs0 (\<lambda>_. None))) = Inr one_session"
  by (simp add: new_ftp_server_def accept_connection_def one_session_def)

theorem password_check_witness:
  "executeCommand (f_users one_session) (good_env []) (''PASS'' @ '' '' @ ''x'') (hd (f_sessions one_session), ftp_fs0 (\<lambda>_. None))
     = Inr (hd (f_sessions one_session), ftp_fs0 (\<lambda>_. None))"
proof -
  have w: "map toupper ''PASS'' = ''PASS''" "CHR '' '' \<notin> set ''PASS''" by (simp_all add: toupper_def)
  have "hd (f_sessions one_session) \<in> set (f_sessions one_session)" "f_username (hd (f_sessions one_session)) = []"
    by (simp_all add: one_session_def ftp_start_def new_ftp_session_def)
  then show ?thesis using password_check [OF one_session_run _ w] by simp
qed

section \<open>The command channel\<close>

lemma find_sub_CRLF: "CHR 0x0D \<notin> set l \<Longrightarrow> find_sub CRLF (l @ CRLF @ rest) = Some (length l)"
proof (induction l)
  case Nil
  show ?case using find_sub_prefix [of CRLF rest] by simp
qed auto

lemma first_line_CRLF [simp]: "CHR 0x0D \<notin> set l \<Longrightarrow> first_line (l @ CRLF @ rest) = l"
  using find_sub_CRLF [of l rest] by (simp add: first_line_def)

text \<open>Commands that arrive together with an earlier one are lost: what follows the first line in the buffer has
  no effect at all, because the buffer is local to one turn of the loop.\<close>
theorem pipelined_commands_lost:
  assumes "CHR 0x0D \<notin> set line"
  shows "ftp_turn db env (Received_Text (line @ CRLF @ rest)) io = ftp_turn db env (Received_Text (line @ CRLF)) io"
proof -
  have "first_line (line @ CRLF @ rest) = line" "first_line (line @ CRLF) = line"
    using first_line_CRLF [OF assms, of rest] first_line_CRLF [OF assms, of "[]"] by simp_all
  then show ?thesis by (simp only: ftp_turn_def ftp_event.case)
qed

theorem pipelined_commands_lost_witness:
  "ftp_turn (\<lambda>_. None) (good_env []) (Received_Text (''PWD'' @ CRLF @ ''QUIT'' @ CRLF)) (ftp_s0, ftp_fs0 (\<lambda>_. None))
    = ftp_turn (\<lambda>_. None) (good_env []) (Received_Text (''PWD'' @ CRLF)) (ftp_s0, ftp_fs0 (\<lambda>_. None))"
  by (rule pipelined_commands_lost) simp

section \<open>Out of the root directory\<close>

definition abs_path :: "string list \<Rightarrow> string" where
  "abs_path ns = ''/'' @ join_with (CHR ''/'') ns"

definition plain_names :: "string list \<Rightarrow> bool" where
  "plain_names ns \<longleftrightarrow> (\<forall>n \<in> set ns. n \<noteq> [] \<and> CHR ''/'' \<notin> set n)"

lemma abs_path_last:
  assumes "plain_names ns" "ns \<noteq> []"
  shows "last (abs_path ns) \<noteq> CHR ''/''"
proof -
  have l: "last ns \<noteq> []" "CHR ''/'' \<notin> set (last ns)" using assms by (simp_all add: plain_names_def)
  have "last (join_with (CHR ''/'') ns) = last (last ns)" "join_with (CHR ''/'') ns \<noteq> []"
    using assms(2) l(1) by (induction ns rule: join_with.induct [of _ "CHR ''/''"]) (auto simp: join_with_eq_Nil)
  then show ?thesis
    using l by (metis abs_path_def last_appendR last_in_set)
qed

lemma abs_path_components:
  assumes "plain_names ns"
  shows "path_components (abs_path ns) = ''/'' # ns"
proof (cases "ns = []")
  case True
  have "getline_split (CHR ''/'') ([] @ CHR ''/'' # []) = [[]]" by (subst getline_split_step) simp_all
  then show ?thesis using True by (simp add: path_components_def abs_path_def)
next
  case False
  have n: "\<forall>n \<in> set ns. n \<noteq> [] \<and> CHR ''/'' \<notin> set n" using assms by (simp add: plain_names_def)
  then have l: "last ns \<noteq> []" "CHR ''/'' \<notin> set (last ns)" using False by simp_all
  have "getline_split (CHR ''/'') (join_with (CHR ''/'') ns) = ns"
    using getline_split_join [OF False l(1)] n by blast
  then have g: "getline_split (CHR ''/'') ([] @ CHR ''/'' # join_with (CHR ''/'') ns) = [] # ns"
    by (subst getline_split_step) simp_all
  have f: "filter (\<lambda>x. x \<noteq> []) ns = ns" using n by (simp add: filter_id_conv)
  then show ?thesis using g abs_path_last [OF assms False] False by (simp add: path_components_def abs_path_def)
qed

lemma path_append_abs:
  assumes "plain_names (ns @ [n])"
  shows "path_append (abs_path ns) n = abs_path (ns @ [n])"
proof (cases "ns = []")
  case True
  then show ?thesis by (simp add: abs_path_def path_append_def)
next
  case False
  have "last (abs_path ns) \<noteq> CHR ''/''" using False assms by (intro abs_path_last) (simp_all add: plain_names_def)
  moreover have "n \<noteq> []" "hd n \<noteq> CHR ''/''" using assms by (auto simp: plain_names_def) (metis hd_in_set)
  ultimately show ?thesis using False by (simp add: path_append_def abs_path_def join_with_snoc)
qed

lemma fold_path_append: "plain_names ns \<Longrightarrow> fold (\<lambda>c a. path_append a c) ns ''/'' = abs_path ns"
proof (induction ns rule: rev_induct)
  case (snoc n ns)
  then have "plain_names ns" by (simp add: plain_names_def)
  with snoc path_append_abs show ?case by simp
qed (simp add: abs_path_def)

lemma parent_abs_path:
  assumes "plain_names (ns @ [n])"
  shows "parent_path (abs_path (ns @ [n])) = abs_path ns"
proof -
  have "plain_names ns" using assms by (simp add: plain_names_def)
  then show ?thesis
    using fold_path_append [of ns] by (simp add: parent_path_def abs_path_components [OF assms] path_append_def butlast_append)
qed

lemma cwd_up:
  assumes "currDir s = abs_path (ns @ [n])" "plain_names (ns @ [n])" "fs_is_directory fs (abs_path ns)" "\<not> fs_denied fs (abs_path ns)"
    and "\<not> quitCmdLoop s"
  shows "\<exists>s'. ftp_turn db env (Received_Text (''CWD ..'' @ CRLF)) (s, fs) = Inr (s', fs) \<and> currDir s' = abs_path ns
    \<and> rootDir s' = rootDir s \<and> ctrl_open s' = ctrl_open s \<and> \<not> quitCmdLoop s'"
proof -
  have l: "first_line (''CWD ..'' @ CRLF) = ''CWD'' @ '' '' @ ''..''" using first_line_CRLF [of "''CWD ..''" "[]"] by simp
  have w: "map toupper ''CWD'' = ''CWD''" "CHR '' '' \<notin> set ''CWD''" by (simp_all add: toupper_def)
  have "exists_or_throw fs (abs_path ns) = Inr True"
    using assms(3,4) by (simp add: exists_or_throw_def fs_exists_def fs_is_directory_def)
  then have "handleCwd ''..'' (s, fs)
      = Inr (sendMessageToClient (''250 The current directory has been changed to '' @ abs_path ns) (s\<lparr>currDir := abs_path ns\<rparr>), fs)"
    using assms(1,3) parent_abs_path [OF assms(2)] by (simp add: handleCwd_def Let_def)
  then show ?thesis
    unfolding ftp_turn_def prod.case ftp_event.case l executeCommand_word(3) [OF w(2,1)] using assms(5) by simp
qed

text \<open>CWD leads out of the root directory: a session whose root is \<open>n\<close> levels deep reaches the root of the file
  system with \<open>n\<close> commands CWD .., provided the directories above exist and may be examined.\<close>
theorem cwd_leaves_root:
  assumes "rootDir s = abs_path ns" "currDir s = rootDir s" "plain_names ns" "ctrl_open s" "\<not> quitCmdLoop s"
    and "\<forall>k < length ns. fs_is_directory fs (abs_path (take k ns)) \<and> \<not> fs_denied fs (abs_path (take k ns))"
  shows "\<exists>s'. worker db (replicate (length ns) (env, Received_Text (''CWD ..'' @ CRLF))) (s, fs) = Inr (s', fs)
    \<and> rootDir s' = abs_path ns \<and> currDir s' = ''/''"
proof -
  have "\<exists>s'. worker db (replicate (length ns) (env, Received_Text (''CWD ..'' @ CRLF))) (s, fs) = Inr (s', fs)
      \<and> rootDir s' = rootDir s \<and> currDir s' = ''/''" if "currDir s = abs_path ns"
    using that assms(3-6)
  proof (induction ns arbitrary: s rule: rev_induct)
    case Nil
    then show ?case by (simp add: abs_path_def)
  next
    case (snoc n ns)
    have "fs_is_directory fs (abs_path ns)" "\<not> fs_denied fs (abs_path ns)"
      using snoc.prems(5) [rule_format, of "length ns"] by simp_all
    from cwd_up [OF snoc.prems(1,2) this snoc.prems(4), of db env] obtain s1 where
      1: "ftp_turn db env (Received_Text (''CWD ..'' @ CRLF)) (s, fs) = Inr (s1, fs)" "currDir s1 = abs_path ns"
        "rootDir s1 = rootDir s" "ctrl_open s1" "\<not> quitCmdLoop s1"
      using snoc.prems(3) by auto
    have "plain_names ns" using snoc.prems(2) by (simp add: plain_names_def)
    moreover have "\<forall>k < length ns. fs_is_directory fs (abs_path (take k ns)) \<and> \<not> fs_denied fs (abs_path (take k ns))"
      using snoc.prems(5) by (metis length_append_singleton less_SucI take_append diff_is_0_eq' less_imp_le_nat take_0 append_Nil2)
    ultimately obtain s2 where "worker db (replicate (length ns) (env, Received_Text (''CWD ..'' @ CRLF))) (s1, fs) = Inr (s2, fs)"
      "rootDir s2 = rootDir s1" "currDir s2 = ''/''"
      using snoc.IH [OF 1(2) _ 1(4,5)] by blast
    then show ?case using 1 snoc.prems(3) by (intro exI [of _ s2]) simp
  qed
  with assms(1,2) show ?thesis by simp
qed

theorem cwd_leaves_root_witness:
  "\<exists>s'. worker (\<lambda>_. None) (replicate 2 (good_env [], Received_Text (''CWD ..'' @ CRLF))) (ftp_s0, ftp_fs0 (\<lambda>_. None)) = Inr (s', ftp_fs0 (\<lambda>_. None))
    \<and> currDir s' = ''/''"
proof -
  have len: "length [''home'', ''u''] = 2" by simp
  have pre: "rootDir ftp_s0 = abs_path [''home'', ''u'']" "currDir ftp_s0 = rootDir ftp_s0" "plain_names [''home'', ''u'']"
    "ctrl_open ftp_s0" "\<not> quitCmdLoop ftp_s0"
    by (simp_all add: ftp_s0_def new_ftp_session_def abs_path_def plain_names_def)
  have "\<forall>k < length [''home'', ''u'']. fs_is_directory (ftp_fs0 (\<lambda>_. None)) (abs_path (take k [''home'', ''u'']))
      \<and> \<not> fs_denied (ftp_fs0 (\<lambda>_. None)) (abs_path (take k [''home'', ''u'']))"
    by (simp add: less_Suc_eq numeral_2_eq_2 fs_is_directory_def abs_path_def all_conj_distrib)
  from cwd_leaves_root [OF pre this] show ?thesis unfolding len by blast
qed

section \<open>Passive mode after a failure\<close>

lemma wedged_turn:
  assumes "wedged s" "\<forall>t. e = Received_Text t \<longrightarrow> \<not> is_port_command (first_line t)"
  shows "holds (\<lambda>io'. wedged (fst io') \<and> data_out (fst io') = data_out s) (ftp_turn db env e (s, fs))"
proof (cases e)
  case (Received_Text t)
  then have c: "holds (\<lambda>io'. wedged (fst io') \<and> data_out (fst io') = data_out s) (executeCommand db env (first_line t) (s, fs))"
    using assms by (intro wedged_command) simp_all
  show ?thesis
  proof (cases "executeCommand db env (first_line t) (s, fs)")
    case (Inl f)
    then show ?thesis using assms(1) by (cases f) (simp_all add: Received_Text ftp_turn_def)
  next
    case (Inr io')
    with holdsD [OF c] show ?thesis by (cases io') (simp add: Received_Text ftp_turn_def)
  qed
qed (use assms(1) in \<open>simp add: ftp_turn_def\<close>)

lemma wedged_worker:
  "worker db es (s, fs) = Inr (s', fs') \<Longrightarrow> wedged s \<Longrightarrow>
    \<forall>(env, e) \<in> set es. \<forall>t. e = Received_Text t \<longrightarrow> \<not> is_port_command (first_line t) \<Longrightarrow>
    wedged s' \<and> data_out s' = data_out s"
proof (induction es arbitrary: s fs)
  case (Cons x es)
  obtain env e where x: "x = (env, e)" by fastforce
  show ?case
  proof (cases "ctrl_open s")
    case True
    then obtain s1 fs1 where 1: "ftp_turn db env e (s, fs) = Inr (s1, fs1)" "worker db es (s1, fs1) = Inr (s', fs')"
      using Cons.prems(1) x by (auto simp: bind_res_eq_Inr)
    then have "wedged s1 \<and> data_out s1 = data_out s"
      using holdsD [OF wedged_turn 1(1)] Cons.prems(2,3) x by auto
    with Cons.IH [OF 1(2)] Cons.prems(3) x show ?thesis by auto
  next
    case False
    then show ?thesis using Cons.prems x by simp
  qed
qed simp

text \<open>A PASV that fails after the acceptor was opened, for instance because another session is listening on the one
  data port of the server, disables passive mode for the rest of the session: whatever commands follow,
  except PORT and EPRT, no data connection is ever made and nothing is transferred.\<close>
theorem failed_passive_is_permanent:
  assumes "dataSocket s = Ds_Closed" "e_acc_open env" "\<not> e_acc_bind env"
    and "worker db ((env, Received_Text (''PASV'' @ CRLF)) # es) (s, fs) = Inr (s', fs')"
    and "\<forall>(env, e) \<in> set es. \<forall>t. e = Received_Text t \<longrightarrow> \<not> is_port_command (first_line t)"
  shows "dataSocket s' = Ds_Closed \<and> data_out s' = data_out s"
proof (cases "ctrl_open s")
  case True
  let ?s = "(sendMessageToClient (pasv_reply (f_dataPort s)) s)\<lparr>acceptorOpen := True\<rparr>"
  have l: "first_line (''PASV'' @ CRLF) = ''PASV''" using first_line_CRLF [of "''PASV''" "[]"] by simp
  have w: "map toupper ''PASV'' = ''PASV''" "CHR '' '' \<notin> set ''PASV''" by (simp_all add: toupper_def)
  have p: "openDataConnectionPassive env (f_dataPort s) (sendMessageToClient (pasv_reply (f_dataPort s)) s) = (False, ?s)"
    using assms(1-3) by (cases s) (auto simp: openDataConnectionPassive_def Let_def sendMessageToClient_def)
  have "handlePasv env (s, fs) = Inr (?s, fs)"
    unfolding handlePasv_def prod.case Let_def sendMessage_fields p by simp
  then have turn: "ftp_turn db env (Received_Text (''PASV'' @ CRLF)) (s, fs)
      = Inr (if quitCmdLoop s then ?s\<lparr>ctrl_open := False\<rparr> else ?s, fs)"
    unfolding ftp_turn_def prod.case ftp_event.case l executeCommand_word(9) [OF w(2,1)] by simp
  define s1 where "s1 = (if quitCmdLoop s then ?s\<lparr>ctrl_open := False\<rparr> else ?s)"
  have 1: "wedged s1" "data_out s1 = data_out s" using assms(1) by (simp_all add: s1_def wedged_def)
  have "worker db es (s1, fs) = Inr (s', fs')"
    using assms(4) True unfolding worker.simps turn s1_def by simp
  from wedged_worker [OF this 1(1) assms(5)] 1(2) show ?thesis by (simp add: wedged_def)
next
  case False
  then show ?thesis using assms(1,4) by simp
qed

theorem failed_passive_is_permanent_witness:
  "\<exists>s'. worker (\<lambda>_. None) [((good_env [])\<lparr>e_acc_bind := False\<rparr>, Received_Text (''PASV'' @ CRLF)), (good_env [], Received_Text (''PASV'' @ CRLF))]
      (new_ftp_session 10020 ''/home/u'', ftp_fs0 (\<lambda>_. None)) = Inr (s', ftp_fs0 (\<lambda>_. None)) \<and> dataSocket s' = Ds_Closed"
proof -
  let ?es = "[((good_env [])\<lparr>e_acc_bind := False\<rparr>, Received_Text (''PASV'' @ CRLF)), (good_env [], Received_Text (''PASV'' @ CRLF))]"
  let ?io = "(new_ftp_session 10020 ''/home/u'', ftp_fs0 (\<lambda>_. None))"
  have l: "first_line (''PASV'' @ CRLF) = ''PASV''" using first_line_CRLF [of "''PASV''" "[]"] by simp
  have w: "map toupper ''PASV'' = ''PASV''" "CHR '' '' \<notin> set ''PASV''" by (simp_all add: toupper_def)
  have run: "\<exists>s'. worker (\<lambda>_. None) ?es ?io = Inr (s', ftp_fs0 (\<lambda>_. None))"
    using w by (simp add: ftp_turn_def l [simplified] executeCommand_word(9) [OF w(2,1), simplified] handlePasv_def Let_def
        new_ftp_session_def)
  then obtain s' where r: "worker (\<lambda>_. None) ?es ?io = Inr (s', ftp_fs0 (\<lambda>_. None))" by blast
  have pre: "dataSocket (new_ftp_session 10020 ''/home/u'') = Ds_Closed" "e_acc_open ((good_env [])\<lparr>e_acc_bind := False\<rparr>)"
    "\<not> e_acc_bind ((good_env [])\<lparr>e_acc_bind := False\<rparr>)"
    by (simp_all add: new_ftp_session_def good_env_def)
  have "\<forall>(env, e) \<in> set [(good_env [], Received_Text (''PASV'' @ CRLF))]. \<forall>t. e = Received_Text t \<longrightarrow> \<not> is_port_command (first_line t)"
    using l w by (simp add: is_port_command_def)
  from failed_passive_is_permanent [OF pre r this] r show ?thesis by blast
qed

end
