(* ===== verification/FTP_Concurrency.thy ===== *)
theory FTP_Concurrency
  imports FTP_Properties
begin

text \<open>
  Several sessions of the FTP server at once. They share one data port, and only one socket can listen
  on a port at a time; what this does to a session that asks for passive mode while another one is
  using it.
\<close>

section \<open>The shared data port\<close>

text \<open>Another session's acceptor listens on the port: it has accepted its data connection and not closed it yet.\<close>

definition port_busy :: "ftp_server \<Rightarrow> nat \<Rightarrow> bool" where
  "port_busy srv j \<longleftrightarrow> (\<exists>i < length (f_sessions srv). i \<noteq> j \<and> acceptorOpen (f_sessions srv ! i)
     \<and> dataSocket (f_sessions srv ! i) = Ds_Connected (Accepted_On (f_dataPort (f_sessions srv ! j))))"

text \<open>What the system does: no bind while another socket listens.\<close>

definition one_listener :: "ftp_server \<Rightarrow> nat \<Rightarrow> ftp_env \<Rightarrow> bool" where
  "one_listener srv j env \<longleftrightarrow> (port_busy srv j \<longrightarrow> \<not> e_acc_bind env)"

definition no_port_commands :: "nat \<Rightarrow> ftp_server_event list \<Rightarrow> bool" where
  "no_port_commands j es \<longleftrightarrow> (\<forall>env t. Session_Turn j env (Received_Text t) \<in> set es \<longrightarrow> \<not> is_port_command (first_line t))"

definition wedged_at :: "nat \<Rightarrow> bytes \<Rightarrow> ftp_server \<Rightarrow> bool" where
  "wedged_at j d srv \<longleftrightarrow> j < length (f_sessions srv) \<and> wedged (f_sessions srv ! j) \<and> data_out (f_sessions srv ! j) = d"

lemma wedged_server_step:
  assumes "wedged_at j d srv" "no_port_commands j [e]" "ftp_server_step e srv = Inr srv'"
  shows "wedged_at j d srv'"
proof (cases e)
  case (New_Connection ok home)
  then show ?thesis using assms
    by (auto simp: wedged_at_def accept_connection_def nth_append split: if_splits option.splits)
next
  case (Session_Turn i env ev)
  show ?thesis
  proof (cases "i < length (f_sessions srv) \<and> ctrl_open (f_sessions srv ! i)")
    case True
    then obtain s fs where turn: "ftp_turn (f_users srv) env ev (f_sessions srv ! i, ftp_fs srv) = Inr (s, fs)"
      and srv': "srv' = srv\<lparr>f_sessions := (f_sessions srv)[i := s], ftp_fs := fs\<rparr>"
      using assms(3) Session_Turn by (auto simp: bind_res_eq_Inr)
    show ?thesis
    proof (cases "i = j")
      case True
      have "\<forall>t. ev = Received_Text t \<longrightarrow> \<not> is_port_command (first_line t)"
        using assms(2) Session_Turn True by (auto simp: no_port_commands_def)
      from holdsD [OF wedged_turn [OF _ this] turn] assms(1) True show ?thesis
        by (simp add: wedged_at_def srv')
    qed (use assms(1) in \<open>simp add: wedged_at_def srv'\<close>)
  qed (use assms Session_Turn in auto)
qed

lemma wedged_server_run:
  "ftp_server_run es srv = Inr srv' \<Longrightarrow> wedged_at j d srv \<Longrightarrow> no_port_commands j es \<Longrightarrow> wedged_at j d srv'"
proof (induction es arbitrary: srv)
  case (Cons e es)
  then obtain srv1 where "ftp_server_step e srv = Inr srv1" "ftp_server_run es srv1 = Inr srv'"
    by (auto simp: bind_res_eq_Inr)
  moreover have "no_port_commands j [e]" "no_port_commands j es"
    using Cons.prems(3) by (auto simp: no_port_commands_def)
  ultimately show ?case using Cons.IH wedged_server_step [OF Cons.prems(2)] by blast
qed simp

text \<open>PASV while the bind is refused.\<close>

lemma refused_passive:
  assumes "dataSocket s = Ds_Closed" "\<not> acceptorOpen s" "e_acc_open env" "\<not> e_acc_bind env"
    and "ftp_turn db env (Received_Text (''PASV'' @ CRLF)) (s, fs) = Inr (s', fs')"
  shows "wedged s' \<and> data_out s' = data_out s"
proof -
  let ?s = "(sendMessageToClient (pasv_reply (f_dataPort s)) s)\<lparr>acceptorOpen := True\<rparr>"
  have l: "first_line (''PASV'' @ CRLF) = ''PASV''" using first_line_CRLF [of "''PASV''" "[]"] by simp
  have w: "map toupper ''PASV'' = ''PASV''" "CHR '' '' \<notin> set ''PASV''" by (simp_all add: toupper_def)
  have p: "openDataConnectionPassive env (f_dataPort s) (sendMessageToClient (pasv_reply (f_dataPort s)) s) = (False, ?s)"
    using assms(1-4) by (cases s) (auto simp: openDataConnectionPassive_def Let_def sendMessageToClient_def)
  have "handlePasv env (s, fs) = Inr (?s, fs)"
    unfolding handlePasv_def prod.case Let_def sendMessage_fields p by simp
  then show ?thesis
    using assms(1,5) unfolding ftp_turn_def prod.case ftp_event.case l executeCommand_word(9) [OF w(2,1)]
    by (auto simp: wedged_def)
qed

text \<open>C32: Two sessions cannot both use passive mode: a PASV of one while another one's passive connection is open fails, and
  for good - the session has no data connection and transfers nothing in any run that follows, even after the other one
  has closed its connection, unless it turns to PORT or EPRT. The system is assumed to refuse a second
  listening socket on a port.\<close>
theorem second_passive_session_wedged:
  assumes "port_busy srv j" "one_listener srv j env" "j < length (f_sessions srv)" "ctrl_open (f_sessions srv ! j)"
    and "dataSocket (f_sessions srv ! j) = Ds_Closed" "\<not> acceptorOpen (f_sessions srv ! j)" "e_acc_open env"
    and "ftp_server_run (Session_Turn j env (Received_Text (''PASV'' @ CRLF)) # es) srv = Inr srv'" "no_port_commands j es"
  shows "dataSocket (f_sessions srv' ! j) = Ds_Closed \<and> data_out (f_sessions srv' ! j) = data_out (f_sessions srv ! j)"
proof -
  obtain s fs where turn: "ftp_turn (f_users srv) env (Received_Text (''PASV'' @ CRLF)) (f_sessions srv ! j, ftp_fs srv) = Inr (s, fs)"
    and run: "ftp_server_run es (srv\<lparr>f_sessions := (f_sessions srv)[j := s], ftp_fs := fs\<rparr>) = Inr srv'"
    using assms(3,4,8) by (auto simp: bind_res_eq_Inr)
  have "\<not> e_acc_bind env" using assms(1,2) by (simp add: one_listener_def)
  from refused_passive [OF assms(5,6,7) this turn]
  have "wedged_at j (data_out (f_sessions srv ! j)) (srv\<lparr>f_sessions := (f_sessions srv)[j := s], ftp_fs := fs\<rparr>)"
    using assms(3) by (simp add: wedged_at_def)
  from wedged_server_run [OF run this assms(9)] show ?thesis by (simp add: wedged_at_def wedged_def)
qed

text \<open>Two clients have connected; the first has sent PASV and opened its data connection.\<close>

definition fresh :: ftp_session where
  "fresh = ftp_start (new_ftp_session FTP_DATA_CONNECTION_PORT ''/home/u'')"

definition listening :: ftp_session where
  "listening = (sendMessageToClient (pasv_reply 10020) fresh)\<lparr>acceptorOpen := True, dataSocket := Ds_Connected (Accepted_On 10020)\<rparr>"

definition two_sessions :: ftp_server where
  "two_sessions = (new_ftp_server (ftp_fs0 (\<lambda>_. None)))\<lparr>f_sessions := [listening, fresh]\<rparr>"

lemma pasv_line: "first_line (''PASV'' @ CRLF) = ''PASV''"
  using first_line_CRLF [of "''PASV''" "[]"] by simp

lemma pasv_turn:
  "ftp_turn db env (Received_Text (''PASV'' @ CRLF)) (s, fs) = (case handlePasv env (s, fs) of
     Inr (s', fs') \<Rightarrow> Inr (if quitCmdLoop s' then s'\<lparr>ctrl_open := False\<rparr> else s', fs')
   | Inl (Std_Exception x) \<Rightarrow> Inr (s\<lparr>ctrl_open := False\<rparr>, fs) | Inl e \<Rightarrow> Inl e)"
proof -
  have w: "map toupper ''PASV'' = ''PASV''" "CHR '' '' \<notin> set ''PASV''" by (simp_all add: toupper_def)
  show ?thesis unfolding ftp_turn_def prod.case ftp_event.case pasv_line executeCommand_word(9) [OF w(2,1)] by simp
qed

lemma fresh_fields [simp]:
  "ctrl_open fresh" "dataSocket fresh = Ds_Closed" "\<not> acceptorOpen fresh" "f_dataPort fresh = 10020" "\<not> quitCmdLoop fresh"
  "data_out fresh = []"
  by (simp_all add: fresh_def ftp_start_def new_ftp_session_def FTP_DATA_CONNECTION_PORT_def)

lemma good_env_passive [simp]:
  "e_acc_open (good_env bs)" "e_acc_reuse (good_env bs)" "e_acc_bind (good_env bs)" "e_acc_listen (good_env bs)" "e_acc_accept (good_env bs)"
  by (simp_all add: good_env_def)

definition pasv_event :: ftp_event where
  "pasv_event = Received_Text (''PASV'' @ CRLF)"

lemma two_sessions_run:
  "ftp_server_run [New_Connection True (Some ''/home/u''), New_Connection True (Some ''/home/u''),
     Session_Turn 0 (good_env []) pasv_event] (new_ftp_server (ftp_fs0 (\<lambda>_. None))) = Inr two_sessions"
proof -
  have "ftp_turn db (good_env []) pasv_event (fresh, fs) = Inr (listening, fs)" for db fs
    unfolding pasv_turn pasv_event_def
    by (simp add: handlePasv_def openDataConnectionPassive_def listening_def Let_def)
  then show ?thesis
    by (simp add: new_ftp_server_def accept_connection_def two_sessions_def flip: fresh_def)
qed

theorem second_passive_session_wedged_witness:
  "\<exists>srv'. ftp_server_run [Session_Turn 1 ((good_env [])\<lparr>e_acc_bind := False\<rparr>) pasv_event,
      Session_Turn 0 (good_env []) (Read_Failed 2), Session_Turn 1 (good_env []) pasv_event] two_sessions = Inr srv'
    \<and> dataSocket (f_sessions srv' ! 1) = Ds_Closed
    \<and> ftp_server_run [New_Connection True (Some ''/home/u''), New_Connection True (Some ''/home/u''),
        Session_Turn 0 (good_env []) pasv_event] (new_ftp_server (ftp_fs0 (\<lambda>_. None))) = Inr two_sessions"
proof -
  let ?env = "(good_env [])\<lparr>e_acc_bind := False\<rparr>"
  let ?es = "[Session_Turn 0 (good_env []) (Read_Failed 2), Session_Turn 1 (good_env []) pasv_event]"
  have s: "f_sessions two_sessions = [listening, fresh]" by (simp add: two_sessions_def)
  have pre: "port_busy two_sessions 1" "one_listener two_sessions 1 ?env" "1 < length (f_sessions two_sessions)"
    "ctrl_open (f_sessions two_sessions ! 1)" "dataSocket (f_sessions two_sessions ! 1) = Ds_Closed"
    "\<not> acceptorOpen (f_sessions two_sessions ! 1)" "e_acc_open ?env"
    by (auto simp: port_busy_def one_listener_def s listening_def intro!: exI [of _ 0])
  have turn: "ftp_turn db env pasv_event (t, fs) = (case handlePasv env (t, fs) of
     Inr (s', fs') \<Rightarrow> Inr (if quitCmdLoop s' then s'\<lparr>ctrl_open := False\<rparr> else s', fs')
   | Inl (Std_Exception x) \<Rightarrow> Inr (t\<lparr>ctrl_open := False\<rparr>, fs) | Inl e \<Rightarrow> Inl e)" for db env t fs
    unfolding pasv_event_def by (rule pasv_turn)
  have rf: "ftp_turn db env (Read_Failed 2) (t, fs) = Inr (t\<lparr>ctrl_open := False\<rparr>, fs)" for db env t fs
    by (simp add: ftp_turn_def)
  have "\<exists>srv'. ftp_server_run (Session_Turn 1 ?env pasv_event # ?es) two_sessions = Inr srv'"
    by (simp add: s turn rf handlePasv_def openDataConnectionPassive_def Let_def listening_def)
  then obtain srv' where run: "ftp_server_run (Session_Turn 1 ?env pasv_event # ?es) two_sessions = Inr srv'" by blast
  have "map toupper ''PASV'' = ''PASV''" by (simp add: toupper_def)
  then have "no_port_commands 1 ?es" using pasv_line by (auto simp: no_port_commands_def is_port_command_def pasv_event_def)
  from second_passive_session_wedged [OF pre run [unfolded pasv_event_def] this [unfolded pasv_event_def]] run two_sessions_run
  show ?thesis unfolding pasv_event_def by blast
qed

end
