(* ===== verification/FTP_Dialogue.thy ===== *)
theory FTP_Dialogue
  imports FTP_Properties
begin

text \<open>
  A whole session of the FTP server as its client sees it: login, an upload and a download over passive
  connections and the end, command line by command line through the loop of the worker thread.
\<close>

section \<open>One command line\<close>

definition command_lines :: "ftp_env \<Rightarrow> string list \<Rightarrow> (ftp_env \<times> ftp_event) list" where
  "command_lines env cs = map (\<lambda>c. (env, Received_Text (c @ CRLF))) cs"

lemma command_lines_simps [simp]:
  "command_lines env [] = []"
  "command_lines env (c # cs) = (env, Received_Text (c @ CRLF)) # command_lines env cs"
  by (simp_all add: command_lines_def)

lemma worker_command:
  assumes "ctrl_open s" "CHR 0x0D \<notin> set c" "executeCommand db env c (s, fs) = Inr (s', fs')" "\<not> quitCmdLoop s'"
  shows "worker db ((env, Received_Text (c @ CRLF)) # es) (s, fs) = worker db es (s', fs')"
proof -
  have "first_line (c @ CRLF) = c" using first_line_CRLF [OF assms(2), of "[]"] by simp
  then show ?thesis using assms by (simp add: ftp_turn_def)
qed

lemma worker_quit:
  assumes "ctrl_open s" "CHR 0x0D \<notin> set c" "executeCommand db env c (s, fs) = Inr (s', fs')" "quitCmdLoop s'"
  shows "worker db [(env, Received_Text (c @ CRLF))] (s, fs) = Inr (s'\<lparr>ctrl_open := False\<rparr>, fs')"
proof -
  have "first_line (c @ CRLF) = c" using first_line_CRLF [OF assms(2), of "[]"] by simp
  then show ?thesis using assms by (simp add: ftp_turn_def)
qed

section \<open>The commands of the session\<close>

text \<open>Between two commands, with no data connection.\<close>

definition ready_in :: "string \<Rightarrow> ftp_session \<Rightarrow> bool" where
  "ready_in dir s \<longleftrightarrow> currDir s = dir \<and> dataSocket s = Ds_Closed \<and> \<not> acceptorOpen s \<and> transferType s = Transfer_Binary
     \<and> ctrl_open s \<and> \<not> quitCmdLoop s"

definition passive_ok :: "ftp_env \<Rightarrow> bool" where
  "passive_ok env \<longleftrightarrow> e_acc_open env \<and> e_acc_reuse env \<and> e_acc_bind env \<and> e_acc_listen env \<and> e_acc_accept env"

lemma user_command:
  assumes "ready_in dir s" "usernameIsKnown db u"
  shows "\<exists>s'. executeCommand db env (''USER'' @ '' '' @ u) (s, fs) = Inr (s', fs) \<and> ready_in dir s' \<and> f_username s' = u
    \<and> data_out s' = data_out s \<and> reply_codes s' = reply_codes s @ [''331'']"
proof -
  have w: "map toupper ''USER'' = ''USER''" "CHR '' '' \<notin> set ''USER''" by (simp_all add: toupper_def)
  show ?thesis unfolding executeCommand_word(5) [OF w(2,1)]
    using assms by (simp add: handleUser_def ready_in_def)
qed

lemma pass_command:
  assumes "ready_in dir s" "f_username s = u" "u \<noteq> []" "db u = Some pw"
  shows "\<exists>s'. executeCommand db env (''PASS'' @ '' '' @ pw) (s, fs) = Inr (s', fs) \<and> ready_in dir s'
    \<and> data_out s' = data_out s \<and> reply_codes s' = reply_codes s @ [''230'']"
proof -
  have w: "map toupper ''PASS'' = ''PASS''" "CHR '' '' \<notin> set ''PASS''" by (simp_all add: toupper_def)
  show ?thesis unfolding executeCommand_word(4) [OF w(2,1)]
    using assms by (simp add: handlePass_def passwordIsValid_def ready_in_def)
qed

lemma pasv_command:
  assumes "ready_in dir s" "passive_ok env"
  shows "\<exists>s'. executeCommand db env ''PASV'' (s, fs) = Inr (s', fs) \<and> connected s' \<and> currDir s' = dir
    \<and> transferType s' = Transfer_Binary \<and> ctrl_open s' \<and> \<not> quitCmdLoop s'
    \<and> data_out s' = data_out s \<and> reply_codes s' = reply_codes s @ [''227'']"
proof -
  have w: "map toupper ''PASV'' = ''PASV''" "CHR '' '' \<notin> set ''PASV''" by (simp_all add: toupper_def)
  have code: "take 3 (pasv_reply port @ CRLF) = ''227''" for port by (simp add: pasv_reply_text)
  show ?thesis unfolding executeCommand_word(9) [OF w(2,1)]
    using assms by (simp add: handlePasv_def openDataConnectionPassive_def Let_def ready_in_def passive_ok_def connected_def code [simplified])
qed

lemma quit_command:
  assumes "ready_in dir s"
  shows "\<exists>s'. executeCommand db env ''QUIT'' (s, fs) = Inr (s', fs) \<and> quitCmdLoop s' \<and> dataSocket s' = Ds_Closed
    \<and> data_out s' = data_out s \<and> reply_codes s' = reply_codes s @ [''221'']"
proof -
  have "executeCommand db env ''QUIT'' (s, fs) = handleQuit (s, fs)"
    by (simp add: executeCommand_def upper_defs find_char_def)
  then show ?thesis using assms by (simp add: handleQuit_def ready_in_def reply_codes_def)
qed

section \<open>The session\<close>

lemma session_dialogue:
  assumes "ready_in dir s" "db u = Some pw" "u \<noteq> []" "CHR 0x0D \<notin> set u" "CHR 0x0D \<notin> set pw" "CHR 0x0D \<notin> set name"
    and "p = path_append dir name" "fs_creatable fs p" "\<not> fs_is_directory fs p" "\<not> fs_denied fs p"
    and "passive_ok env" "e_reads env = bs @ [b]" "\<forall>x \<in> set bs. length x = 512" "length b < 512"
    and "e_readable env p" "\<forall>k. e_write_ok env k" "\<forall>n > 0. 0 < e_in_avail env n"
  shows "\<exists>s'. worker db (command_lines env [''USER'' @ '' '' @ u, ''PASS'' @ '' '' @ pw, ''PASV'', ''STOR'' @ '' '' @ name,
        ''PASV'', ''RETR'' @ '' '' @ name, ''QUIT'']) (s, fs) = Inr (s', set_file p (concat bs @ b) fs)
    \<and> data_out s' = data_out s @ concat bs @ b \<and> \<not> ctrl_open s' \<and> dataSocket s' = Ds_Closed
    \<and> reply_codes s' = reply_codes s @ [''331'', ''230'', ''227'', ''150'', ''226'', ''227'', ''150'', ''226'', ''221'']"
proof -
  let ?fs = "set_file p (concat bs @ b) fs"
  have words: "map toupper ''STOR'' = ''STOR''" "CHR '' '' \<notin> set ''STOR''" "map toupper ''RETR'' = ''RETR''" "CHR '' '' \<notin> set ''RETR''"
    by (simp_all add: toupper_def)
  have taken: "taken_blocks (e_reads env) = bs @ [b]"
    using assms(12-14) by (simp add: taken_blocks_def takeWhile_append dropWhile_append)
  have le: "\<forall>x \<in> set (e_reads env). length x \<le> 512" and ex: "\<exists>x \<in> set (e_reads env). length x < 512"
    using assms(12-14) by auto
  have id: "stored_form Transfer_Binary = (\<lambda>x. x)" by (simp add: stored_form_def fun_eq_iff)
  have known: "usernameIsKnown db u" using assms(2) by (simp add: usernameIsKnown_def)
  obtain s1 where 1: "executeCommand db env (''USER'' @ '' '' @ u) (s, fs) = Inr (s1, fs)" "ready_in dir s1" "f_username s1 = u"
    "data_out s1 = data_out s" "reply_codes s1 = reply_codes s @ [''331'']"
    using user_command [OF assms(1) known] by blast
  obtain s2 where 2: "executeCommand db env (''PASS'' @ '' '' @ pw) (s1, fs) = Inr (s2, fs)" "ready_in dir s2"
    "data_out s2 = data_out s1" "reply_codes s2 = reply_codes s1 @ [''230'']"
    using pass_command [where db = db, OF 1(2,3) assms(3,2)] by blast
  obtain s3 where 3: "executeCommand db env ''PASV'' (s2, fs) = Inr (s3, fs)" "connected s3" "currDir s3 = dir"
    "transferType s3 = Transfer_Binary" "ctrl_open s3" "\<not> quitCmdLoop s3" "data_out s3 = data_out s2"
    "reply_codes s3 = reply_codes s2 @ [''227'']"
    using pasv_command [OF 2(2) assms(11)] by blast
  have p3: "p = path_append (currDir s3) name" using assms(7) 3(3) by simp
  obtain s4 where 4: "executeCommand db env (''STOR'' @ '' '' @ name) (s3, fs) = Inr (s4, ?fs)" "ready_in dir s4"
    "data_out s4 = data_out s3" "reply_codes s4 = reply_codes s3 @ [''150'', ''226'']"
    using store [OF 3(2) p3 assms(8,9) le] ex taken 3 unfolding executeCommand_word(2) [OF words(2,1)]
    by (auto simp: id ready_in_def same_loop_def)
  obtain s5 where 5: "executeCommand db env ''PASV'' (s4, ?fs) = Inr (s5, ?fs)" "connected s5" "currDir s5 = dir"
    "transferType s5 = Transfer_Binary" "ctrl_open s5" "\<not> quitCmdLoop s5" "data_out s5 = data_out s4"
    "reply_codes s5 = reply_codes s4 @ [''227'']"
    using pasv_command [OF 4(2) assms(11)] by blast
  have p5: "\<not> fs_denied ?fs p" "fs_files ?fs p = Some (concat bs @ b)" "p = path_append (currDir s5) name"
    using assms(7,10) 5(3) by simp_all
  obtain s6 where 6: "executeCommand db env (''RETR'' @ '' '' @ name) (s5, ?fs) = Inr (s6, ?fs)"
    "data_out s6 = data_out s5 @ concat bs @ b" "reply_codes s6 = reply_codes s5 @ [''150'', ''226'']" "ready_in dir s6"
    using retrieve [OF 5(2) p5 assms(15-17)] 5 unfolding executeCommand_word(1) [OF words(4,3)]
    by (auto simp: sent_form_def ready_in_def same_loop_def)
  obtain s7 where 7: "executeCommand db env ''QUIT'' (s6, ?fs) = Inr (s7, ?fs)" "quitCmdLoop s7" "dataSocket s7 = Ds_Closed"
    "data_out s7 = data_out s6" "reply_codes s7 = reply_codes s6 @ [''221'']"
    using quit_command [OF 6(4)] by blast
  have c: "ctrl_open s" "ctrl_open s1" "ctrl_open s2" "ctrl_open s4" "ctrl_open s6" and q: "\<not> quitCmdLoop s1" "\<not> quitCmdLoop s2"
    "\<not> quitCmdLoop s4" "\<not> quitCmdLoop s6"
    using assms(1) 1(2) 2(2) 4(2) 6(4) by (simp_all add: ready_in_def)
  have cr: "CHR 0x0D \<notin> set (''USER'' @ '' '' @ u)" "CHR 0x0D \<notin> set (''PASS'' @ '' '' @ pw)" "CHR 0x0D \<notin> set ''PASV''"
    "CHR 0x0D \<notin> set (''STOR'' @ '' '' @ name)" "CHR 0x0D \<notin> set (''RETR'' @ '' '' @ name)" "CHR 0x0D \<notin> set ''QUIT''"
    using assms(4-6) by simp_all
  have "worker db (command_lines env [''USER'' @ '' '' @ u, ''PASS'' @ '' '' @ pw, ''PASV'', ''STOR'' @ '' '' @ name,
        ''PASV'', ''RETR'' @ '' '' @ name, ''QUIT'']) (s, fs) = Inr (s7\<lparr>ctrl_open := False\<rparr>, ?fs)"
    unfolding command_lines_simps
      worker_command [OF c(1) cr(1) 1(1) q(1)] worker_command [OF c(2) cr(2) 2(1) q(2)] worker_command [OF c(3) cr(3) 3(1,6)]
      worker_command [OF 3(5) cr(4) 4(1) q(3)] worker_command [OF c(4) cr(3) 5(1,6)] worker_command [OF 5(5) cr(5) 6(1) q(4)]
    by (rule worker_quit [OF c(5) cr(6) 7(1,2)])
  then show ?thesis
    using 1 2 3 4 5 6 7 by (intro exI [of _ "s7\<lparr>ctrl_open := False\<rparr>"]) (simp add: reply_codes_def)
qed

text \<open>C6: A whole session works: from the greeting of a new connection, a client that logs in as the test user, stores a
  file over a passive connection, takes it back over another and quits is answered 220, 331, 230, 227, 150, 226, 227,
  150, 226 and 221; the file holds the blocks that were sent, exactly these bytes came back, and both connections
  are closed. The names must be free of carriage returns, the last block not full, and the calls must succeed.\<close>
theorem ftp_session_works:
  assumes "CHR 0x0D \<notin> set name" "p = path_append home name" "fs_creatable fs p" "\<not> fs_is_directory fs p" "\<not> fs_denied fs p"
    and "passive_ok env" "e_reads env = bs @ [b]" "\<forall>x \<in> set bs. length x = 512" "length b < 512"
    and "e_readable env p" "\<forall>k. e_write_ok env k" "\<forall>n > 0. 0 < e_in_avail env n"
  shows "\<exists>s'. worker (loadFromFile ''users-db.txt'' db) (command_lines env [''USER'' @ '' '' @ ''testuser'', ''PASS'' @ '' '' @ ''testpassword'',
        ''PASV'', ''STOR'' @ '' '' @ name, ''PASV'', ''RETR'' @ '' '' @ name, ''QUIT'']) (ftp_start (new_ftp_session port home), fs)
          = Inr (s', set_file p (concat bs @ b) fs)
    \<and> data_out s' = concat bs @ b \<and> \<not> ctrl_open s' \<and> dataSocket s' = Ds_Closed
    \<and> reply_codes s' = [''220'', ''331'', ''230'', ''227'', ''150'', ''226'', ''227'', ''150'', ''226'', ''221'']"
proof -
  let ?s = "ftp_start (new_ftp_session port home)"
  have "ready_in home ?s" "data_out ?s = []" "reply_codes ?s = [''220'']"
    by (simp_all add: ready_in_def ftp_start_def new_ftp_session_def reply_codes_def)
  moreover have "loadFromFile ''users-db.txt'' db ''testuser'' = Some ''testpassword''" by (simp add: loadFromFile_def)
  ultimately show ?thesis
    using session_dialogue [of home ?s "loadFromFile ''users-db.txt'' db" "''testuser''" "''testpassword''" name p fs env bs b] assms
    by simp
qed

theorem ftp_session_works_witness:
  "\<exists>s'. worker (loadFromFile ''users-db.txt'' (\<lambda>_. None)) (command_lines (good_env [replicate 512 7, [1, 2]]) [''USER'' @ '' '' @ ''testuser'',
        ''PASS'' @ '' '' @ ''testpassword'', ''PASV'', ''STOR'' @ '' '' @ ''b'', ''PASV'', ''RETR'' @ '' '' @ ''b'', ''QUIT''])
        (ftp_start (new_ftp_session 10020 ''/home/u''), ftp_fs0 (\<lambda>_. None))
          = Inr (s', set_file ''/home/u/b'' (replicate 512 7 @ [1, 2]) (ftp_fs0 (\<lambda>_. None)))
    \<and> data_out s' = replicate 512 7 @ [1, 2]"
proof -
  let ?env = "good_env [replicate 512 7, [1, 2]]"
  have pre: "CHR 0x0D \<notin> set ''b''" "''/home/u/b'' = path_append ''/home/u'' ''b''" "fs_creatable (ftp_fs0 (\<lambda>_. None)) ''/home/u/b''"
    "\<not> fs_is_directory (ftp_fs0 (\<lambda>_. None)) ''/home/u/b''" "\<not> fs_denied (ftp_fs0 (\<lambda>_. None)) ''/home/u/b''"
    "passive_ok ?env" "e_reads ?env = [replicate 512 7] @ [[1, 2]]" "\<forall>x \<in> set [replicate 512 (7::u8)]. length x = 512"
    "length [1, 2::u8] < 512" "e_readable ?env ''/home/u/b''" "\<forall>k. e_write_ok ?env k" "\<forall>n > 0. 0 < e_in_avail ?env n"
    by (simp_all add: fs_is_directory_def path_append_def passive_ok_def good_env_def ftp_fs0_def)
  from ftp_session_works [OF pre, of "\<lambda>_. None" 10020]
  show ?thesis by (simp only: concat.simps append_Nil2) blast
qed

end
