(* ===== verification/FTP_Directories.thy ===== *)
theory FTP_Directories
  imports FTP_Dialogue
begin

text \<open>
  What the commands of the FTP server do to the file system: which path a command may change, a
  directory that is made, entered, left and removed, and the listing of a directory.
\<close>

section \<open>The path a command may change\<close>

definition command_word :: "string \<Rightarrow> string" where
  "command_word cmd = map toupper (case find_char (CHR '' '') cmd of Some p \<Rightarrow> take p cmd | None \<Rightarrow> cmd)"

text \<open>The word as it was sent.\<close>

definition command_chars :: "string \<Rightarrow> string" where
  "command_chars cmd = (case find_char (CHR '' '') cmd of Some p \<Rightarrow> take p cmd | None \<Rightarrow> cmd)"

definition command_args :: "string \<Rightarrow> string" where
  "command_args cmd = (case find_char (CHR '' '') cmd of Some p \<Rightarrow> drop (p + 1) cmd | None \<Rightarrow> [])"

definition unchanged_but :: "string \<Rightarrow> fsys \<Rightarrow> fsys \<Rightarrow> bool" where
  "unchanged_but p fs fs' \<longleftrightarrow> (\<forall>q. q \<noteq> p \<longrightarrow> fs_files fs' q = fs_files fs q \<and> (fs_dirs fs' q \<longleftrightarrow> fs_dirs fs q))"

lemma unchanged_refl [simp]: "unchanged_but p fs fs"
  by (simp add: unchanged_but_def)

lemma unchanged_ops [simp]:
  "unchanged_but p fs (set_file p d fs') = unchanged_but p fs fs'" "unchanged_but p fs (fs_remove p fs') = unchanged_but p fs fs'"
  "unchanged_but p fs (make_directory p fs') = unchanged_but p fs fs'"
  "unchanged_but p fs (remove_directory p fs') = unchanged_but p fs fs'"
  by (auto simp: unchanged_but_def make_directory_def remove_directory_def)

lemma receive_blocks_unchanged:
  "receive_blocks f bs (os, fs') = (ok, os', fs'') \<Longrightarrow> of_path os \<in> {None, Some p} \<Longrightarrow> unchanged_but p fs fs' \<Longrightarrow>
     unchanged_but p fs fs''"
proof (induction bs arbitrary: os fs')
  case (Cons b bs)
  obtain os1 fs1 where w: "of_write (f (take 512 b)) (os, fs') = (os1, fs1)" by fastforce
  then have "of_path os1 \<in> {None, Some p}" "unchanged_but p fs fs1"
    using Cons.prems(2,3) by (auto simp: of_write_def split: option.splits if_splits)
  then show ?case using Cons.IH Cons.prems(1) w by (auto simp: Let_def split: if_splits)
qed simp

lemma handleStor_unchanged:
  "holds (\<lambda>io'. unchanged_but (path_append (currDir s) args) fs (snd io')) (handleStor env args (s, fs))"
proof -
  let ?p = "path_append (currDir s) args"
  obtain os fs1 where o: "of_open ?p (of_closed, fs) = (os, fs1)" by fastforce
  then have "of_path os \<in> {None, Some ?p}" "unchanged_but ?p fs fs1"
    by (auto simp: of_open_def of_closed_def split: if_splits)
  then show ?thesis
    using receive_blocks_unchanged by (auto simp: handleStor_def o Let_def split: prod.split)
qed

lemma holds_if: "(c \<Longrightarrow> holds P x) \<Longrightarrow> (\<not> c \<Longrightarrow> holds P y) \<Longrightarrow> holds P (if c then x else y)"
  by simp

lemma readonly_handlers:
  "holds (\<lambda>io'. snd io' = fs) (handleCwd args (s, fs))" "holds (\<lambda>io'. snd io' = fs) (handlePort env args (s, fs))"
  "holds (\<lambda>io'. snd io' = fs) (handleEpsv env (s, fs))" "holds (\<lambda>io'. snd io' = fs) (handleFeat (s, fs))"
  "holds (\<lambda>io'. snd io' = fs) (handleNlst env args (s, fs))" "holds (\<lambda>io'. snd io' = fs) (handlePass db args (s, fs))"
  "holds (\<lambda>io'. snd io' = fs) (handlePasv env (s, fs))" "holds (\<lambda>io'. snd io' = fs) (handlePwd (s, fs))"
  "holds (\<lambda>io'. snd io' = fs) (handleQuit (s, fs))" "holds (\<lambda>io'. snd io' = fs) (handleRetr env args (s, fs))"
  "holds (\<lambda>io'. snd io' = fs) (handleSyst (s, fs))" "holds (\<lambda>io'. snd io' = fs) (handleType args (s, fs))"
  "holds (\<lambda>io'. snd io' = fs) (handleUser db args (s, fs))" "holds (\<lambda>io'. snd io' = fs) (say msg (s, fs))"
proof -
  show "holds (\<lambda>io'. snd io' = fs) (handleNlst env args (s, fs))"
    by (auto simp: handleNlst_def split: sum.split)
  show "holds (\<lambda>io'. snd io' = fs) (handleRetr env args (s, fs))"
    by (auto simp: handleRetr_def Let_def exists_or_throw_def case_prod_unfold)
qed (auto simp: handleCwd_def handlePort_def handleEpsv_def handleFeat_def handlePass_def handlePasv_def handlePwd_def
    handleQuit_def handleSyst_def handleType_def handleUser_def Let_def exists_or_throw_def case_prod_unfold
    intro!: holds_bind [where P = "\<lambda>_. True"])

lemma command_line_parts:
  "(case find_char (CHR '' '') cmd of Some p \<Rightarrow> (take p cmd, drop (p + 1) cmd) | None \<Rightarrow> (cmd, [])) = (command_chars cmd, command_args cmd)"
  by (simp add: command_args_def command_chars_def split: option.split)

lemma executeCommand_bad_word:
  "\<not> (\<forall>c \<in> set (command_chars cmd). toupper_ok c) \<Longrightarrow> executeCommand db env cmd io = Inl Bad_Character"
  unfolding executeCommand_def command_line_parts prod.case Let_def by (simp only: uppercase_eq if_False bind_res_Inl)

text \<open>One case per command word: what holds of every handler holds of the dispatcher.\<close>

lemma executeCommand_cases:
  assumes "Q ''CWD'' (handleCwd (command_args cmd) io)" "Q ''DELE'' (handleDele env (command_args cmd) io)"
    "Q ''EPRT'' (handlePort env (command_args cmd) io)" "Q ''EPSV'' (handleEpsv env io)" "Q ''FEAT'' (handleFeat io)"
    "Q ''LIST'' (handleNlst env (command_args cmd) io)" "Q ''NLST'' (handleNlst env (command_args cmd) io)"
    "Q ''MKD'' (handleMkd env (command_args cmd) io)" "Q ''PASS'' (handlePass db (command_args cmd) io)"
    "Q ''PASV'' (handlePasv env io)" "Q ''PORT'' (handlePort env (strip_brackets (command_args cmd)) io)"
    "Q ''PWD'' (handlePwd io)" "Q ''QUIT'' (handleQuit io)" "Q ''RETR'' (handleRetr env (command_args cmd) io)"
    "Q ''RMD'' (handleRmd env (command_args cmd) io)" "Q ''SYST'' (handleSyst io)"
    "Q ''STOR'' (handleStor env (command_args cmd) io)" "Q ''TYPE'' (handleType (command_args cmd) io)"
    "Q ''USER'' (handleUser db (command_args cmd) io)"
    "command_word cmd \<notin> {''CWD'', ''DELE'', ''EPRT'', ''EPSV'', ''FEAT'', ''LIST'', ''NLST'', ''MKD'', ''PASS'', ''PASV'', ''PORT'',
       ''PWD'', ''QUIT'', ''RETR'', ''RMD'', ''SYST'', ''STOR'', ''TYPE'', ''USER''} \<Longrightarrow>
     Q (command_word cmd) (say ''500 Unknown command'' io)"
    "\<not> (\<forall>c \<in> set (command_chars cmd). toupper_ok c) \<Longrightarrow> Q (command_word cmd) (Inl Bad_Character)"
  shows "Q (command_word cmd) (executeCommand db env cmd io)"
proof -
  have word: "map toupper (command_chars cmd) = command_word cmd" by (simp add: command_word_def command_chars_def)
  have q_if: "Q w (if w = v then x else y)" if "w = v \<Longrightarrow> Q v x" "w \<noteq> v \<Longrightarrow> Q w y" for w v x y
    using that by simp
  show ?thesis
  proof (cases "\<forall>c \<in> set (command_chars cmd). toupper_ok c")
    case True
    then have up: "uppercase (command_chars cmd) = Inr (command_word cmd)" unfolding uppercase_eq word by (rule if_P)
    show ?thesis
      unfolding executeCommand_def command_line_parts prod.case Let_def up bind_res_Inr parseExtendedArguments_def
      by (intro q_if; (rule assms)?) simp_all
  next
    case False
    then show ?thesis unfolding executeCommand_bad_word [OF False] by (rule assms(21))
  qed
qed

definition may_change :: "string \<Rightarrow> string \<Rightarrow> fsys \<Rightarrow> ftp_io \<Rightarrow> bool" where
  "may_change w p fs io' \<longleftrightarrow>
     snd io' = fs \<or> w \<in> {''STOR'', ''MKD'', ''RMD'', ''DELE''} \<and> unchanged_but p fs (snd io')"

lemma may_change_readonly: "holds (\<lambda>io'. snd io' = fs) m \<Longrightarrow> holds (may_change w p fs) m"
  by (erule holds_mono) (simp add: may_change_def)

lemma may_change_handlers:
  "holds (may_change ''STOR'' (path_append (currDir s) args) fs) (handleStor env args (s, fs))"
  "holds (may_change ''MKD'' (path_append (currDir s) args) fs) (handleMkd env args (s, fs))"
  "holds (may_change ''RMD'' (path_append (currDir s) args) fs) (handleRmd env args (s, fs))"
  "holds (may_change ''DELE'' (path_append (currDir s) args) fs) (handleDele env args (s, fs))"
  using handleStor_unchanged [of s args fs env]
  by (auto simp: may_change_def handleMkd_def handleRmd_def handleDele_def Let_def holds_def exists_or_throw_def say_def bind_res_eq_Inr
      split: if_splits)

lemma executeCommand_may_change:
  "holds (may_change (command_word cmd) (path_append (currDir s) (command_args cmd)) fs) (executeCommand db env cmd (s, fs))"
  by (rule executeCommand_cases [where Q = "\<lambda>w. holds (may_change w (path_append (currDir s) (command_args cmd)) fs)"];
      (rule readonly_handlers [THEN may_change_readonly])?; simp only: may_change_handlers holds_simps)

text \<open>C14: A command changes the file system at most at the one path its argument names in the current directory, and only
  STOR, MKD, RMD and DELE change anything, with any arguments, in any state and whatever the system answers.\<close>
theorem command_changes_one_path:
  assumes "ftp_turn db env (Received_Text t) (s, fs) = Inr (s', fs')"
  shows "fs' = fs \<or> command_word (first_line t) \<in> {''STOR'', ''MKD'', ''RMD'', ''DELE''}
    \<and> unchanged_but (path_append (currDir s) (command_args (first_line t))) fs fs'"
proof (cases "executeCommand db env (first_line t) (s, fs)")
  case (Inl f)
  with assms show ?thesis by (cases f) (simp_all add: ftp_turn_def)
next
  case (Inr io')
  with assms have "snd io' = fs'" by (cases io') (simp add: ftp_turn_def)
  with holdsD [OF executeCommand_may_change Inr] show ?thesis by (simp add: may_change_def)
qed

theorem command_changes_one_path_witness:
  "\<exists>s' fs'. ftp_turn (\<lambda>_. None) (good_env []) (Received_Text (''MKD d'' @ CRLF)) (ftp_s0, ftp_fs0 (\<lambda>_. None)) = Inr (s', fs')
    \<and> fs_dirs fs' ''/home/u/d'' \<and> unchanged_but ''/home/u/d'' (ftp_fs0 (\<lambda>_. None)) fs'"
proof -
  have l: "first_line (''MKD d'' @ CRLF) = ''MKD d''" using first_line_CRLF [of "''MKD d''" "[]"] by simp
  have "\<exists>s' fs'. ftp_turn (\<lambda>_. None) (good_env []) (Received_Text (''MKD d'' @ CRLF)) (ftp_s0, ftp_fs0 (\<lambda>_. None)) = Inr (s', fs')
      \<and> fs_dirs fs' ''/home/u/d''"
    unfolding ftp_turn_def prod.case ftp_event.case l
    by (simp add: executeCommand_def find_char_def upper_defs handleMkd_def Let_def alnum_name_def fs_exists_def make_directory_def say_def
        good_env_def)
  then obtain s' fs' where r: "ftp_turn (\<lambda>_. None) (good_env []) (Received_Text (''MKD d'' @ CRLF)) (ftp_s0, ftp_fs0 (\<lambda>_. None)) = Inr (s', fs')"
    "fs_dirs fs' ''/home/u/d''" by blast
  from command_changes_one_path [OF r(1)] r show ?thesis
    unfolding l by (auto simp: command_args_def find_char_def)
qed

section \<open>Made, entered, left and removed\<close>

text \<open>Between two commands of the loop.\<close>

definition in_loop :: "ftp_session \<Rightarrow> bool" where
  "in_loop s \<longleftrightarrow> ctrl_open s \<and> \<not> quitCmdLoop s"

lemma executeCommand_directory:
  "executeCommand db env (''MKD'' @ '' '' @ args) io = handleMkd env args io"
  "executeCommand db env (''RMD'' @ '' '' @ args) io = handleRmd env args io"
  "executeCommand db env (''CWD'' @ '' '' @ args) io = handleCwd args io"
  "executeCommand db env (''NLST'' @ '' '' @ args) io = handleNlst env args io"
  "executeCommand db env (''LIST'' @ '' '' @ args) io = handleNlst env args io"
  "executeCommand db env ''PWD'' io = handlePwd io"
  by (simp_all add: executeCommand_def find_char_def upper_defs)

lemma alnum_name_plain:
  assumes "alnum_name d"
  shows "d \<noteq> []" "CHR ''/'' \<notin> set d" "CHR 0x0D \<notin> set d" "d \<noteq> ''..''" "d \<noteq> ''.''"
  using assms by (auto simp: alnum_name_def list_all_iff Let_def)

lemma making_removing:
  assumes "\<not> fs_exists fs p"
  shows "remove_directory p (make_directory p fs) = fs" "fs_is_directory (make_directory p fs) p"
  using assms by (cases fs; auto simp: make_directory_def remove_directory_def fs_exists_def fs_is_directory_def)+

lemma cwd_into:
  assumes "\<not> fs_denied fs p" "fs_is_directory fs p"
    and "p = (if args = ''..'' then parent_path (currDir s) else path_append (currDir s) args)" "args \<noteq> []" "args \<noteq> ''.''"
  shows "handleCwd args (s, fs) = Inr (sendMessageToClient (''250 The current directory has been changed to '' @ p) (s\<lparr>currDir := p\<rparr>), fs)"
proof -
  have dir: "(if args = ''..'' then parent_path (currDir s) else if args \<noteq> [] \<and> args \<noteq> ''.'' then path_append (currDir s) args
      else currDir s) = p"
    unfolding assms(3) using assms(4,5) by (simp only: if_True if_False simp_thms)
  have ex: "exists_or_throw fs p = Inr True"
    using assms(1,2) by (simp add: exists_or_throw_def fs_exists_def fs_is_directory_def)
  show ?thesis
    unfolding handleCwd_def prod.case Let_def dir ex bind_res_Inr using assms(2) by simp
qed

text \<open>C12: A directory can be made, entered, left and removed again: five commands in a row, the name made of letters and
  digits and not in use, leave the file system and the current directory as they were; the replies are 250, 250, 257, 250
  and 250, and the third one names the new directory.\<close>
theorem directory_roundtrip:
  assumes "in_loop s" "currDir s = abs_path ns" "plain_names ns" "alnum_name d" "p = abs_path (ns @ [d])"
    and "\<not> fs_exists fs p" "\<not> fs_denied fs p" "fs_is_directory fs (abs_path ns)" "\<not> fs_denied fs (abs_path ns)"
    and "e_mkdir_ok env p" "e_remove_ok env p"
  shows "\<exists>s'. worker db (command_lines env [''MKD'' @ '' '' @ d, ''CWD'' @ '' '' @ d, ''PWD'', ''CWD'' @ '' '' @ ''..'', ''RMD'' @ '' '' @ d]) (s, fs)
      = Inr (s', fs) \<and> currDir s' = currDir s \<and> in_loop s'
    \<and> reply_codes s' = reply_codes s @ [''250'', ''250'', ''257'', ''250'', ''250'']
    \<and> ctrl_out s' ! (length (ctrl_out s) + 2) = ''257 '' @ [CHR 0x22] @ p @ [CHR 0x22] @ CRLF"
proof -
  note nm = alnum_name_plain [OF assms(4)]
  have names: "plain_names (ns @ [d])" using assms(3) nm by (simp add: plain_names_def)
  have app: "path_append (abs_path ns) d = p" using path_append_abs [OF names] assms(5) by simp
  have par: "parent_path p = abs_path ns" using parent_abs_path [OF names] assms(5) by simp
  let ?fs = "make_directory p fs"
  have den: "fs_denied ?fs = fs_denied fs" by (simp add: make_directory_def)
  note mk = making_removing [OF assms(6)]
  have up: "fs_is_directory ?fs (abs_path ns)" using assms(8) by (simp add: make_directory_def fs_is_directory_def)
  define s1 where "s1 = sendMessageToClient ''250 Directory successfully created'' s"
  define s2 where "s2 = sendMessageToClient (''250 The current directory has been changed to '' @ p) (s1\<lparr>currDir := p\<rparr>)"
  define s3 where "s3 = sendMessageToClient (''257 '' @ [CHR 0x22] @ p @ [CHR 0x22]) s2"
  define s4 where "s4 = sendMessageToClient (''250 The current directory has been changed to '' @ abs_path ns) (s3\<lparr>currDir := abs_path ns\<rparr>)"
  define s5 where "s5 = sendMessageToClient ''250 Directory successfully removed'' s4"
  have cd: "currDir s1 = abs_path ns" "currDir s2 = p" "currDir s3 = p" "currDir s4 = abs_path ns" "currDir s5 = abs_path ns"
    using assms(2) by (simp_all add: s1_def s2_def s3_def s4_def s5_def)
  have 1: "executeCommand db env (''MKD'' @ '' '' @ d) (s, fs) = Inr (s1, ?fs)"
    unfolding executeCommand_directory using assms(2,4,6,10) app by (simp add: handleMkd_def Let_def s1_def)
  have 2: "executeCommand db env (''CWD'' @ '' '' @ d) (s1, ?fs) = Inr (s2, ?fs)"
    unfolding executeCommand_directory s2_def using cd(1) app nm den assms(7) mk(2) by (intro cwd_into) simp_all
  have 3: "executeCommand db env ''PWD'' (s2, ?fs) = Inr (s3, ?fs)"
    unfolding executeCommand_directory s3_def handlePwd_def using cd(2) by simp
  have 4: "executeCommand db env (''CWD'' @ '' '' @ ''..'') (s3, ?fs) = Inr (s4, ?fs)"
    unfolding executeCommand_directory s4_def using cd(3) par den assms(9) up by (intro cwd_into) simp_all
  have 5: "executeCommand db env (''RMD'' @ '' '' @ d) (s4, ?fs) = Inr (s5, fs)"
    unfolding executeCommand_directory using cd(4) app assms(4,7,11) mk den by (simp add: handleRmd_def Let_def s5_def)
  have lp: "ctrl_open s" "ctrl_open s1" "ctrl_open s2" "ctrl_open s3" "ctrl_open s4" "ctrl_open s5" "\<not> quitCmdLoop s1" "\<not> quitCmdLoop s2"
    "\<not> quitCmdLoop s3" "\<not> quitCmdLoop s4" "\<not> quitCmdLoop s5"
    using assms(1) by (simp_all add: in_loop_def s1_def s2_def s3_def s4_def s5_def)
  have cr: "CHR 0x0D \<notin> set (''MKD'' @ '' '' @ d)" "CHR 0x0D \<notin> set (''CWD'' @ '' '' @ d)" "CHR 0x0D \<notin> set ''PWD''"
    "CHR 0x0D \<notin> set (''CWD'' @ '' '' @ ''..'')" "CHR 0x0D \<notin> set (''RMD'' @ '' '' @ d)"
    using nm(3) by simp_all
  have "worker db (command_lines env [''MKD'' @ '' '' @ d, ''CWD'' @ '' '' @ d, ''PWD'', ''CWD'' @ '' '' @ ''..'', ''RMD'' @ '' '' @ d]) (s, fs)
      = Inr (s5, fs)"
    unfolding command_lines_simps worker_command [OF lp(1) cr(1) 1 lp(7)] worker_command [OF lp(2) cr(2) 2 lp(8)]
      worker_command [OF lp(3) cr(3) 3 lp(9)] worker_command [OF lp(4) cr(4) 4 lp(10)] worker_command [OF lp(5) cr(5) 5 lp(11)]
    by simp
  then show ?thesis
    using lp(6,11) assms(2) cd(5)
    by (intro exI [of _ s5]) (simp add: in_loop_def s1_def s2_def s3_def s4_def s5_def nth_append)
qed

theorem directory_roundtrip_witness:
  "\<exists>s'. worker (\<lambda>_. None) (command_lines (good_env []) [''MKD'' @ '' '' @ ''d'', ''CWD'' @ '' '' @ ''d'', ''PWD'',
      ''CWD'' @ '' '' @ ''..'', ''RMD'' @ '' '' @ ''d'']) (ftp_start (new_ftp_session 10020 ''/home/u''), ftp_fs0 (\<lambda>_. None))
        = Inr (s', ftp_fs0 (\<lambda>_. None)) \<and> currDir s' = ''/home/u'' \<and> ctrl_out s' ! 3 = ''257 '' @ [CHR 0x22] @ ''/home/u/d'' @ [CHR 0x22] @ CRLF"
proof -
  let ?s = "ftp_start (new_ftp_session 10020 ''/home/u'')" and ?fs = "ftp_fs0 (\<lambda>_. None)"
  have pre: "in_loop ?s" "currDir ?s = abs_path [''home'', ''u'']" "plain_names [''home'', ''u'']" "alnum_name ''d''"
    "''/home/u/d'' = abs_path ([''home'', ''u''] @ [''d''])" "\<not> fs_exists ?fs ''/home/u/d''" "\<not> fs_denied ?fs ''/home/u/d''"
    "fs_is_directory ?fs (abs_path [''home'', ''u''])" "\<not> fs_denied ?fs (abs_path [''home'', ''u''])"
    "e_mkdir_ok (good_env []) ''/home/u/d''" "e_remove_ok (good_env []) ''/home/u/d''"
    by (simp_all add: in_loop_def ftp_start_def new_ftp_session_def abs_path_def plain_names_def alnum_name_def fs_exists_def
        fs_is_directory_def good_env_def)
  have len: "length (ctrl_out ?s) + 2 = 3" "currDir ?s = ''/home/u''" by (simp_all add: ftp_start_def new_ftp_session_def)
  from directory_roundtrip [OF pre, of "\<lambda>_. None"] show ?thesis unfolding len by blast
qed

section \<open>Listings\<close>

lemma send_listing_all:
  assumes "connected s" "\<forall>k. e_write_ok env k"
  shows "send_listing env k ls s = s\<lparr>data_out := data_out s @ to_bytes (concat (map (\<lambda>l. l @ CRLF) ls))\<rparr>"
  using assms(1)
proof (induction ls arbitrary: k s)
  case (Cons l ls)
  let ?s = "s\<lparr>data_out := data_out s @ to_bytes (l @ CRLF)\<rparr>"
  have "connected ?s" using Cons.prems by (simp add: connected_def)
  from Cons.IH [OF this] show ?case
    using Cons.prems assms(2) by (simp add: sendAsciiDataToClient_def sendDataToClient_def to_bytes_def)
qed simp

text \<open>The line of an entry: the size of a file in sixteen digits or the mark of a directory, the time and the name.\<close>

definition listing_line :: "fsys \<Rightarrow> string \<Rightarrow> string \<times> string \<Rightarrow> string" where
  "listing_line fs dir e =
     (case fs_files fs (path_append dir (fst e)) of
        Some d \<Rightarrow> zero_pad 16 (dec_of_nat (length d))
      | None \<Rightarrow> if fs_dirs fs (path_append dir (fst e)) then '' -- directory    '' else ''                '')
     @ [CHR 0x09] @ snd e @ [CHR 0x09] @ fst e"

lemma entry_lines:
  "\<forall>(n, t) \<in> set es. \<not> fs_denied fs (path_append dir n) \<Longrightarrow>
     concat (map (entry_line fs dir) (map (\<lambda>(n, t). (n, Some t)) es)) = map (listing_line fs dir) es"
  by (induction es) (auto simp: entry_line_def listing_line_def Let_def split: option.split)

text \<open>NLST and LIST send one line for every entry of the directory, in the order of the system, over a working data
  connection, answer 125 and 226 and close it; an empty directory is reported as missing with 550.\<close>
theorem listing_sent:
  assumes "connected s" "\<forall>k. e_write_ok env k" "p = path_append (currDir s) args" "fs_is_directory fs p" "\<not> fs_denied fs p"
    and "e_listing env p = Some (map (\<lambda>(n, t). (n, Some t)) es)" "\<forall>(n, t) \<in> set es. \<not> fs_denied fs (path_append p n)"
    and "w \<in> {''NLST'', ''LIST''}"
  shows "\<exists>s'. executeCommand db env (w @ '' '' @ args) (s, fs) = Inr (s', fs) \<and> dataSocket s' = Ds_Closed
    \<and> reply_codes s' = reply_codes s @ (if es = [] then [''550''] else [''125'', ''226''])
    \<and> data_out s' = data_out s @ to_bytes (concat (map (\<lambda>e. listing_line fs p e @ CRLF) es))"
proof -
  have open_ds: "dataSocket s \<noteq> Ds_Closed" using assms(1) by (auto simp: connected_def)
  have conn: "connected (sendMessageToClient m s)" for m using assms(1) by simp
  have rd: "readDirectory env args (s, fs) = Inr (map (listing_line fs p) es)"
    using assms(4,5,6) entry_lines [OF assms(7)] unfolding readDirectory_def prod.case Let_def assms(3) [symmetric] by simp
  have "executeCommand db env (w @ '' '' @ args) (s, fs) = handleNlst env args (s, fs)"
    using assms(8) executeCommand_directory(4,5) by blast
  then show ?thesis
    unfolding handleNlst_def prod.case Let_def if_not_P [OF open_ds] rd sum.case send_listing_all [OF conn assms(2)]
    by (cases "es = []") (simp_all add: comp_def)
qed

theorem listing_sent_witness:
  "\<exists>s'. executeCommand (\<lambda>_. None) ((good_env [])\<lparr>e_listing := (\<lambda>_. Some [(''a'', Some ''T'')])\<rparr>) (''NLST'' @ '' '' @ [])
      (ftp_s0, ftp_fs0 [''/home/u/a'' \<mapsto> [1, 2]]) = Inr (s', ftp_fs0 [''/home/u/a'' \<mapsto> [1, 2]])
    \<and> data_out s' = to_bytes (''0000000000000002'' @ [CHR 0x09] @ ''T'' @ [CHR 0x09] @ ''a'' @ CRLF)"
proof -
  let ?env = "(good_env [])\<lparr>e_listing := (\<lambda>_. Some [(''a'', Some ''T'')])\<rparr>" and ?fs = "ftp_fs0 [''/home/u/a'' \<mapsto> [1, 2]]"
  have pre: "\<forall>k. e_write_ok ?env k" "''/home/u'' = path_append (currDir ftp_s0) []" "fs_is_directory ?fs ''/home/u''"
    "\<not> fs_denied ?fs ''/home/u''" "e_listing ?env ''/home/u'' = Some (map (\<lambda>(n, t). (n, Some t)) [(''a'', ''T'')])"
    "\<forall>(n, t) \<in> set [(''a'', ''T'')]. \<not> fs_denied ?fs (path_append ''/home/u'' n)" "''NLST'' \<in> {''NLST'', ''LIST''}"
    by (simp_all add: fs_is_directory_def good_env_def)
  have "listing_line ?fs ''/home/u'' (''a'', ''T'') = ''0000000000000002'' @ [CHR 0x09] @ ''T'' @ [CHR 0x09] @ ''a''"
    by code_simp
  with listing_sent [OF ftp_sample_simps(1) pre, of "\<lambda>_. None"] show ?thesis by (auto simp del: to_bytes_append)
qed

end
