(* ===== verification/FTP_Replies.thy ===== *)
theory FTP_Replies
  imports FTP_Directories
begin

text \<open>
  The replies of the FTP server: which sequences of reply codes each command is answered with, when a command
  gets no answer, and which commands make the session leave its memory.
\<close>

section \<open>The replies of a command\<close>

text \<open>The codes of a complete answer. A transfer has a preliminary reply and a completion, or no completion where
  the peer of the data connection is gone.\<close>

definition reply_sequences :: "string \<Rightarrow> string list list" where
  "reply_sequences w =
     (if w \<in> {''CWD'', ''DELE'', ''MKD'', ''RMD''} then [[''250''], [''550'']]
      else if w \<in> {''EPRT'', ''PORT''} then [[''200'']]
      else if w = ''EPSV'' then [[''229'']]
      else if w = ''FEAT'' then [[''211'', '' no'', ''211'']]
      else if w \<in> {''LIST'', ''NLST''} then [[''425''], [''550''], [''125'', ''226'']]
      else if w = ''PASS'' then [[''230''], [''530'']]
      else if w = ''PASV'' then [[''227'']]
      else if w = ''PWD'' then [[''257'']]
      else if w = ''QUIT'' then [[''221'']]
      else if w = ''RETR'' then [[''425''], [''550''], [''150'', ''226''], [''150'']]
      else if w = ''SYST'' then [[''215'']]
      else if w = ''STOR'' then [[''425''], [''150'', ''226''], [''150'', ''446'']]
      else if w = ''TYPE'' then [[''200''], [''504'']]
      else if w = ''USER'' then [[''331'']]
      else [[''500'']])"

definition port_text :: "string \<Rightarrow> string \<Rightarrow> string" where
  "port_text w args = (if w = ''PORT'' then strip_brackets args else args)"

text \<open>The commands that are executed and not answered.\<close>

definition unanswered :: "users_db \<Rightarrow> ftp_env \<Rightarrow> string \<Rightarrow> string \<Rightarrow> ftp_io \<Rightarrow> bool" where
  "unanswered db env w args io \<longleftrightarrow>
     w = ''USER'' \<and> \<not> usernameIsKnown db args
     \<or> w = ''PASS'' \<and> f_username (fst io) = []
     \<or> w \<in> {''EPRT'', ''PORT''} \<and> (\<exists>host port s'. port_args (e_left_first env) (port_text w args) = Inr (host, port)
         \<and> openDataConnectionActive env host port (fst io) = Inr (False, s'))
     \<or> w \<in> {''LIST'', ''NLST''} \<and> dataSocket (fst io) \<noteq> Ds_Closed \<and> (\<exists>e. readDirectory env args io = Inl e)"

definition answers :: "string list list \<Rightarrow> bool \<Rightarrow> ftp_session \<Rightarrow> ftp_io \<Rightarrow> bool" where
  "answers codes silent s io' \<longleftrightarrow>
     (\<exists>rs. ctrl_out (fst io') = ctrl_out s @ rs \<and> (rs = [] \<longleftrightarrow> silent) \<and> (silent \<or> map (take 3) rs \<in> set codes))"

lemma answers_one [simp]: "ctrl_out t = ctrl_out s @ [m] \<Longrightarrow> answers codes silent s (t, fs) \<longleftrightarrow> \<not> silent \<and> [take 3 m] \<in> set codes"
  "ctrl_out t = ctrl_out s @ [m, m'] \<Longrightarrow> answers codes silent s (t, fs) \<longleftrightarrow> \<not> silent \<and> [take 3 m, take 3 m'] \<in> set codes"
  "ctrl_out t = ctrl_out s @ [m, m', m''] \<Longrightarrow>
     answers codes silent s (t, fs) \<longleftrightarrow> \<not> silent \<and> [take 3 m, take 3 m', take 3 m''] \<in> set codes"
  "ctrl_out t = ctrl_out s \<Longrightarrow> answers codes silent s (t, fs) \<longleftrightarrow> silent"
  by (auto simp: answers_def)

lemma ctrl_out_ops [simp]:
  "ctrl_out (snd (send_blocks env k rest s)) = ctrl_out s" "ctrl_out (snd (send_lines env k ls s)) = ctrl_out s"
  "ctrl_out (send_listing env k ls s) = ctrl_out s" "ctrl_out (snd (openDataConnectionPassive env port s)) = ctrl_out s"
  using sent_more_fields(10) send_blocks_only send_lines_only send_listing_only
  by (blast, blast, blast) (simp add: openDataConnectionPassive_def Let_def)

lemma ctrl_out_active: "openDataConnectionActive env host port s = Inr (ok, s') \<Longrightarrow> ctrl_out s' = ctrl_out s"
  by (auto simp: openDataConnectionActive_def split: if_splits)

lemmas handler_defs = handleCwd_def handlePort_def handleEpsv_def handleFeat_def handlePass_def handlePasv_def handlePwd_def
  handleQuit_def handleSyst_def handleType_def handleUser_def handleMkd_def handleRmd_def handleDele_def exists_or_throw_def Let_def

lemma simple_answers:
  "holds (answers [[''250''], [''550'']] False s) (handleCwd args (s, fs))"
  "holds (answers [[''250''], [''550'']] False s) (handleMkd env args (s, fs))"
  "holds (answers [[''250''], [''550'']] False s) (handleRmd env args (s, fs))"
  "holds (answers [[''250''], [''550'']] False s) (handleDele env args (s, fs))"
  "holds (answers [[''229'']] False s) (handleEpsv env (s, fs))"
  "holds (answers [[''211'', '' no'', ''211'']] False s) (handleFeat (s, fs))"
  "holds (answers [[''227'']] False s) (handlePasv env (s, fs))"
  "holds (answers [[''257'']] False s) (handlePwd (s, fs))"
  "holds (answers [[''221'']] False s) (handleQuit (s, fs))"
  "holds (answers [[''215'']] False s) (handleSyst (s, fs))"
  "holds (answers [[''200''], [''504'']] False s) (handleType args (s, fs))"
  "holds (answers [[''500'']] False s) (say ''500 Unknown command'' (s, fs))"
  "holds (answers [[''331'']] (\<not> usernameIsKnown db args) s) (handleUser db args (s, fs))"
  "holds (answers [[''230''], [''530'']] (f_username s = []) s) (handlePass db args (s, fs))"
  by (auto simp: handler_defs pasv_reply_def)


lemma transfer_answers:
  "holds (answers [[''425''], [''550''], [''150'', ''226''], [''150'']] False s) (handleRetr env args (s, fs))"
  "holds (answers [[''425''], [''150'', ''226''], [''150'', ''446'']] False s) (handleStor env args (s, fs))"
  "holds (answers [[''425''], [''550''], [''125'', ''226'']]
     (dataSocket s \<noteq> Ds_Closed \<and> (\<exists>e. readDirectory env args (s, fs) = Inl e)) s) (handleNlst env args (s, fs))"
proof -
  show "holds (answers [[''425''], [''550''], [''150'', ''226''], [''150'']] False s) (handleRetr env args (s, fs))"
    by (simp add: handleRetr_def Let_def exists_or_throw_def case_prod_unfold)
  show "holds (answers [[''425''], [''150'', ''226''], [''150'', ''446'']] False s) (handleStor env args (s, fs))"
    by (simp add: handleStor_def Let_def split: prod.split)
  show "holds (answers [[''425''], [''550''], [''125'', ''226'']]
     (dataSocket s \<noteq> Ds_Closed \<and> (\<exists>e. readDirectory env args (s, fs) = Inl e)) s) (handleNlst env args (s, fs))"
    by (auto simp: handleNlst_def split: sum.split)
qed

lemma port_answers:
  "holds (answers [[''200'']] (\<exists>host port s'. port_args (e_left_first env) args = Inr (host, port)
     \<and> openDataConnectionActive env host port s = Inr (False, s')) s) (handlePort env args (s, fs))"
  by (auto simp: handlePort_def ctrl_out_active split: prod.split)

lemma executeCommand_answers:
  "holds (answers (reply_sequences (command_word cmd)) (unanswered db env (command_word cmd) (command_args cmd) (s, fs)) s)
     (executeCommand db env cmd (s, fs))"
proof -
  have ans: "holds (answers (reply_sequences w) (unanswered db env w args (s, fs)) s) m"
    if "holds (answers codes silent s) m" "codes = reply_sequences w" "silent \<longleftrightarrow> unanswered db env w args (s, fs)" for codes silent w args m
    using that by simp
  show ?thesis
    by (rule executeCommand_cases [where Q = "\<lambda>w. holds (answers (reply_sequences w)
          (unanswered db env w (command_args cmd) (s, fs)) s)"]; rule ans; (rule simple_answers transfer_answers port_answers)?;
        simp add: reply_sequences_def unanswered_def port_text_def)
qed

definition same_loop_flag :: "ftp_session \<Rightarrow> ftp_io \<Rightarrow> bool" where
  "same_loop_flag s io \<longleftrightarrow> quitCmdLoop (fst io) = quitCmdLoop s"

lemma same_loop_flag_simps [simp]:
  "same_loop_flag s (sendMessageToClient m t, fs) = same_loop_flag s (t, fs)"
  "same_loop_flag s (closeDataConnection t, fs) = same_loop_flag s (t, fs)"
  "same_loop_flag s (t\<lparr>currDir := d\<rparr>, fs) = same_loop_flag s (t, fs)"
  "same_loop_flag s (t\<lparr>transferType := ty\<rparr>, fs) = same_loop_flag s (t, fs)"
  "same_loop_flag s (t\<lparr>f_username := u\<rparr>, fs) = same_loop_flag s (t, fs)"
  "same_loop_flag s (snd (openDataConnectionPassive env port t), fs) = same_loop_flag s (t, fs)"
  "same_loop_flag s (snd (send_blocks env k rest t), fs) = same_loop_flag s (t, fs)"
  "same_loop_flag s (snd (send_lines env k ls t), fs) = same_loop_flag s (t, fs)"
  "same_loop_flag s (send_listing env k ls t, fs) = same_loop_flag s (t, fs)"
  "same_loop_flag s (s, fs)"
  using sent_more_fields(7) [OF send_blocks_only] sent_more_fields(7) [OF send_lines_only] sent_more_fields(7) [OF send_listing_only]
  by (simp_all add: same_loop_flag_def openDataConnectionPassive_def Let_def)

lemma handlers_keep_loop:
  "holds (same_loop_flag s) (handleCwd args (s, fs))" "holds (same_loop_flag s) (handleMkd env args (s, fs))"
  "holds (same_loop_flag s) (handleRmd env args (s, fs))" "holds (same_loop_flag s) (handleDele env args (s, fs))"
  "holds (same_loop_flag s) (handleEpsv env (s, fs))" "holds (same_loop_flag s) (handleFeat (s, fs))"
  "holds (same_loop_flag s) (handlePasv env (s, fs))" "holds (same_loop_flag s) (handlePwd (s, fs))"
  "holds (same_loop_flag s) (handleSyst (s, fs))" "holds (same_loop_flag s) (handleType args (s, fs))"
  "holds (same_loop_flag s) (say m (s, fs))" "holds (same_loop_flag s) (handleUser db args (s, fs))"
  "holds (same_loop_flag s) (handlePass db args (s, fs))" "holds (same_loop_flag s) (handlePort env args (s, fs))"
  "holds (same_loop_flag s) (handleNlst env args (s, fs))" "holds (same_loop_flag s) (handleRetr env args (s, fs))"
  "holds (same_loop_flag s) (handleStor env args (s, fs))"
proof -
  show "holds (same_loop_flag s) (handlePort env args (s, fs))"
    by (auto simp: handlePort_def openDataConnectionActive_def same_loop_flag_def)
  show "holds (same_loop_flag s) (handleNlst env args (s, fs))"
    by (auto simp: handleNlst_def split: sum.split)
  show "holds (same_loop_flag s) (handleRetr env args (s, fs))"
    by (simp add: handleRetr_def Let_def exists_or_throw_def case_prod_unfold)
  show "holds (same_loop_flag s) (handleStor env args (s, fs))"
    by (simp add: handleStor_def Let_def case_prod_unfold)
qed (auto simp: handler_defs)

lemma executeCommand_loop:
  "holds (\<lambda>io'. quitCmdLoop (fst io') \<longleftrightarrow> quitCmdLoop s \<or> command_word cmd = ''QUIT'') (executeCommand db env cmd (s, fs))"
proof -
  have keep: "holds (\<lambda>io'. quitCmdLoop (fst io') \<longleftrightarrow> quitCmdLoop s \<or> w = ''QUIT'') m"
    if "holds (same_loop_flag s) m" "w \<noteq> ''QUIT''" for w m
    using that by (simp add: holds_def same_loop_flag_def)
  show ?thesis
    by (rule executeCommand_cases [where Q = "\<lambda>w. holds (\<lambda>io'. quitCmdLoop (fst io') \<longleftrightarrow> quitCmdLoop s \<or> w = ''QUIT'')"];
        (rule keep, rule handlers_keep_loop)?; simp add: handleQuit_def)
qed

text \<open>C17: What a client hears: a command adds to the replies either nothing or exactly one of the complete answers
  its word allows, whatever the arguments, the state and the system. Nothing is heard exactly where the command is a USER
  with an unknown name, a PASS before any USER, a PORT or EPRT that cannot connect, a listing whose directory cannot be
  iterated over, or one whose execution throws; in the last case, and otherwise only after QUIT, the connection is closed.\<close>
theorem reply_discipline:
  assumes "ftp_turn db env (Received_Text t) (s, fs) = Inr (s', fs')" "\<not> quitCmdLoop s" "ctrl_open s"
  shows "\<exists>rs. ctrl_out s' = ctrl_out s @ rs
    \<and> (rs \<noteq> [] \<longrightarrow> map (take 3) rs \<in> set (reply_sequences (command_word (first_line t))))
    \<and> (rs = [] \<longleftrightarrow> unanswered db env (command_word (first_line t)) (command_args (first_line t)) (s, fs)
         \<or> (\<exists>x. executeCommand db env (first_line t) (s, fs) = Inl (Std_Exception x)))
    \<and> (\<not> ctrl_open s' \<longleftrightarrow> command_word (first_line t) = ''QUIT'' \<or> (\<exists>x. executeCommand db env (first_line t) (s, fs) = Inl (Std_Exception x)))"
proof (cases "executeCommand db env (first_line t) (s, fs)")
  case (Inl f)
  with assms(1) obtain x where "f = Std_Exception x" "s' = s\<lparr>ctrl_open := False\<rparr>"
    by (cases f) (simp_all add: ftp_turn_def)
  then show ?thesis using Inl by auto
next
  case (Inr io')
  obtain s1 fs1 where io': "io' = (s1, fs1)" by fastforce
  let ?w = "command_word (first_line t)"
  have s': "s' = (if quitCmdLoop s1 then s1\<lparr>ctrl_open := False\<rparr> else s1)"
    using assms(1) by (simp add: ftp_turn_def Inr io')
  have q: "quitCmdLoop s1 \<longleftrightarrow> ?w = ''QUIT''"
    using holdsD [OF executeCommand_loop Inr] assms(2) by (simp add: io')
  have o: "ctrl_open s1"
    using holdsD [OF executeCommand_same_user Inr] assms(3) by (auto simp: io' same_user_def)
  obtain rs where "ctrl_out s1 = ctrl_out s @ rs" "rs = [] \<longleftrightarrow> unanswered db env ?w (command_args (first_line t)) (s, fs)"
    "rs = [] \<or> map (take 3) rs \<in> set (reply_sequences ?w)"
    using holdsD [OF executeCommand_answers Inr] by (auto simp: io' answers_def)
  then show ?thesis using q o Inr by (intro exI [of _ rs]) (auto simp: s')
qed

theorem reply_discipline_witness:
  "\<exists>s' rs. ftp_turn (\<lambda>_. None) (good_env []) (Received_Text (''PWD'' @ CRLF)) (ftp_s0, ftp_fs0 (\<lambda>_. None)) = Inr (s', ftp_fs0 (\<lambda>_. None))
     \<and> ctrl_out s' = rs \<and> map (take 3) rs = [''257''] \<and> ctrl_open s'"
proof -
  let ?s' = "sendMessageToClient (''257 '' @ [CHR 0x22] @ ''/home/u'' @ [CHR 0x22]) ftp_s0"
  have l: "first_line (''PWD'' @ CRLF) = ''PWD''" using first_line_CRLF [of "''PWD''" "[]"] by simp
  have w: "command_word ''PWD'' = ''PWD''" "command_args ''PWD'' = []"
    by (simp_all add: command_word_def command_args_def upper_defs)
  have loop: "\<not> quitCmdLoop ftp_s0" "ctrl_open ftp_s0" by (simp_all add: ftp_s0_def new_ftp_session_def)
  have ex: "executeCommand (\<lambda>_. None) (good_env []) ''PWD'' (ftp_s0, ftp_fs0 (\<lambda>_. None)) = Inr (?s', ftp_fs0 (\<lambda>_. None))"
    by (simp add: executeCommand_def upper_defs handlePwd_def)
  then have turn: "ftp_turn (\<lambda>_. None) (good_env []) (Received_Text (''PWD'' @ CRLF)) (ftp_s0, ftp_fs0 (\<lambda>_. None))
      = Inr (?s', ftp_fs0 (\<lambda>_. None))"
    using loop by (simp add: ftp_turn_def l [simplified])
  obtain rs where "ctrl_out ?s' = ctrl_out ftp_s0 @ rs" "rs \<noteq> [] \<longrightarrow> map (take 3) rs \<in> set (reply_sequences ''PWD'')"
    "rs = [] \<longleftrightarrow> unanswered (\<lambda>_. None) (good_env []) ''PWD'' [] (ftp_s0, ftp_fs0 (\<lambda>_. None))" "ctrl_open ?s'"
    using reply_discipline [OF turn loop] unfolding l w ex by auto
  then show ?thesis using turn by (auto simp: unanswered_def reply_sequences_def)
qed

section \<open>Commands that leave the memory\<close>

text \<open>The fields of a PORT argument for which the handler's element accesses or its \<open>int\<close> arithmetic are undefined,
  for either order in which the two operands of the sum fail where both do.\<close>

definition port_undefined :: "bool \<Rightarrow> string \<Rightarrow> fault \<Rightarrow> bool" where
  "port_undefined left_first args f \<longleftrightarrow>
     (let fields = getline_split (CHR '','') args; high = stoi (fields ! 4); low = stoi (fields ! 5) in
      f = Out_Of_Bounds
        \<and> (length fields < 5 \<or> length fields = 5 \<and> (left_first \<longrightarrow> (\<exists>p. high = Inr p \<and> in_int (p * 256))))
      \<or> f = Signed_Overflow
        \<and> (length fields = 5 \<and> left_first \<and> (\<exists>p. high = Inr p \<and> \<not> in_int (p * 256))
           \<or> 6 \<le> length fields \<and> (\<exists>p. high = Inr p
               \<and> (\<not> in_int (p * 256) \<and> (left_first \<or> (\<exists>q. low = Inr q))
                  \<or> (\<exists>q. low = Inr q \<and> \<not> in_int (p * 256 + q))))))"

definition throws_only :: "'a resl \<Rightarrow> bool" where
  "throws_only m \<longleftrightarrow> (\<forall>f. m = Inl f \<longrightarrow> (\<exists>x. f = Std_Exception x))"

lemma throws_only_simps [simp]:
  "throws_only (Inr x)" "throws_only (Inl f) \<longleftrightarrow> (\<exists>x. f = Std_Exception x)"
  "throws_only m \<Longrightarrow> (\<And>x. m = Inr x \<Longrightarrow> throws_only (g x)) \<Longrightarrow> throws_only (bind_res m g)"
  by (auto simp: throws_only_def bind_res_def split: sum.splits)

lemma stoi_throws_only [simp]: "throws_only (stoi e)"
  by (simp add: stoi_def Let_def)

lemma other_handlers_throw_only:
  "throws_only (handleCwd args (s, fs))" "throws_only (handleMkd env args (s, fs))"
  "throws_only (handleRmd env args (s, fs))" "throws_only (handleDele env args (s, fs))"
  "throws_only (handleEpsv env (s, fs))" "throws_only (handleFeat (s, fs))" "throws_only (handlePasv env (s, fs))"
  "throws_only (handlePwd (s, fs))" "throws_only (handleQuit (s, fs))" "throws_only (handleSyst (s, fs))"
  "throws_only (say m (s, fs))" "throws_only (handleUser db args (s, fs))"
  "throws_only (handlePass db args (s, fs))" "throws_only (handleRetr env args (s, fs))"
  "throws_only (handleStor env args (s, fs))" "throws_only (handleNlst env args (s, fs))"
  by (auto simp: handler_defs passwordIsValid_def handleRetr_def handleStor_def handleNlst_def readDirectory_def
      split: option.split sum.split prod.split)

lemma port_operands:
  assumes "5 \<le> length e"
  shows "port_high e = (case stoi (e ! 4) of Inl f \<Rightarrow> Inl f | Inr p \<Rightarrow> if in_int (p * 256) then Inr (p * 256) else Inl Signed_Overflow)"
    and "port_low e = (if length e = 5 then Inl Out_Of_Bounds else stoi (e ! 5))"
  using assms by (auto simp: port_high_def port_low_def bind_res_def split: sum.split)

lemma port_args_fault: "port_args lf args = Inl f \<and> (\<forall>x. f \<noteq> Std_Exception x) \<longleftrightarrow> port_undefined lf args f"
proof -
  let ?e = "getline_split (CHR '','') args"
  have s: "stoi e = Inl f \<Longrightarrow> \<exists>x. f = Std_Exception x" for e f
    using stoi_throws_only [of e] unfolding throws_only_def by blast
  show ?thesis
  proof (cases "length ?e < 5")
    case True
    have "port_args lf args = Inl Out_Of_Bounds"
    proof (cases "length ?e < 4")
      case True
      then show ?thesis by (auto simp: port_args_def Let_def rd_def)
    next
      case False
      then show ?thesis using \<open>length ?e < 5\<close>
        by (auto simp: port_args_def both_operands_def port_high_def port_low_def Let_def rd_def)
    qed
    with True show ?thesis by (auto simp: port_undefined_def Let_def)
  next
    case False
    then have r: "rd ?e 0 = Inr (?e ! 0)" "rd ?e 1 = Inr (?e ! 1)" "rd ?e 2 = Inr (?e ! 2)" "rd ?e 3 = Inr (?e ! 3)"
      by (auto simp: rd_def)
    have five: "5 \<le> length ?e" using False by simp
    from s [of "?e ! 4"] s [of "?e ! 5"] five show ?thesis
      unfolding port_args_def Let_def r bind_res_Inr port_operands [OF five]
      by (cases "stoi (?e ! 4)"; cases "stoi (?e ! 5)"; cases lf)
        (auto simp: port_undefined_def Let_def both_operands_def split: if_splits)
  qed
qed

lemma handlePort_fault: "handlePort env args (s, fs) = Inl f \<and> (\<forall>x. f \<noteq> Std_Exception x) \<longleftrightarrow> port_undefined (e_left_first env) args f"
proof -
  have "throws_only (bind_res (openDataConnectionActive env h p s) (\<lambda>(ok, s).
      if ok then say ''200 PORT command successful'' (s, fs) else Inr (s, fs)))" for h p
    by (auto simp: openDataConnectionActive_def split: prod.split)
  then show ?thesis unfolding port_args_fault [symmetric]
    by (cases "port_args (e_left_first env) args") (auto simp: handlePort_def throws_only_def)
qed

lemma handleType_fault:
  "handleType args (s, fs) = Inl f \<and> (\<forall>x. f \<noteq> Std_Exception x) \<longleftrightarrow> f = Bad_Character \<and> (\<exists>c. args = [c] \<and> \<not> toupper_ok c)"
  by (cases args) (auto simp: handleType_def std_toupper_def)

text \<open>The lines that leave the defined behaviour of C++, and how.\<close>

definition line_undefined :: "ftp_env \<Rightarrow> string \<Rightarrow> fault \<Rightarrow> bool" where
  "line_undefined env cmd f \<longleftrightarrow>
     (let w = command_word cmd in
      if \<not> (\<forall>c \<in> set (command_chars cmd). toupper_ok c) then f = Bad_Character
      else w \<in> {''EPRT'', ''PORT''} \<and> port_undefined (e_left_first env) (port_text w (command_args cmd)) f
        \<or> w = ''TYPE'' \<and> f = Bad_Character \<and> (\<exists>c. command_args cmd = [c] \<and> \<not> toupper_ok c))"

lemma executeCommand_fault:
  "executeCommand db env cmd (s, fs) = Inl f \<and> (\<forall>x. f \<noteq> Std_Exception x) \<longleftrightarrow> line_undefined env cmd f"
proof (cases "\<forall>c \<in> set (command_chars cmd). toupper_ok c")
  case True
  let ?Q = "\<lambda>w m. m = Inl f \<and> (\<forall>x. f \<noteq> Std_Exception x) \<longleftrightarrow>
    w \<in> {''EPRT'', ''PORT''} \<and> port_undefined (e_left_first env) (port_text w (command_args cmd)) f
      \<or> w = ''TYPE'' \<and> f = Bad_Character \<and> (\<exists>c. command_args cmd = [c] \<and> \<not> toupper_ok c)"
  have other: "?Q w m" if "throws_only m" "w \<notin> {''EPRT'', ''PORT'', ''TYPE''}" for w m
    using that by (auto simp: throws_only_def)
  have "?Q (command_word cmd) (executeCommand db env cmd (s, fs))"
    by (rule executeCommand_cases [where Q = ?Q]; (rule other, rule other_handlers_throw_only)?;
        simp add: handlePort_fault handleType_fault port_text_def True)
  then show ?thesis using True by (simp add: line_undefined_def Let_def)
next
  case False
  have "executeCommand db env cmd (s, fs) = Inl Bad_Character" using executeCommand_bad_word [OF False] by simp
  with False show ?thesis by (auto simp: line_undefined_def Let_def)
qed


text \<open>C35: Exactly when an FTP session leaves its memory, its arithmetic is undefined or it calls \<open>toupper\<close> outside its domain: the
  line's word has a character from 128 to 254 (a negative \<open>char\<close> other than \<open>EOF\<close>); or it is a TYPE whose argument is one such
  character; or a PORT or an EPRT whose argument has fewer than five fields between commas, or five, or six or more whose
  numbers do not combine to an \<open>int\<close>. Where one of its operands would be undefined and the other throws, which happens depends on
  the order that C++ leaves to the compiler, and the condition is exact for either. No other command, argument, answer of the
  system or read error does this, in any state, and no exception escapes a session.\<close>
theorem session_undefined_exactly:
  "ftp_turn db env e (s, fs) = Inl f \<longleftrightarrow> (\<exists>t. e = Received_Text t \<and> line_undefined env (first_line t) f)"
proof (cases e)
  case (Received_Text t)
  have "ftp_turn db env e (s, fs) = Inl f \<longleftrightarrow>
      executeCommand db env (first_line t) (s, fs) = Inl f \<and> (\<forall>x. f \<noteq> Std_Exception x)"
    unfolding Received_Text ftp_turn_def
    by (cases "executeCommand db env (first_line t) (s, fs)"; cases f)
      (auto split: fault.split)
  then show ?thesis unfolding executeCommand_fault using Received_Text by auto
qed (simp add: ftp_turn_def)

end
