(* ===== verification/Telnet_Session.thy ===== *)
theory Telnet_Session
  imports Std_String Machines
begin

text \<open>
  \<open>telnet/server: TelnetSession\<close>. The session negotiates two options, asks for user and password,
  and then edits lines with a history. A handler runs when a read or a write completes; what it
  hands to the socket is appended to \<open>t_sent\<close>, the lines it passes to the application's callback
  to \<open>t_lines\<close>. \<open>send\<close> and \<open>sendLine\<close> ignore write errors beyond logging them.
\<close>

section \<open>State\<close>

text \<open>The control codes, commands and options the code uses.\<close>

definition NUL :: u8 where "NUL = 0"
definition BackSpace :: u8 where "BackSpace = 8"
definition LineFeed :: u8 where "LineFeed = 10"
definition CarriageReturn :: u8 where "CarriageReturn = 13"
definition WILL :: u8 where "WILL = 0xFB"
definition DO :: u8 where "DO = 0xFD"
definition DONT :: u8 where "DONT = 0xFE"
definition IAC :: u8 where "IAC = 0xFF"
definition Echo :: u8 where "Echo = 1"
definition SuppressGoAhead :: u8 where "SuppressGoAhead = 3"

lemmas telnet_codes = NUL_def BackSpace_def LineFeed_def CarriageReturn_def WILL_def DO_def DONT_def IAC_def
  Echo_def SuppressGoAhead_def

datatype telnet_state = Negotiation | Authentication | Interaction

text \<open>The outstanding operation: one of the three writes of \<open>start\<close>, a read, or none after an error.\<close>

datatype telnet_pending = Writing_Option nat | Receiving | Dead

record telnet_session =
  t_username :: string
  t_password :: string
  t_state :: telnet_state
  optionsToConfirm :: "u8 list"
  t_buffer :: string
  t_history :: "string list"
  historyPos :: nat
  t_pending :: telnet_pending
  t_sent :: "bytes list"
  t_lines :: "string list"

definition MAX_HISTORY_LENGTH :: nat where
  "MAX_HISTORY_LENGTH = 80"

definition new_telnet_session :: telnet_session where
  "new_telnet_session = \<lparr>t_username = [], t_password = [], t_state = Negotiation, optionsToConfirm = [],
     t_buffer = [], t_history = [], historyPos = 0, t_pending = Dead, t_sent = [], t_lines = []\<rparr>"

section \<open>Sending\<close>

definition t_send :: "bytes \<Rightarrow> telnet_session \<Rightarrow> telnet_session" where
  "t_send d s = s\<lparr>t_sent := t_sent s @ [d]\<rparr>"

definition sendLine :: "string \<Rightarrow> telnet_session \<Rightarrow> telnet_session" where
  "sendLine line s = t_send (to_bytes line) s"

definition sendEraseLine :: "telnet_session \<Rightarrow> telnet_session" where
  "sendEraseLine s = sendLine (CHR 0x1B # ''[80D'') (sendLine (CHR 0x1B # ''[2K'') s)"

text \<open>The three writes of \<open>start\<close>, each begun by the completion of the one before.\<close>

definition option_offer :: "nat \<Rightarrow> bytes" where
  "option_offer k = (if k = 0 then [IAC, WILL, Echo] else if k = 1 then [IAC, DONT, Echo] else [IAC, WILL, SuppressGoAhead])"

definition t_start :: "telnet_session \<Rightarrow> telnet_session" where
  "t_start s = t_send (option_offer 0)
     (s\<lparr>optionsToConfirm := optionsToConfirm s @ [Echo, SuppressGoAhead], t_pending := Writing_Option 0\<rparr>)"

definition on_option_written :: "bool \<Rightarrow> nat \<Rightarrow> telnet_session \<Rightarrow> telnet_session" where
  "on_option_written ok k s =
     (if \<not> ok then s\<lparr>t_pending := Dead\<rparr>
      else if k < 2 then t_send (option_offer (k + 1)) (s\<lparr>t_pending := Writing_Option (k + 1)\<rparr>)
      else s\<lparr>t_pending := Receiving\<rparr>)"

section \<open>History\<close>

definition find_line :: "string \<Rightarrow> string list \<Rightarrow> nat option" where
  "find_line line h = (if line \<in> set h then Some (length (takeWhile (\<lambda>x. x \<noteq> line) h)) else None)"

definition addToHistory :: "string \<Rightarrow> telnet_session \<Rightarrow> telnet_session" where
  "addToHistory line s =
     (case find_line line (t_history s) of
        None \<Rightarrow>
          (let h = t_history s @ [line];
               h = (if MAX_HISTORY_LENGTH < length h then tl h else h)
           in s\<lparr>t_history := h, historyPos := length h - 1\<rparr>)
      | Some i \<Rightarrow> s\<lparr>historyPos := i\<rparr>)"

text \<open>The line the position names is shown; a position outside the history would be read out of bounds.\<close>

definition show_line :: "nat \<Rightarrow> telnet_session \<Rightarrow> telnet_session resl" where
  "show_line pos s =
     bind_res (rd (t_history s) pos) (\<lambda>line.
       Inr (sendLine line (sendEraseLine (s\<lparr>historyPos := pos, t_buffer := line\<rparr>))))"

definition processEscapeSequence :: "bytes \<Rightarrow> telnet_session \<Rightarrow> telnet_session resl" where
  "processEscapeSequence e s =
     (let n = length (t_history s); pos = historyPos s in
      if e = [0x1B, 0x5B, 0x44] \<or> e = [0x1B, 0x5B, 0x43] then Inr s
      else if e = [0x1B, 0x5B, 0x42]
      then (if 1 < n then show_line (if pos \<noteq> n - 1 then pos + 1 else 0) s else Inr s)
      else if e = [0x1B, 0x5B, 0x41]
      then (if 1 < n then show_line (if pos \<noteq> 0 then pos - 1 else n - 1) s else Inr s)
      else Inr s)"

section \<open>Authentication\<close>

definition startAuthentication :: "telnet_session \<Rightarrow> telnet_session" where
  "startAuthentication s = sendLine ''Username: ''
     (s\<lparr>t_buffer := [], t_username := [], t_password := [], t_state := Authentication\<rparr>)"

definition startInteraction :: "telnet_session \<Rightarrow> telnet_session" where
  "startInteraction s = s\<lparr>t_buffer := [], t_state := Interaction\<rparr>"

definition authorize :: "telnet_session \<Rightarrow> bool" where
  "authorize s \<longleftrightarrow> t_username s = ''testuser'' \<and> t_password s = ''testpassword''"

section \<open>The handler of a read, by state\<close>

text \<open>Every \<open>DO\<close> followed by an octet that is not \<open>IAC\<close> confirms that option.\<close>

fun confirm_options :: "bytes \<Rightarrow> u8 list \<Rightarrow> u8 list" where
  "confirm_options [] opts = opts"
| "confirm_options (b # bs) opts =
     (if b = DO
      then (case bs of
              [] \<Rightarrow> opts
            | x # bs' \<Rightarrow> confirm_options bs' (if x \<noteq> IAC then filter (\<lambda>v. v \<noteq> x) opts else opts))
      else confirm_options bs opts)"

definition on_negotiation :: "bytes \<Rightarrow> telnet_session \<Rightarrow> telnet_session" where
  "on_negotiation d s =
     (let s = s\<lparr>optionsToConfirm := confirm_options d (optionsToConfirm s)\<rparr>
      in if optionsToConfirm s = [] then startAuthentication s else s)"

definition on_authentication :: "bytes \<Rightarrow> telnet_session \<Rightarrow> telnet_session" where
  "on_authentication d s =
     (if length d = 1 \<and> isprint_u8 (d ! 0)
      then t_send [u8_of_char (CHR ''*'')] (s\<lparr>t_buffer := t_buffer s @ [char_of_u8 (d ! 0)]\<rparr>)
      else if length d = 2 \<and> d ! 0 = CarriageReturn \<and> d ! 1 = NUL
      then (let s = t_send [CarriageReturn, LineFeed] s in
            if t_username s = [] then sendLine ''Password: '' (s\<lparr>t_username := t_buffer s, t_buffer := []\<rparr>)
            else (let s = s\<lparr>t_password := t_buffer s, t_buffer := []\<rparr>
                  in if authorize s then startInteraction s else startAuthentication s))
      else s)"

definition on_interaction :: "bytes \<Rightarrow> telnet_session \<Rightarrow> telnet_session resl" where
  "on_interaction d s =
     (if length d = 1
      then (if isprint_u8 (d ! 0) then Inr (t_send [d ! 0] (s\<lparr>t_buffer := t_buffer s @ [char_of_u8 (d ! 0)]\<rparr>))
            else if d ! 0 = BackSpace
            then (let b = take (length (t_buffer s) - 1) (t_buffer s)
                  in Inr (sendLine b (sendEraseLine (s\<lparr>t_buffer := b\<rparr>))))
            else Inr s)
      else if length d = 2
      then (if d ! 0 = CarriageReturn \<and> d ! 1 = NUL
            then (let line = t_buffer s; s = s\<lparr>t_lines := t_lines s @ [line]\<rparr>
                  in Inr (sendEraseLine ((addToHistory line s)\<lparr>t_buffer := []\<rparr>)))
            else Inr s)
      else if length d = 3
      then (if d ! 0 = 0x1B then processEscapeSequence d s else Inr s)
      else Inr s)"

definition on_telnet_read :: "bytes \<Rightarrow> telnet_session \<Rightarrow> telnet_session resl" where
  "on_telnet_read d s =
     (case t_state s of
        Negotiation \<Rightarrow> Inr (on_negotiation d s)
      | Authentication \<Rightarrow> Inr (on_authentication d s)
      | Interaction \<Rightarrow> on_interaction d s)"

section \<open>Steps\<close>

datatype telnet_event = Option_Written bool | Telnet_Read bytes | Telnet_Error

inductive telnet_step :: "telnet_session \<Rightarrow> telnet_event \<Rightarrow> telnet_session \<Rightarrow> bool" where
  option_written: "t_pending s = Writing_Option k \<Longrightarrow> telnet_step s (Option_Written ok) (on_option_written ok k s)"
| telnet_read: "t_pending s = Receiving \<Longrightarrow> d \<noteq> [] \<Longrightarrow> length d \<le> 512 \<Longrightarrow> on_telnet_read d s = Inr s' \<Longrightarrow>
     telnet_step s (Telnet_Read d) s'"
| telnet_error: "t_pending s = Receiving \<Longrightarrow> telnet_step s Telnet_Error (s\<lparr>t_pending := Dead\<rparr>)"

inductive telnet_run :: "telnet_session \<Rightarrow> telnet_event list \<Rightarrow> telnet_session \<Rightarrow> bool" where
  telnet_nil: "telnet_run s [] s"
| telnet_cons: "telnet_step s e s' \<Longrightarrow> telnet_run s' es s'' \<Longrightarrow> telnet_run s (e # es) s''"

inductive_cases telnet_readE: "telnet_step s (Telnet_Read d) s'"
inductive_cases telnet_run_consE: "telnet_run s (e # es) s'"
inductive_simps telnet_run_nil: "telnet_run s [] s'"
inductive_simps telnet_run_cons: "telnet_run s (e # es) s'"
inductive_simps telnet_step_read: "telnet_step s (Telnet_Read d) s'"
inductive_simps telnet_step_written: "telnet_step s (Option_Written ok) s'"

interpretation telnet: event_machine telnet_step telnet_run
  by unfold_locales (auto simp: telnet_run_nil telnet_run_cons)

end
