(* ===== verification/Telnet_Editor.thy ===== *)
theory Telnet_Editor
  imports Telnet_Session
begin

text \<open>
  The invariant of a Telnet session, and what its line editor promises: an editor on lines and
  keys, without indices, buffers or octets, that the session implements in the state
  \<open>Interaction\<close>.
\<close>

section \<open>Invariant\<close>

abbreviation printable :: "string \<Rightarrow> bool" where
  "printable s \<equiv> \<forall>c \<in> set s. isprint_u8 (u8_of_char c)"

definition history_ok :: "telnet_session \<Rightarrow> bool" where
  "history_ok s \<longleftrightarrow> length (t_history s) \<le> MAX_HISTORY_LENGTH \<and> distinct (t_history s)
     \<and> (if t_history s = [] then historyPos s = 0 else historyPos s < length (t_history s))"

definition telnet_inv :: "telnet_session \<Rightarrow> bool" where
  "telnet_inv s \<longleftrightarrow> history_ok s \<and> printable (t_buffer s) \<and> printable (t_username s) \<and> printable (t_password s)
     \<and> (\<forall>l \<in> set (t_history s). printable l) \<and> (\<forall>l \<in> set (t_lines s). printable l)
     \<and> (t_state s = Interaction \<longrightarrow> authorize s)
     \<and> (t_state s \<noteq> Interaction \<longrightarrow> t_lines s = [] \<and> t_history s = [])"

lemma find_line_None [simp]: "find_line l h = None \<longleftrightarrow> l \<notin> set h"
  by (simp add: find_line_def)

lemma find_line_Some: "find_line l h = Some i \<Longrightarrow> i < length h \<and> h ! i = l"
  using nth_length_takeWhile [of "\<lambda>x. x \<noteq> l" h] length_takeWhile_less [of l h "\<lambda>x. x \<noteq> l"]
  by (auto simp: find_line_def split: if_splits)

lemma addToHistory_fields [simp]:
  "t_state (addToHistory l s) = t_state s" "t_buffer (addToHistory l s) = t_buffer s" "t_lines (addToHistory l s) = t_lines s"
  "t_username (addToHistory l s) = t_username s" "t_password (addToHistory l s) = t_password s" "t_pending (addToHistory l s) = t_pending s"
  by (simp_all add: addToHistory_def Let_def split: option.split)

lemma send_fields [simp]:
  "t_state (t_send d s) = t_state s" "t_buffer (t_send d s) = t_buffer s" "t_lines (t_send d s) = t_lines s"
  "t_username (t_send d s) = t_username s" "t_password (t_send d s) = t_password s" "t_pending (t_send d s) = t_pending s"
  "t_history (t_send d s) = t_history s" "historyPos (t_send d s) = historyPos s" "optionsToConfirm (t_send d s) = optionsToConfirm s"
  by (simp_all add: t_send_def)

lemma sendLine_fields [simp]:
  "t_state (sendLine l s) = t_state s" "t_buffer (sendLine l s) = t_buffer s" "t_lines (sendLine l s) = t_lines s"
  "t_username (sendLine l s) = t_username s" "t_password (sendLine l s) = t_password s" "t_pending (sendLine l s) = t_pending s"
  "t_history (sendLine l s) = t_history s" "historyPos (sendLine l s) = historyPos s" "optionsToConfirm (sendLine l s) = optionsToConfirm s"
  by (simp_all add: sendLine_def)

lemma sendEraseLine_fields [simp]:
  "t_state (sendEraseLine s) = t_state s" "t_buffer (sendEraseLine s) = t_buffer s" "t_lines (sendEraseLine s) = t_lines s"
  "t_username (sendEraseLine s) = t_username s" "t_password (sendEraseLine s) = t_password s" "t_pending (sendEraseLine s) = t_pending s"
  "t_history (sendEraseLine s) = t_history s" "historyPos (sendEraseLine s) = historyPos s"
  "optionsToConfirm (sendEraseLine s) = optionsToConfirm s"
  by (simp_all add: sendEraseLine_def)

lemma history_ok_congs [simp]:
  "history_ok (t_send d s) = history_ok s" "history_ok (sendLine l s) = history_ok s" "history_ok (sendEraseLine s) = history_ok s"
  "history_ok (s\<lparr>t_buffer := b\<rparr>) = history_ok s" "history_ok (s\<lparr>t_lines := ls\<rparr>) = history_ok s"
  "history_ok (s\<lparr>t_username := u\<rparr>) = history_ok s" "history_ok (s\<lparr>t_password := u\<rparr>) = history_ok s"
  "history_ok (s\<lparr>t_state := st\<rparr>) = history_ok s" "history_ok (s\<lparr>t_pending := p\<rparr>) = history_ok s"
  "history_ok (s\<lparr>optionsToConfirm := os\<rparr>) = history_ok s"
  by (simp_all add: history_ok_def)

lemma authorize_congs [simp]:
  "authorize (t_send d s) = authorize s" "authorize (sendLine l s) = authorize s" "authorize (sendEraseLine s) = authorize s"
  "authorize (s\<lparr>t_buffer := b\<rparr>) = authorize s" "authorize (s\<lparr>t_lines := ls\<rparr>) = authorize s"
  "authorize (s\<lparr>optionsToConfirm := os\<rparr>) = authorize s" "authorize (s\<lparr>t_state := st\<rparr>) = authorize s" "authorize (s\<lparr>t_pending := p\<rparr>) = authorize s"
  "authorize (s\<lparr>historyPos := i\<rparr>) = authorize s" "authorize (addToHistory l s) = authorize s"
  by (simp_all add: authorize_def)

text \<open>The history after a line: unchanged, or with the line at its end and cut to the last eighty.\<close>

definition remember :: "string \<Rightarrow> string list \<Rightarrow> string list" where
  "remember l h = (if l \<in> set h then h else drop (length h + 1 - 80) (h @ [l]))"

lemma remember_props:
  assumes "distinct h" "length h \<le> 80"
  shows "distinct (remember l h)" "length (remember l h) \<le> 80" "l \<in> set (remember l h)" "set (remember l h) \<subseteq> insert l (set h)"
proof -
  have "distinct (drop n (h @ [l]))" if "l \<notin> set h" for n using that assms(1) by (intro distinct_drop) simp
  then show "distinct (remember l h)" "length (remember l h) \<le> 80" using assms
    by (auto simp: remember_def simp del: drop_append)
  show "l \<in> set (remember l h)"
    using assms(2) in_set_conv_decomp [of l "drop (length h + 1 - 80) h @ [l]"] by (auto simp: remember_def drop_append)
  show "set (remember l h) \<subseteq> insert l (set h)"
    using set_drop_subset [of "length h + 1 - 80" "h @ [l]"] by (auto simp: remember_def)
qed

lemma addToHistory_remember:
  assumes "history_ok s"
  shows "t_history (addToHistory l s) = remember l (t_history s)"
    and "t_history (addToHistory l s) ! historyPos (addToHistory l s) = l"
    and "history_ok (addToHistory l s)"
proof -
  have len: "length (t_history s) \<le> 80" and dist: "distinct (t_history s)"
    using assms by (simp_all add: history_ok_def MAX_HISTORY_LENGTH_def)
  show h: "t_history (addToHistory l s) = remember l (t_history s)"
  proof (cases "l \<in> set (t_history s)")
    case True
    then show ?thesis by (auto simp: addToHistory_def remember_def split: option.split)
  next
    case False
    moreover have "tl (t_history s @ [l]) = tl (t_history s) @ [l]" if "length (t_history s) = 80"
      using that by (cases "t_history s") simp_all
    ultimately show ?thesis using len
      by (cases "length (t_history s) = 80")
        (simp_all add: addToHistory_def find_line_def remember_def MAX_HISTORY_LENGTH_def Let_def drop_Suc)
  qed
  have pos: "historyPos (addToHistory l s) < length (t_history (addToHistory l s))
      \<and> t_history (addToHistory l s) ! historyPos (addToHistory l s) = l"
  proof (cases "find_line l (t_history s)")
    case None
    define h where "h = (if MAX_HISTORY_LENGTH < length (t_history s @ [l]) then tl (t_history s @ [l]) else t_history s @ [l])"
    have e: "addToHistory l s = s\<lparr>t_history := h, historyPos := length h - 1\<rparr>"
      unfolding addToHistory_def None h_def by (simp add: Let_def)
    have "h \<noteq> [] \<and> last h = l" by (cases "t_history s") (auto simp: h_def MAX_HISTORY_LENGTH_def)
    then show ?thesis unfolding e using last_conv_nth [of h] by simp
  next
    case (Some i)
    then show ?thesis using find_line_Some [OF Some] by (simp add: addToHistory_def)
  qed
  then show "t_history (addToHistory l s) ! historyPos (addToHistory l s) = l" by blast
  show "history_ok (addToHistory l s)"
    using pos remember_props(1,2) [OF dist len, of l] unfolding history_ok_def h MAX_HISTORY_LENGTH_def by auto
qed

lemma show_line_inv:
  assumes "telnet_inv s" "pos < length (t_history s)"
  shows "\<exists>s'. show_line pos s = Inr s' \<and> telnet_inv s' \<and> t_buffer s' = t_history s ! pos \<and> t_history s' = t_history s
    \<and> historyPos s' = pos \<and> t_lines s' = t_lines s \<and> t_state s' = t_state s \<and> t_pending s' = t_pending s"
proof -
  have "t_history s \<noteq> []" "\<forall>c \<in> set (t_history s ! pos). isprint_u8 (u8_of_char c)"
    using assms by (auto simp: telnet_inv_def)
  then show ?thesis using assms by (simp add: show_line_def telnet_inv_def history_ok_def authorize_def)
qed

lemma telnet_inv_congs [simp]:
  "telnet_inv (t_send d s) = telnet_inv s" "telnet_inv (sendLine l s) = telnet_inv s" "telnet_inv (sendEraseLine s) = telnet_inv s"
  "telnet_inv (s\<lparr>t_pending := p\<rparr>) = telnet_inv s" "telnet_inv (s\<lparr>optionsToConfirm := os\<rparr>) = telnet_inv s"
  by (simp_all add: telnet_inv_def)

lemma telnet_inv_buffer: "telnet_inv s \<Longrightarrow> printable b \<Longrightarrow> telnet_inv (s\<lparr>t_buffer := b\<rparr>)"
  by (simp add: telnet_inv_def)

lemma startAuthentication_inv: "telnet_inv s \<Longrightarrow> t_state s \<noteq> Interaction \<Longrightarrow> telnet_inv (startAuthentication s)"
  by (simp add: startAuthentication_def telnet_inv_def)

lemma on_authentication_inv: "telnet_inv s \<Longrightarrow> t_state s = Authentication \<Longrightarrow> telnet_inv (on_authentication d s)"
proof -
  assume a: "telnet_inv s" "t_state s = Authentication"
  then show ?thesis
    by (auto simp: on_authentication_def Let_def startInteraction_def startAuthentication_def telnet_inv_def)
qed

section \<open>The editor\<close>

record editor =
  ed_line :: string
  ed_history :: "string list"
  ed_shown :: "string option"
  ed_done :: "string list"

datatype key = Key char | Erase | Enter | Up | Down | Other

text \<open>The line after another in the history, from the last back to the first.\<close>

definition line_after :: "string list \<Rightarrow> string \<Rightarrow> string" where
  "line_after h x = hd (tl (dropWhile (\<lambda>y. y \<noteq> x) h) @ h)"

definition go_to :: "string \<Rightarrow> editor \<Rightarrow> editor" where
  "go_to l ed = ed\<lparr>ed_line := l, ed_shown := Some l\<rparr>"

fun edit :: "editor \<Rightarrow> key \<Rightarrow> editor" where
  "edit ed (Key c) = ed\<lparr>ed_line := ed_line ed @ [c]\<rparr>"
| "edit ed Erase = ed\<lparr>ed_line := butlast (ed_line ed)\<rparr>"
| "edit ed Enter = \<lparr>ed_line = [], ed_history = remember (ed_line ed) (ed_history ed), ed_shown = Some (ed_line ed),
     ed_done = ed_done ed @ [ed_line ed]\<rparr>"
| "edit ed Up = (case ed_shown ed of
     Some l \<Rightarrow> if 1 < length (ed_history ed) then go_to (line_after (rev (ed_history ed)) l) ed else ed | None \<Rightarrow> ed)"
| "edit ed Down = (case ed_shown ed of
     Some l \<Rightarrow> if 1 < length (ed_history ed) then go_to (line_after (ed_history ed) l) ed else ed | None \<Rightarrow> ed)"
| "edit ed Other = ed"

definition key_of :: "bytes \<Rightarrow> key" where
  "key_of d =
     (if length d = 1 then if isprint_u8 (d ! 0) then Key (char_of_u8 (d ! 0)) else if d ! 0 = BackSpace then Erase else Other
      else if d = [CarriageReturn, NUL] then Enter
      else if d = [0x1B, 0x5B, 0x41] then Up
      else if d = [0x1B, 0x5B, 0x42] then Down
      else Other)"

definition editor_of :: "telnet_session \<Rightarrow> editor" where
  "editor_of s = \<lparr>ed_line = t_buffer s, ed_history = t_history s,
     ed_shown = (if t_history s = [] then None else Some (t_history s ! historyPos s)), ed_done = t_lines s\<rparr>"

lemma dropWhile_nth_distinct:
  "distinct h \<Longrightarrow> i < length h \<Longrightarrow> dropWhile (\<lambda>y. y \<noteq> h ! i) h = drop i h"
proof (induction h arbitrary: i)
  case (Cons x h)
  show ?case
  proof (cases i)
    case (Suc j)
    then have "h ! j \<noteq> x" using Cons.prems by (metis distinct.simps(2) length_Cons nth_mem Suc_less_eq)
    with Suc Cons show ?thesis by simp
  qed simp
qed simp

lemma line_after_nth:
  assumes "distinct h" "i < length h"
  shows "line_after h (h ! i) = h ! (if i \<noteq> length h - 1 then i + 1 else 0)"
proof -
  have after: "line_after h (h ! i) = hd (drop (Suc i) h @ h)"
    by (simp add: line_after_def dropWhile_nth_distinct [OF assms] drop_Suc tl_drop)
  show ?thesis
  proof (cases "Suc i < length h")
    case True
    then have "i \<noteq> length h - 1" by simp
    with True show ?thesis using after by (simp add: hd_append hd_drop_conv_nth)
  next
    case False
    then have "i = length h - 1" "drop (Suc i) h = []" "h \<noteq> []" using assms(2) by auto
    then show ?thesis using after by (simp add: hd_conv_nth)
  qed
qed

lemma line_before_nth:
  assumes "distinct h" "i < length h"
  shows "line_after (rev h) (h ! i) = h ! (if i \<noteq> 0 then i - 1 else length h - 1)"
proof -
  let ?j = "length h - 1 - i"
  have j: "?j < length (rev h)" and n: "rev h ! ?j = h ! i" using assms(2) by (simp_all add: rev_nth)
  have "line_after (rev h) (h ! i) = rev h ! (if ?j \<noteq> length (rev h) - 1 then ?j + 1 else 0)"
    using line_after_nth [of "rev h" ?j] assms(1) j n by simp
  also have "\<dots> = h ! (if i \<noteq> 0 then i - 1 else length h - 1)"
  proof (cases "i = 0")
    case True
    then show ?thesis using assms(2) by (simp add: rev_nth)
  next
    case False
    then have "?j \<noteq> length (rev h) - 1" "?j + 1 < length h" "length h - Suc (?j + 1) = i - 1" using assms(2) by auto
    with False show ?thesis by (simp add: rev_nth)
  qed
  finally show ?thesis .
qed

section \<open>The session implements the editor\<close>

lemma show_line_goes_to:
  assumes "telnet_inv s" "pos < length (t_history s)"
  shows "\<exists>s'. show_line pos s = Inr s' \<and> editor_of s' = go_to (t_history s ! pos) (editor_of s) \<and> telnet_inv s'
    \<and> t_state s' = t_state s \<and> t_pending s' = t_pending s"
proof -
  have "t_history s \<noteq> []" using assms(2) by auto
  moreover obtain s' where "show_line pos s = Inr s'" "telnet_inv s'" "t_buffer s' = t_history s ! pos" "t_history s' = t_history s"
    "historyPos s' = pos" "t_lines s' = t_lines s" "t_state s' = t_state s" "t_pending s' = t_pending s"
    using show_line_inv [OF assms] by blast
  ultimately show ?thesis by (intro exI [of _ s']) (simp add: editor_of_def go_to_def)
qed

lemma arrow_refines:
  assumes "telnet_inv s"
  shows "\<exists>s'. processEscapeSequence d s = Inr s' \<and> editor_of s' = edit (editor_of s)
      (if d = [0x1B, 0x5B, 0x41] then Up else if d = [0x1B, 0x5B, 0x42] then Down else Other)
    \<and> telnet_inv s' \<and> t_state s' = t_state s \<and> t_pending s' = t_pending s"
proof (cases "1 < length (t_history s) \<and> d \<in> {[0x1B, 0x5B, 0x41], [0x1B, 0x5B, 0x42]}")
  case True
  then have ne: "t_history s \<noteq> []" by auto
  have h: "distinct (t_history s)" "historyPos s < length (t_history s)"
    using assms ne by (simp_all add: telnet_inv_def history_ok_def)
  let ?up = "if historyPos s \<noteq> 0 then historyPos s - 1 else length (t_history s) - 1"
  let ?down = "if historyPos s \<noteq> length (t_history s) - 1 then historyPos s + 1 else 0"
  have lt: "?up < length (t_history s)" "?down < length (t_history s)" using h(2) by auto
  have e: "edit (editor_of s) Up = go_to (t_history s ! ?up) (editor_of s)"
    "edit (editor_of s) Down = go_to (t_history s ! ?down) (editor_of s)"
    using True ne line_before_nth [OF h] line_after_nth [OF h] by (simp_all add: editor_of_def)
  have r: "processEscapeSequence [0x1B, 0x5B, 0x41] s = show_line ?up s" "processEscapeSequence [0x1B, 0x5B, 0x42] s = show_line ?down s"
    using True by (simp_all add: processEscapeSequence_def Let_def)
  have "d = [0x1B, 0x5B, 0x41] \<or> d = [0x1B, 0x5B, 0x42]" using True by simp
  then show ?thesis
  proof
    assume d: "d = [0x1B, 0x5B, 0x41]"
    show ?thesis unfolding d r(1) if_P [OF refl] e(1) using show_line_goes_to [OF assms lt(1)] .
  next
    assume d: "d = [0x1B, 0x5B, 0x42]"
    then have n: "d \<noteq> [0x1B, 0x5B, 0x41]" by simp
    show ?thesis unfolding if_not_P [OF n] unfolding d r(2) if_P [OF refl] e(2) using show_line_goes_to [OF assms lt(2)] .
  qed
next
  case False
  have "edit (editor_of s) Up = editor_of s \<and> edit (editor_of s) Down = editor_of s" if "\<not> 1 < length (t_history s)"
    using that by (simp add: editor_of_def split: option.split)
  with False have "processEscapeSequence d s = Inr s" "edit (editor_of s)
      (if d = [0x1B, 0x5B, 0x41] then Up else if d = [0x1B, 0x5B, 0x42] then Down else Other) = editor_of s"
    by (auto simp: processEscapeSequence_def Let_def)
  with assms show ?thesis by simp
qed

lemma length_1E: "length d = 1 \<Longrightarrow> \<exists>b. d = [b]" and length_2E: "length d = 2 \<Longrightarrow> \<exists>b c. d = [b, c]"
  by (cases d; simp) (cases d; cases "tl d"; simp)+

lemma enter_refines:
  assumes "telnet_inv s" "t_state s = Interaction"
  shows "telnet_inv ((addToHistory (t_buffer s) (s\<lparr>t_lines := t_lines s @ [t_buffer s]\<rparr>))\<lparr>t_buffer := []\<rparr>)"
    and "editor_of ((addToHistory (t_buffer s) (s\<lparr>t_lines := t_lines s @ [t_buffer s]\<rparr>))\<lparr>t_buffer := []\<rparr>) = edit (editor_of s) Enter"
proof -
  let ?s = "s\<lparr>t_lines := t_lines s @ [t_buffer s]\<rparr>"
  have ok: "history_ok ?s" using assms(1) by (simp add: telnet_inv_def)
  note a = addToHistory_remember [OF ok, of "t_buffer s"]
  have dl: "distinct (t_history s)" "length (t_history s) \<le> 80"
    using assms(1) by (simp_all add: telnet_inv_def history_ok_def MAX_HISTORY_LENGTH_def)
  note r = remember_props [OF dl, of "t_buffer s"]
  have ne: "remember (t_buffer s) (t_history s) \<noteq> []" using r(3) by auto
  show "telnet_inv ((addToHistory (t_buffer s) ?s)\<lparr>t_buffer := []\<rparr>)"
    using assms a(1,3) r(4) by (auto simp: telnet_inv_def)
  show "editor_of ((addToHistory (t_buffer s) ?s)\<lparr>t_buffer := []\<rparr>) = edit (editor_of s) Enter"
    using a(1,2) ne by (simp add: editor_of_def)
qed

lemma on_interaction_refines:
  assumes "telnet_inv s" "t_state s = Interaction"
  shows "\<exists>s'. on_interaction d s = Inr s' \<and> editor_of s' = edit (editor_of s) (key_of d) \<and> telnet_inv s'
    \<and> t_state s' = t_state s \<and> t_pending s' = t_pending s"
proof -
  have ed: "editor_of (t_send e u) = editor_of u" "editor_of (sendLine l u) = editor_of u" "editor_of (sendEraseLine u) = editor_of u" for e l u
    by (simp_all add: editor_of_def)
  consider b where "d = [b]" "isprint_u8 b" | b where "d = [b]" "\<not> isprint_u8 b" "b = BackSpace" | b where "d = [b]" "\<not> isprint_u8 b" "b \<noteq> BackSpace"
    | "d = [CarriageReturn, NUL]" | b c where "d = [b, c]" "d \<noteq> [CarriageReturn, NUL]" | "length d = 3" "d ! 0 = 0x1B"
    | "length d = 3" "d ! 0 \<noteq> 0x1B" | "length d \<noteq> 1" "length d \<noteq> 2" "length d \<noteq> 3"
    using length_1E [of d] length_2E [of d] by blast
  then show ?thesis
  proof cases
    case (1 b)
    have "printable (t_buffer s @ [char_of_u8 b])" using assms(1) 1(2) by (simp add: telnet_inv_def)
    with 1 assms show ?thesis by (simp add: on_interaction_def key_of_def ed telnet_inv_buffer) (simp add: editor_of_def)
  next
    case (2 b)
    have t: "take (length (t_buffer s) - 1) (t_buffer s) = butlast (t_buffer s)" by (simp add: butlast_conv_take)
    have "printable (butlast (t_buffer s))" using assms(1) by (auto simp: telnet_inv_def dest: in_set_butlastD)
    with 2 assms show ?thesis by (simp add: on_interaction_def key_of_def ed telnet_inv_buffer Let_def t [simplified]) (simp add: editor_of_def)
  next
    case 4
    then have "on_interaction d s = Inr (sendEraseLine ((addToHistory (t_buffer s) (s\<lparr>t_lines := t_lines s @ [t_buffer s]\<rparr>))\<lparr>t_buffer := []\<rparr>))"
      by (simp add: on_interaction_def Let_def)
    moreover have "key_of d = Enter" using 4 by (simp add: key_of_def)
    ultimately show ?thesis using enter_refines [OF assms] assms(2) by (simp add: ed del: edit.simps)
  next
    case 6
    then have "key_of d = (if d = [0x1B, 0x5B, 0x41] then Up else if d = [0x1B, 0x5B, 0x42] then Down else Other)"
      by (auto simp: key_of_def)
    with arrow_refines [OF assms(1), of d] 6 show ?thesis by (simp add: on_interaction_def)
  qed (use assms in \<open>auto simp: on_interaction_def key_of_def telnet_codes\<close>)
qed

fun edit_event :: "editor \<Rightarrow> telnet_event \<Rightarrow> editor" where
  "edit_event ed (Telnet_Read d) = edit ed (key_of d)"
| "edit_event ed e = ed"

lemma telnet_step_refines:
  "telnet_step s e s' \<Longrightarrow> telnet_inv s \<and> t_state s = Interaction \<Longrightarrow>
    (telnet_inv s' \<and> t_state s' = Interaction) \<and> editor_of s' = edit_event (editor_of s) e"
proof (induction rule: telnet_step.induct)
  case (telnet_read s d s')
  then show ?case using on_interaction_refines [of s d] by (auto simp: on_telnet_read_def)
qed (auto simp: on_option_written_def editor_of_def telnet_inv_buffer)

interpretation line_editor: simulation telnet_step telnet_run "\<lambda>s. telnet_inv s \<and> t_state s = Interaction" editor_of edit_event
  by unfold_locales (rule telnet_step_refines, assumption+, auto simp: telnet_run_cons)

section \<open>The invariant of all states\<close>

lemma on_negotiation_inv: "telnet_inv s \<Longrightarrow> t_state s = Negotiation \<Longrightarrow> telnet_inv (on_negotiation d s)"
  using startAuthentication_inv by (simp add: on_negotiation_def Let_def)

lemma telnet_step_inv: "telnet_step s e s' \<Longrightarrow> telnet_inv s \<Longrightarrow> telnet_inv s'"
proof (induction rule: telnet_step.induct)
  case (telnet_read s d s')
  then show ?case
    using on_interaction_refines [of s d] on_authentication_inv [of s d] on_negotiation_inv [of s d]
    by (cases "t_state s") (auto simp: on_telnet_read_def)
qed (auto simp: on_option_written_def)

lemma telnet_inv_start: "telnet_inv (t_start new_telnet_session)"
  by (simp add: t_start_def new_telnet_session_def telnet_inv_def history_ok_def)

lemma telnet_read_total: "telnet_inv s \<Longrightarrow> \<exists>s'. on_telnet_read d s = Inr s' \<and> t_pending s' = t_pending s"
  using on_interaction_refines [of s d]
  by (cases "t_state s")
    (auto simp: on_telnet_read_def on_negotiation_def on_authentication_def startAuthentication_def startInteraction_def Let_def)

end
