(* ===== verification/Telnet_Server.thy ===== *)
theory Telnet_Server
  imports Telnet_Editor
begin

text \<open>
  \<open>telnet/server: TelnetServer\<close>: the list of sessions, accepting connections, and the signal that
  stops the event loop. Sessions are never taken out of the list (\<open>sessionFinished\<close> is empty and
  nothing calls it).
\<close>

record telnet_server =
  tl_sessions :: "telnet_session list"
  tl_open :: bool
  tl_running :: bool

definition new_telnet_server :: telnet_server where
  "new_telnet_server = \<lparr>tl_sessions = [], tl_open = True, tl_running = True\<rparr>"

text \<open>An accepted connection whose peer has gone already makes \<open>remote_endpoint\<close> throw; that is caught.\<close>

datatype accept_outcome = Accept_Failed | Endpoint_Threw | Accepted

definition telnet_accept :: "accept_outcome \<Rightarrow> telnet_server \<Rightarrow> telnet_server" where
  "telnet_accept oc srv =
     (if \<not> tl_open srv then srv
      else case oc of
             Accepted \<Rightarrow> srv\<lparr>tl_sessions := tl_sessions srv @ [t_start new_telnet_session]\<rparr>
           | _ \<Rightarrow> srv)"

definition sessionFinished :: "nat \<Rightarrow> telnet_server \<Rightarrow> telnet_server" where
  "sessionFinished i srv = srv"

definition telnet_shutdown :: "telnet_server \<Rightarrow> telnet_server" where
  "telnet_shutdown srv = srv\<lparr>tl_open := False, tl_running := False\<rparr>"

datatype telnet_server_event = Tl_Accept accept_outcome | Tl_Session nat telnet_event | Tl_Signal bool

inductive telnet_server_step :: "telnet_server \<Rightarrow> telnet_server_event \<Rightarrow> telnet_server \<Rightarrow> bool" where
  tl_accept: "tl_running srv \<Longrightarrow> telnet_server_step srv (Tl_Accept oc) (telnet_accept oc srv)"
| tl_session: "tl_running srv \<Longrightarrow> i < length (tl_sessions srv) \<Longrightarrow> telnet_step (tl_sessions srv ! i) e s \<Longrightarrow>
     telnet_server_step srv (Tl_Session i e) (srv\<lparr>tl_sessions := (tl_sessions srv)[i := s]\<rparr>)"
| tl_signal: "tl_running srv \<Longrightarrow> telnet_server_step srv (Tl_Signal ok) (if ok then telnet_shutdown srv else srv)"

inductive telnet_server_run :: "telnet_server \<Rightarrow> telnet_server_event list \<Rightarrow> telnet_server \<Rightarrow> bool" where
  tl_nil: "telnet_server_run srv [] srv"
| tl_cons: "telnet_server_step srv e srv' \<Longrightarrow> telnet_server_run srv' es srv'' \<Longrightarrow> telnet_server_run srv (e # es) srv''"

inductive_cases telnet_server_sessionE: "telnet_server_step srv (Tl_Session i e) srv'"

interpretation telnet_srv: event_machine telnet_server_step telnet_server_run
  by unfold_locales (auto elim: telnet_server_run.cases)

definition telnet_server_inv :: "telnet_server \<Rightarrow> bool" where
  "telnet_server_inv srv \<longleftrightarrow> (\<forall>s \<in> set (tl_sessions srv). telnet_inv s)"

lemma telnet_server_step_inv: "telnet_server_step srv e srv' \<Longrightarrow> telnet_server_inv srv \<Longrightarrow> telnet_server_inv srv'"
proof (induction rule: telnet_server_step.induct)
  case (tl_accept srv oc)
  then show ?case using telnet_inv_start by (auto simp: telnet_server_inv_def telnet_accept_def split: accept_outcome.split)
next
  case (tl_session srv i e s)
  then have "telnet_inv s" using telnet_step_inv [OF tl_session.hyps(3)] by (simp add: telnet_server_inv_def)
  then show ?case using tl_session.prems set_update_subset_insert [of "tl_sessions srv" i s]
    by (auto simp: telnet_server_inv_def)
qed (simp add: telnet_server_inv_def telnet_shutdown_def)

lemma telnet_server_run_inv: "telnet_server_run srv es srv' \<Longrightarrow> telnet_server_inv srv \<Longrightarrow> telnet_server_inv srv'"
  by (rule telnet_srv.run_invariant) (auto intro: telnet_server_step_inv)

end
