(* ===== verification/Telnet_Properties.thy ===== *)
theory Telnet_Properties
  imports Telnet_Server
begin

text \<open>
  The properties of the Telnet server of \<open>telnet/server\<close>: its line editor, its login, and the
  input it cannot read.
\<close>

section \<open>All sessions\<close>

text \<open>C24: in every state the server can reach, what a session keeps of its input - the line, the history, user and
  password, the completed lines - is printable text; the history holds at most eighty different lines and
  its position is inside it; and only a session whose user and password are those of the test user edits
  lines or has completed any.\<close>
theorem telnet_sessions_well_formed:
  assumes "telnet_server_run new_telnet_server es srv" "s \<in> set (tl_sessions srv)"
  shows "(\<forall>l \<in> set (t_buffer s # t_username s # t_password s # t_history s @ t_lines s). printable l)
    \<and> length (t_history s) \<le> 80 \<and> distinct (t_history s) \<and> (t_history s \<noteq> [] \<longrightarrow> historyPos s < length (t_history s))
    \<and> (t_state s = Interaction \<or> t_lines s \<noteq> [] \<longrightarrow> t_username s = ''testuser'' \<and> t_password s = ''testpassword'')"
proof -
  have "telnet_server_inv new_telnet_server" by (simp add: telnet_server_inv_def new_telnet_server_def)
  from telnet_server_run_inv [OF assms(1) this] assms(2) show ?thesis
    by (auto simp: telnet_server_inv_def telnet_inv_def history_ok_def MAX_HISTORY_LENGTH_def authorize_def)
qed

lemma one_telnet_session:
  "telnet_server_run new_telnet_server [Tl_Accept Accepted]
     \<lparr>tl_sessions = [t_start new_telnet_session], tl_open = True, tl_running = True\<rparr>"
  using tl_cons [OF tl_accept tl_nil, of new_telnet_server Accepted] by (simp add: new_telnet_server_def telnet_accept_def)

theorem telnet_sessions_well_formed_witness:
  "length (t_history (t_start new_telnet_session)) \<le> 80 \<and> distinct (t_history (t_start new_telnet_session))"
  using telnet_sessions_well_formed [OF one_telnet_session, of "t_start new_telnet_session"] by simp

section \<open>The editor\<close>

lemma telnet_run_inv: "telnet_run s es s' \<Longrightarrow> telnet_inv s \<Longrightarrow> telnet_inv s'"
  by (induction rule: telnet_run.induct) (auto dest: telnet_step_inv)

text \<open>C5: once a user has logged in, the session is a line editor: over any run, the line shown, the history, the line of
  the history last shown and the completed lines are those of an abstract editor that is given one key per
  received segment. It never fails: in every state a run reaches, the handler of a received segment returns, whatever the
  octets of the segment, and the editor takes its key.\<close>
theorem session_is_line_editor:
  assumes "telnet_run s es s'" "telnet_inv s" "t_state s = Interaction"
  shows "editor_of s' = foldl edit_event (editor_of s) es \<and> t_state s' = Interaction
    \<and> (\<forall>d. \<exists>t. on_telnet_read d s' = Inr t \<and> editor_of t = edit_event (editor_of s') (Telnet_Read d) \<and> t_state t = Interaction)"
proof -
  have sim: "editor_of s' = foldl edit_event (editor_of s) es \<and> t_state s' = Interaction"
    using line_editor.run_simulates [OF assms(1)] assms(2,3) by blast
  have inv: "telnet_inv s'" using telnet_run_inv [OF assms(1,2)] .
  from sim on_interaction_refines [OF inv] show ?thesis by (auto simp: on_telnet_read_def)
qed

definition logged_in :: telnet_session where
  "logged_in = new_telnet_session\<lparr>t_username := ''testuser'', t_password := ''testpassword'', t_state := Interaction, t_pending := Receiving\<rparr>"

lemma logged_in_ok: "telnet_inv logged_in" "t_state logged_in = Interaction"
  by (auto simp: logged_in_def new_telnet_session_def telnet_inv_def history_ok_def authorize_def
      u8_of_char_def isprint_u8_def)

lemma reads_possible:
  assumes "telnet_inv s" "t_pending s = Receiving" "\<forall>e \<in> set es. \<exists>d. e = Telnet_Read d \<and> d \<noteq> [] \<and> length d \<le> 512"
  shows "\<exists>s'. telnet_run s es s'"
  using assms
proof (induction es arbitrary: s)
  case (Cons e es)
  then obtain d where d: "e = Telnet_Read d" "d \<noteq> []" "length d \<le> 512" by auto
  obtain t where t: "on_telnet_read d s = Inr t" "t_pending t = Receiving"
    using telnet_read_total [OF Cons.prems(1), of d] Cons.prems(2) by auto
  have step: "telnet_step s e t" unfolding d(1) by (rule telnet_read [OF Cons.prems(2) d(2,3) t(1)])
  from telnet_step_inv [OF step Cons.prems(1)] Cons.IH [of t] t(2) Cons.prems(3) step show ?case
    by (auto intro: telnet_cons)
qed (auto intro: telnet_nil)

theorem session_is_line_editor_witness:
  "\<exists>s'. telnet_run logged_in [Telnet_Read [0x6C], Telnet_Read [0x73], Telnet_Read [13, 0]] s' \<and> t_lines s' = [''ls'']
    \<and> t_history s' = [''ls''] \<and> t_buffer s' = []"
proof -
  let ?es = "[Telnet_Read [0x6C], Telnet_Read [0x73], Telnet_Read [13, 0 :: u8]]"
  have "t_pending logged_in = Receiving" by (simp add: logged_in_def)
  then obtain s' where run: "telnet_run logged_in ?es s'"
    using reads_possible [OF logged_in_ok(1), of ?es] by auto
  have k: "key_of [0x6C] = Key (CHR ''l'')" "key_of [0x73] = Key (CHR ''s'')" "key_of [13, 0] = Enter"
    by (simp_all add: key_of_def isprint_u8_def char_of_u8_def char_of_def bit_simps telnet_codes)
  have "foldl edit_event (editor_of logged_in) ?es
      = \<lparr>ed_line = [], ed_history = [''ls''], ed_shown = Some ''ls'', ed_done = [''ls'']\<rparr>"
    using k by (simp add: editor_of_def logged_in_def new_telnet_session_def remember_def)
  then have "editor_of s' = \<lparr>ed_line = [], ed_history = [''ls''], ed_shown = Some ''ls'', ed_done = [''ls'']\<rparr>"
    using session_is_line_editor [OF run logged_in_ok] by simp
  with run show ?thesis by (intro exI [of _ s']) (simp add: editor_of_def)
qed

section \<open>Login\<close>

definition typed :: "string \<Rightarrow> telnet_event list" where
  "typed l = map (\<lambda>c. Telnet_Read [u8_of_char c]) l"

abbreviation enter :: telnet_event where
  "enter \<equiv> Telnet_Read [CarriageReturn, NUL]"

lemma telnet_run_append: "telnet_run s es t \<Longrightarrow> telnet_run t es' u \<Longrightarrow> telnet_run s (es @ es') u"
  by (induction rule: telnet_run.induct) (auto intro: telnet_cons)

lemma typed_run:
  "t_state s = Authentication \<Longrightarrow> t_pending s = Receiving \<Longrightarrow> printable l \<Longrightarrow>
    telnet_run s (typed l) (s\<lparr>t_buffer := t_buffer s @ l, t_sent := t_sent s @ replicate (length l) (to_bytes ''*'')\<rparr>)"
proof (induction l arbitrary: s)
  case Nil
  then show ?case by (simp add: typed_def telnet_nil)
next
  case (Cons c l)
  let ?t = "s\<lparr>t_buffer := t_buffer s @ [c], t_sent := t_sent s @ [to_bytes ''*'']\<rparr>"
  have "telnet_step s (Telnet_Read [u8_of_char c]) ?t"
    using Cons.prems by (intro telnet_read) (simp_all add: on_telnet_read_def on_authentication_def t_send_def to_bytes_def)
  with Cons.IH [of ?t] Cons.prems show ?case by (auto simp: typed_def intro: telnet_cons)
qed

lemma enter_step:
  assumes "t_state s = Authentication" "t_pending s = Receiving"
  shows "telnet_step s enter (on_authentication [CarriageReturn, NUL] s)"
  using assms by (intro telnet_read) (simp_all add: on_telnet_read_def)

lemma login_run:
  assumes "t_state s = Authentication" "t_pending s = Receiving" "t_username s = []" "t_buffer s = []"
    and "printable u" "u \<noteq> []" "printable p"
  shows "\<exists>s'. telnet_run s (typed u @ [enter] @ typed p @ [enter]) s' \<and> t_buffer s' = [] \<and> t_pending s' = Receiving \<and> t_lines s' = t_lines s
    \<and> (if u = ''testuser'' \<and> p = ''testpassword'' then t_state s' = Interaction \<and> t_username s' = u
       else t_state s' = Authentication \<and> t_username s' = [])
    \<and> (\<exists>rest. t_sent s' = t_sent s @ replicate (length u) (to_bytes ''*'') @ [[CarriageReturn, LineFeed], to_bytes ''Password: '']
        @ replicate (length p) (to_bytes ''*'') @ [[CarriageReturn, LineFeed]] @ rest)"
proof -
  let ?s1 = "s\<lparr>t_buffer := u, t_sent := t_sent s @ replicate (length u) (to_bytes ''*'')\<rparr>"
  define s2 where "s2 = s\<lparr>t_username := u, t_buffer := [], t_sent := t_sent s @ replicate (length u) (to_bytes ''*'')
      @ [[CarriageReturn, LineFeed], to_bytes ''Password: '']\<rparr>"
  have e2: "on_authentication [CarriageReturn, NUL] ?s1 = s2"
    using assms(3) by (simp add: on_authentication_def sendLine_def t_send_def Let_def s2_def)
  let ?s3 = "s2\<lparr>t_buffer := p, t_sent := t_sent s2 @ replicate (length p) (to_bytes ''*'')\<rparr>"
  define t where "t = s2\<lparr>t_buffer := [], t_password := p,
      t_sent := t_sent s2 @ replicate (length p) (to_bytes ''*'') @ [[CarriageReturn, LineFeed]]\<rparr>"
  define s4 where "s4 = (if u = ''testuser'' \<and> p = ''testpassword'' then startInteraction t else startAuthentication t)"
  have e4: "on_authentication [CarriageReturn, NUL] ?s3 = s4"
    using assms(6) by (cases s) (simp add: on_authentication_def Let_def authorize_def t_send_def s4_def t_def s2_def)
  have st: "t_state s2 = Authentication" "t_pending s2 = Receiving" "t_buffer s2 = []" using assms(1,2) by (simp_all add: s2_def)
  have "telnet_run s (typed u) ?s1" using typed_run [OF assms(1,2,5)] assms(4) by simp
  moreover have "telnet_run ?s1 [enter] s2" using enter_step [of ?s1] assms(1,2) e2 by (auto intro: telnet_cons telnet_nil)
  moreover have "telnet_run s2 (typed p) ?s3" using typed_run [OF st(1,2) assms(7)] st(3) by simp
  moreover have "telnet_run ?s3 [enter] s4" using enter_step [of ?s3] st(1,2) e4 by (auto intro: telnet_cons telnet_nil)
  ultimately have run: "telnet_run s (typed u @ [enter] @ typed p @ [enter]) s4" by (blast intro: telnet_run_append)
  have "\<exists>rest. t_sent s4 = t_sent t @ rest" by (simp add: s4_def startInteraction_def startAuthentication_def sendLine_def t_send_def)
  moreover have "t_sent t = t_sent s @ replicate (length u) (to_bytes ''*'') @ [[CarriageReturn, LineFeed], to_bytes ''Password: '']
      @ replicate (length p) (to_bytes ''*'') @ [[CarriageReturn, LineFeed]]" by (simp add: t_def s2_def)
  moreover have "t_buffer s4 = []" "t_pending s4 = Receiving" "t_lines s4 = t_lines s" "if u = ''testuser'' \<and> p = ''testpassword''
      then t_state s4 = Interaction \<and> t_username s4 = u else t_state s4 = Authentication \<and> t_username s4 = []"
    using assms(2) by (simp_all add: s4_def startInteraction_def startAuthentication_def t_def s2_def)
  ultimately show ?thesis using run by (intro exI [of _ s4]) simp
qed

text \<open>C25: the login dialogue: a user name and a password typed one character at a time, each ended by carriage return
  and NUL, lead to the interaction exactly for the test user; otherwise everything is forgotten and the
  user name is asked for again. Every character is echoed as an asterisk, the user name's too.\<close>
theorem login_dialogue:
  assumes "t_state s = Authentication" "t_pending s = Receiving" "t_username s = []" "t_buffer s = []"
    and "printable u" "u \<noteq> []" "printable p"
  shows "\<exists>s'. telnet_run s (typed u @ [enter] @ typed p @ [enter]) s' \<and> t_buffer s' = [] \<and> t_pending s' = Receiving
    \<and> (if u = ''testuser'' \<and> p = ''testpassword'' then t_state s' = Interaction \<and> t_username s' = u
       else t_state s' = Authentication \<and> t_username s' = [])
    \<and> (\<exists>rest. t_sent s' = t_sent s @ replicate (length u) (to_bytes ''*'') @ [[CarriageReturn, LineFeed], to_bytes ''Password: '']
        @ replicate (length p) (to_bytes ''*'') @ [[CarriageReturn, LineFeed]] @ rest)"
  using login_run [OF assms] by blast

theorem login_dialogue_witness:
  "\<exists>s'. telnet_run (startAuthentication new_telnet_session\<lparr>t_pending := Receiving\<rparr>)
     (typed ''testuser'' @ [enter] @ typed ''testpassword'' @ [enter]) s' \<and> t_state s' = Interaction"
proof -
  let ?s = "startAuthentication new_telnet_session\<lparr>t_pending := Receiving\<rparr>"
  have pre: "t_state ?s = Authentication" "t_pending ?s = Receiving" "t_username ?s = []" "t_buffer ?s = []"
    by (simp_all add: startAuthentication_def new_telnet_session_def)
  have p: "printable ''testuser''" "printable ''testpassword''" "''testuser'' \<noteq> []"
    by (simp_all add: isprint_u8_def u8_of_char_def)
  from login_dialogue [OF pre p(1,3,2)] show ?thesis by auto
qed

section \<open>Input that is not read\<close>

lemma no_enter_step:
  assumes "telnet_step s e s'" "e \<noteq> enter"
  shows "t_lines s' = t_lines s \<and> (t_state s' = Interaction \<longrightarrow> t_state s = Interaction)"
  using assms
proof (induction rule: telnet_step.induct)
  case (telnet_read s d s')
  then have "length d = 2 \<Longrightarrow> \<not> (d ! 0 = CarriageReturn \<and> d ! 1 = NUL)" using length_2E [of d] by auto
  moreover have "t_lines u = t_lines s \<and> t_state u = t_state s" if "show_line pos s = Inr u" for pos u
    using that by (auto simp: show_line_def bind_res_eq_Inr)
  ultimately show ?case using telnet_read
    by (cases "t_state s")
      (auto simp: on_telnet_read_def on_negotiation_def on_authentication_def on_interaction_def startAuthentication_def
        processEscapeSequence_def Let_def split: if_splits)
qed (auto simp: on_option_written_def)

text \<open>The only end of a line the session knows is carriage return and NUL in a segment of their own: from a client
  that sends CR LF, or several characters at a time, no line is ever completed and no login succeeds.\<close>
theorem only_cr_nul_ends_lines:
  assumes "telnet_run s es s'" "enter \<notin> set es"
  shows "t_lines s' = t_lines s \<and> (t_state s' = Interaction \<longrightarrow> t_state s = Interaction)"
  using assms
proof (induction rule: telnet_run.induct)
  case (telnet_cons s e s' es s'')
  then show ?case using no_enter_step [OF telnet_cons.hyps(1)] by auto
qed simp

theorem only_cr_nul_ends_lines_witness:
  "\<exists>s'. telnet_run logged_in [Telnet_Read [0x6C], Telnet_Read [13, 10]] s' \<and> t_lines s' = []"
proof -
  let ?es = "[Telnet_Read [0x6C], Telnet_Read [13, 10 :: u8]]"
  have "t_pending logged_in = Receiving" by (simp add: logged_in_def)
  then obtain s' where run: "telnet_run logged_in ?es s'"
    using reads_possible [OF logged_in_ok(1), of ?es] by auto
  have "enter \<notin> set ?es" by (simp add: telnet_codes)
  from only_cr_nul_ends_lines [OF run this] run show ?thesis
    by (auto simp: logged_in_def new_telnet_session_def)
qed

lemma confirm_options_last_DO:
  "DO \<notin> set d \<Longrightarrow> confirm_options d opts = opts" "DO \<notin> set d \<Longrightarrow> confirm_options (d @ [DO]) opts = opts"
  by (induction d) auto

text \<open>An option is confirmed only by a segment that holds it together with its DO: if every DO is the last octet of its
  segment, whatever options follow in the next segments, the negotiation never ends.\<close>
theorem split_confirmation_lost:
  assumes "telnet_run s es s'" "t_state s = Negotiation" "optionsToConfirm s \<noteq> []"
    and "\<forall>d. Telnet_Read d \<in> set es \<longrightarrow> DO \<notin> set (butlast d)"
  shows "t_state s' = Negotiation \<and> optionsToConfirm s' = optionsToConfirm s"
  using assms
proof (induction rule: telnet_run.induct)
  case (telnet_cons s e s' es s'')
  have "t_state s' = Negotiation \<and> optionsToConfirm s' = optionsToConfirm s"
    using telnet_cons.hyps(1) telnet_cons.prems
  proof (cases rule: telnet_step.cases)
    case (telnet_read d)
    have b: "DO \<notin> set (butlast d)" using telnet_cons.prems(3) telnet_read(1) by simp
    have "d = butlast d @ [last d]" using telnet_read(3) by simp
    then have "confirm_options d opts = opts" for opts
      using confirm_options_last_DO [OF b] confirm_options_last_DO(1) [of d] b
      by (cases "last d = DO") (metis, metis Un_iff empty_iff insert_iff list.set(1,2) set_append)
    with telnet_read telnet_cons.prems show ?thesis
      by (simp add: on_telnet_read_def on_negotiation_def Let_def)
  qed (auto simp: on_option_written_def)
  with telnet_cons show ?case by auto
qed simp

theorem split_confirmation_lost_witness:
  "\<exists>s'. telnet_run (t_start new_telnet_session\<lparr>t_pending := Receiving\<rparr>) [Telnet_Read [IAC, DO], Telnet_Read [Echo]] s' \<and> t_state s' = Negotiation"
proof -
  let ?s = "t_start new_telnet_session\<lparr>t_pending := Receiving\<rparr>" and ?es = "[Telnet_Read [IAC, DO], Telnet_Read [Echo]]"
  have "telnet_inv ?s" "t_pending ?s = Receiving" using telnet_inv_start by (simp_all add: t_start_def)
  then obtain s' where run: "telnet_run ?s ?es s'" using reads_possible [of ?s ?es] by auto
  have pre: "t_state ?s = Negotiation" "optionsToConfirm ?s \<noteq> []" "\<forall>d. Telnet_Read d \<in> set ?es \<longrightarrow> DO \<notin> set (butlast d)"
    by (simp_all add: t_start_def new_telnet_session_def telnet_codes)
  from split_confirmation_lost [OF run pre] run show ?thesis by blast
qed

end
