(* ===== verification/Server_Programs.thy ===== *)
theory Server_Programs
  imports Server_Lifecycle
begin

text \<open>
  The \<open>main\<close> functions of the SMTP, TFTP, Telnet and FTP servers: construct the server, call \<open>start\<close>,
  and end with the status that an exception or the end of the event loop leads to. What happens in the event
  loop is seen from the listening socket; the sessions are in the theories of the servers.
\<close>

section \<open>Inside \<open>start\<close>\<close>

text \<open>While \<open>main\<close> is inside \<open>start\<close> it calls neither \<open>start\<close> nor \<open>stop\<close>; these are the events left.\<close>

datatype loop_event = L_Completed | L_Ended | L_Signal bool | L_Accept_Threw | L_Other_Threw

primrec io_event_of :: "loop_event \<Rightarrow> io_event" where
  "io_event_of L_Completed = Completed"
| "io_event_of L_Ended = Ended"
| "io_event_of (L_Signal ok) = Io_Signal ok"
| "io_event_of L_Accept_Threw = Accept_Threw"
| "io_event_of L_Other_Threw = Other_Threw"

text \<open>\<open>_ioContext.run()\<close>: \<open>None\<close> while it blocks, else whether it ends by an exception and the state it leaves.\<close>

fun context_run :: "(start_env \<Rightarrow> server_io \<Rightarrow> start_result) \<Rightarrow> (server_io \<Rightarrow> server_io) \<Rightarrow> (bool \<Rightarrow> server_io \<Rightarrow> server_io)
    \<Rightarrow> loop_event list \<Rightarrow> server_io \<Rightarrow> (bool \<times> server_io) option" where
  "context_run start stop rearm [] io = None"
| "context_run start stop rearm (e # es) io =
     (let io' = io_step start stop rearm (io_event_of e) io in
      if io_running io' then context_run start stop rearm es io'
      else Some (e = L_Accept_Threw \<or> e = L_Other_Threw, io'))"

section \<open>The programs\<close>

text \<open>The status the process ends with, and the server as its destructor leaves it; \<open>None\<close> while the program runs.\<close>

definition smtp_server_main :: "start_env \<Rightarrow> loop_event list \<Rightarrow> (int \<times> server_io) option" where
  "smtp_server_main env es =
     (case smtp_server_start env new_server_io of
        (Some x, io) \<Rightarrow> Some (-1, smtp_server_destroy io)
      | (None, io) \<Rightarrow>
          (case context_run smtp_server_start smtp_server_stop rearm_always es io of
             None \<Rightarrow> None
           | Some (threw, io) \<Rightarrow> Some (if threw then -1 else 0, smtp_server_destroy io)))"

definition tftp_server_main :: "start_env \<Rightarrow> loop_event list \<Rightarrow> (int \<times> server_io) option" where
  "tftp_server_main env es =
     (case tftp_server_start False env new_server_io of
        (Some x, io) \<Rightarrow> Some (-1, io)
      | (None, io) \<Rightarrow>
          (case context_run (tftp_server_start False) tftp_server_stop rearm_always es io of
             None \<Rightarrow> None
           | Some (threw, io) \<Rightarrow> Some (if threw then -1 else 0, io)))"

definition telnet_server_main :: "start_env \<Rightarrow> loop_event list \<Rightarrow> (int \<times> server_io) option" where
  "telnet_server_main env es =
     (let EXIT_FAILURE = 1; EXIT_SUCCESS = 0 in
      case telnet_server_start env new_server_io of
        (Some x, io) \<Rightarrow> Some (EXIT_FAILURE, io)
      | (None, io) \<Rightarrow>
          (case context_run telnet_server_start telnet_server_stop rearm_if_open es io of
             None \<Rightarrow> None
           | Some (threw, io) \<Rightarrow> Some (if threw then EXIT_FAILURE else EXIT_SUCCESS, io)))"

text \<open>
  \<open>FTPServer::worker\<close>, the thread that \<open>start\<close> leaves behind: it runs the context and catches what leaves
  a handler. \<open>worker_state\<close> is the server after the events of its loop, which has ended once it is not running.
\<close>

fun worker_state :: "loop_event list \<Rightarrow> server_io \<Rightarrow> server_io" where
  "worker_state [] io = io"
| "worker_state (e # es) io =
     (if io_running io then worker_state es (io_step ftp_server_start ftp_server_stop rearm_if_open (io_event_of e) io) else io)"

text \<open>
  This \<open>start\<close> returns at once, and \<open>main\<close> goes on to \<open>while (1) yield\<close>. The result is the status, if the program has
  ended, and the server: as the failed \<open>start\<close> left it, or as its worker thread has it after the events.
\<close>

definition ftp_server_main :: "start_env \<Rightarrow> loop_event list \<Rightarrow> int option \<times> server_io" where
  "ftp_server_main env es =
     (case ftp_server_start env new_server_io of
        (Some x, io) \<Rightarrow> (Some (-1), io)
      | (None, io) \<Rightarrow> (None, worker_state es io))"

section \<open>How they end\<close>

text \<open>What the status should be: \<open>w\<close> tells whether a wait for a signal is outstanding, \<open>st\<close> is the status after an exception
  and \<open>caught\<close> says that the accept's handler catches its own.\<close>

fun loop_status :: "int \<Rightarrow> bool \<Rightarrow> bool \<Rightarrow> loop_event list \<Rightarrow> int option" where
  "loop_status st caught w [] = None"
| "loop_status st caught w (L_Signal ok # es) = (if w \<and> ok then Some 0 else loop_status st caught False es)"
| "loop_status st caught w (L_Accept_Threw # es) = (if caught then loop_status st caught w es else Some st)"
| "loop_status st caught w (L_Other_Threw # es) = Some st"
| "loop_status st caught w (e # es) = loop_status st caught w es"

definition in_loop :: "bool \<Rightarrow> server_io \<Rightarrow> bool" where
  "in_loop w io \<longleftrightarrow> io_running io \<and> io_sock io \<noteq> Sock_Closed \<and> 0 < io_pending io \<and> io_ended io = 0
     \<and> io_signals io = (if w then 1 else 0)"

context restartable
begin

lemma context_run_status:
  "in_loop w io \<Longrightarrow> map_option (\<lambda>r. if fst r then st else 0) (context_run start stop rearm es io) = loop_status st catches w es"
proof (induction es arbitrary: w io)
  case (Cons e es)
  note io = Cons.prems [unfolded in_loop_def]
  show ?case
  proof (cases e)
    case L_Completed
    have "in_loop w (rearm False (io\<lparr>io_pending := io_pending io - 1\<rparr>))" using io by (simp add: in_loop_def rearm_open)
    then show ?thesis using L_Completed io Cons.IH by (simp add: in_loop_def)
  next
    case L_Ended
    then show ?thesis using io Cons.IH [OF Cons.prems] by simp
  next
    case (L_Signal ok)
    have "in_loop False (io\<lparr>io_signals := 0\<rparr>)" "\<not> w \<Longrightarrow> in_loop False io" using io by (simp_all add: in_loop_def)
    then show ?thesis using L_Signal io Cons.IH
      by (cases w; cases ok) (simp_all add: on_io_signal_def stop_result)
  next
    case L_Accept_Threw
    let ?io = "io\<lparr>io_pending := io_pending io - 1\<rparr>"
    have "rearm True ?io = (if catches then rearm False ?io else ?io\<lparr>io_running := False\<rparr>)"
      using io by (intro rearm_threw) simp
    moreover have "in_loop w (rearm False ?io)" using io by (simp add: in_loop_def rearm_open)
    ultimately show ?thesis using L_Accept_Threw io Cons.IH by (simp add: in_loop_def)
  qed (use io in simp_all)
qed simp

end

lemma started_in_loop:
  "smtp_server_start env new_server_io = (None, io) \<Longrightarrow> in_loop True io"
  "tftp_server_start False env new_server_io = (None, io) \<Longrightarrow> in_loop True io"
  "telnet_server_start env new_server_io = (None, io) \<Longrightarrow> in_loop True io"
  by (auto simp: start_defs io_defs new_server_io_def in_loop_def split: if_splits)

lemma starts_iff:
  "fst (smtp_server_start env new_server_io) = None \<longleftrightarrow> a_address env \<and> a_open env \<and> a_bind env \<and> a_listen env"
  "fst (tftp_server_start False env new_server_io) = None \<longleftrightarrow> a_address env \<and> a_open env \<and> a_bind env"
  "fst (telnet_server_start env new_server_io) = None \<longleftrightarrow> a_address env \<and> a_open env \<and> a_bind env \<and> a_listen env"
  "fst (ftp_server_start env new_server_io) = None \<longleftrightarrow> all_granted env"
  by (auto simp: start_defs io_defs new_server_io_def all_granted_def)

text \<open>The accepts of the FTP server once it has started: one is outstanding for as long as the worker thread runs.\<close>

lemma ftp_worker_state:
  "io_running io \<Longrightarrow> io_sock io = Sock_Listening \<Longrightarrow> io_pending io = 1 \<Longrightarrow> io_ended io = 0 \<Longrightarrow> io_signals io = 0 \<Longrightarrow>
    worker_state es io = io\<lparr>io_running := L_Other_Threw \<notin> set es\<rparr>"
proof (induction es)
  case (Cons e es)
  have again: "rearm_if_open threw (io\<lparr>io_pending := 0\<rparr>) = io" for threw
    using Cons.prems by (simp add: rearm_if_open_def async_start_def)
  have stopped: "worker_state es (io\<lparr>io_running := False\<rparr>) = io\<lparr>io_running := False\<rparr>" by (cases es) simp_all
  show ?case using Cons.IH [OF Cons.prems] Cons.prems again stopped by (cases e) simp_all
qed simp

lemma ftp_started:
  "ftp_server_start env new_server_io = (None, io) \<Longrightarrow>
    io = \<lparr>io_sock = Sock_Listening, io_pending = 1, io_ended = 0, io_signals = 0, io_running = True\<rparr>"
  by (auto simp: start_defs io_defs new_server_io_def split: if_splits)

text \<open>C39: how the server programs end. SMTP, TFTP and Telnet end with the failure status when a call of \<open>start\<close> is refused or an
  exception leaves a handler, and with 0 at the first signal; after a wait for a signal that failed no signal ends them,
  because the wait is not renewed. A connection that is gone when it is accepted ends the SMTP program this way, while Telnet
  and FTP catch that exception and accept the next. Otherwise they run. An SMTP server that ends has closed its socket.
  The FTP program fails when it cannot start and otherwise never ends; its worker thread has one accept outstanding on the
  listening socket whatever happens, until an exception leaves another handler: then the program goes on with the socket open
  and nobody to answer, and waits for no signal.\<close>
theorem server_programs_end:
  "map_option fst (smtp_server_main env es) =
     (if a_address env \<and> a_open env \<and> a_bind env \<and> a_listen env then loop_status (-1) False True es else Some (-1))
   \<and> map_option fst (tftp_server_main env es) =
     (if a_address env \<and> a_open env \<and> a_bind env then loop_status (-1) False True es else Some (-1))
   \<and> map_option fst (telnet_server_main env es) =
     (if a_address env \<and> a_open env \<and> a_bind env \<and> a_listen env then loop_status 1 True True es else Some 1)
   \<and> pred_option (\<lambda>r. io_sock (snd r) = Sock_Closed) (smtp_server_main env es)
   \<and> (if all_granted env
      then ftp_server_main env es = (None, \<lparr>io_sock = Sock_Listening, io_pending = 1, io_ended = 0, io_signals = 0,
             io_running = (L_Other_Threw \<notin> set es)\<rparr>)
      else fst (ftp_server_main env es) = Some (-1))"
proof (intro conjI)
  show "map_option fst (smtp_server_main env es) =
     (if a_address env \<and> a_open env \<and> a_bind env \<and> a_listen env then loop_status (-1) False True es else Some (-1))"
    using smtp_life.context_run_status [OF started_in_loop(1), of env _ "-1" es] starts_iff(1) [of env]
    by (auto simp: smtp_server_main_def split: prod.split option.split)
  show "map_option fst (tftp_server_main env es) =
     (if a_address env \<and> a_open env \<and> a_bind env then loop_status (-1) False True es else Some (-1))"
    using tftp_life.context_run_status [OF started_in_loop(2), of env _ "-1" False es] starts_iff(2) [of env]
    by (auto simp: tftp_server_main_def split: prod.split option.split)
  show "map_option fst (telnet_server_main env es) =
     (if a_address env \<and> a_open env \<and> a_bind env \<and> a_listen env then loop_status 1 True True es else Some 1)"
    using telnet_life.context_run_status [OF started_in_loop(3), of env _ 1 es] starts_iff(3) [of env]
    by (auto simp: telnet_server_main_def Let_def split: prod.split option.split)
  show "pred_option (\<lambda>r. io_sock (snd r) = Sock_Closed) (smtp_server_main env es)"
    by (auto simp: smtp_server_main_def smtp_destroy_closes split: prod.split option.split)
  show "if all_granted env
      then ftp_server_main env es = (None, \<lparr>io_sock = Sock_Listening, io_pending = 1, io_ended = 0, io_signals = 0,
             io_running = (L_Other_Threw \<notin> set es)\<rparr>)
      else fst (ftp_server_main env es) = Some (-1)"
    using starts_iff(4) [of env] ftp_started [of env] ftp_worker_state [of "snd (ftp_server_start env new_server_io)" es]
    by (auto simp: ftp_server_main_def split: prod.split option.split)
qed

end
