(* ===== verification/Telnet_Program.thy ===== *)
theory Telnet_Program
  imports Telnet_Properties Server_Programs "HOL-Library.Multiset" "HOL-Library.Sublist"
begin

text \<open>
  \<open>telnet/server\<close> as a program: the callbacks of \<open>main.cpp\<close>, how they reach the sessions, and what the program
  writes to the console for the lines its users type.
\<close>

section \<open>Callbacks\<close>

text \<open>A callback works on the session it is given; what it prints is its text.\<close>

type_synonym connected_cb = "telnet_session \<Rightarrow> string \<times> telnet_session"
type_synonym line_cb = "telnet_session \<Rightarrow> string \<Rightarrow> string \<times> telnet_session"

record telnet_callbacks =
  cb_prompt :: string
  cb_connected :: "connected_cb option"
  cb_line :: "line_cb option"

definition default_callbacks :: telnet_callbacks where
  "default_callbacks = \<lparr>cb_prompt = ''ExperimentalTelnet>'', cb_connected = None, cb_line = None\<rparr>"

definition setPrompt :: "string \<Rightarrow> telnet_callbacks \<Rightarrow> telnet_callbacks" where
  "setPrompt prompt cbs = cbs\<lparr>cb_prompt := prompt\<rparr>"

definition setConnectedCB :: "connected_cb \<Rightarrow> telnet_callbacks \<Rightarrow> telnet_callbacks" where
  "setConnectedCB f cbs = cbs\<lparr>cb_connected := Some f\<rparr>"

definition setLineCompleteCB :: "line_cb \<Rightarrow> telnet_callbacks \<Rightarrow> telnet_callbacks" where
  "setLineCompleteCB f cbs = cbs\<lparr>cb_line := Some f\<rparr>"

text \<open>What a new session takes over from the server: the prompt is dropped, callbacks that are not set are not passed on.\<close>

definition session_setPrompt :: "string \<Rightarrow> telnet_callbacks \<Rightarrow> telnet_callbacks" where
  "session_setPrompt prompt cbs = cbs"

definition session_callbacks :: "telnet_callbacks \<Rightarrow> telnet_callbacks" where
  "session_callbacks server =
     (let s = \<lparr>cb_prompt = [], cb_connected = None, cb_line = None\<rparr>;
          s = (if cb_prompt server \<noteq> [] then session_setPrompt (cb_prompt server) s else s);
          s = (case cb_connected server of Some f \<Rightarrow> setConnectedCB f s | None \<Rightarrow> s)
      in case cb_line server of Some f \<Rightarrow> setLineCompleteCB f s | None \<Rightarrow> s)"

definition clientConnected :: connected_cb where
  "clientConnected session = (''Client connected.'' @ [CHR 0x0A], sendLine ''Welcome to My Telnet server!'' session)"

definition lineComplete :: line_cb where
  "lineComplete session line = (''Complete line received: '' @ line @ [CHR 0x0A], session)"

definition main_callbacks :: telnet_callbacks where
  "main_callbacks = setLineCompleteCB lineComplete (setConnectedCB clientConnected default_callbacks)"

section \<open>The program\<close>

text \<open>
  The handler of a read with the session's callbacks: it calls \<open>_lineCompleteCB\<close> with the line before the line goes to the
  history, and it calls \<open>_connectedCB\<close> nowhere.
\<close>

definition on_read_with :: "telnet_callbacks \<Rightarrow> bytes \<Rightarrow> telnet_session \<Rightarrow> (string \<times> telnet_session) resl" where
  "on_read_with cbs d s =
     (if t_state s = Interaction \<and> length d = 2 \<and> d ! 0 = CarriageReturn \<and> d ! 1 = NUL
      then (let line = t_buffer s; s = s\<lparr>t_lines := t_lines s @ [line]\<rparr>;
                (out, s) = (case cb_line cbs of Some f \<Rightarrow> f s line | None \<Rightarrow> ([], s))
            in Inr (out, sendEraseLine ((addToHistory (t_buffer s) s)\<lparr>t_buffer := []\<rparr>)))
      else bind_res (on_telnet_read d s) (\<lambda>s. Inr ([], s)))"

text \<open>The steps of the server, with the text the callbacks print.\<close>

inductive program_step :: "telnet_callbacks \<Rightarrow> telnet_server \<times> string \<Rightarrow> telnet_server_event \<Rightarrow> telnet_server \<times> string \<Rightarrow> bool"
  for cbs :: telnet_callbacks where
  prog_read: "tl_running srv \<Longrightarrow> i < length (tl_sessions srv) \<Longrightarrow> t_pending (tl_sessions srv ! i) = Receiving \<Longrightarrow> d \<noteq> [] \<Longrightarrow>
     length d \<le> 512 \<Longrightarrow> on_read_with (session_callbacks cbs) d (tl_sessions srv ! i) = Inr (txt', s) \<Longrightarrow>
     program_step cbs (srv, out) (Tl_Session i (Telnet_Read d)) (srv\<lparr>tl_sessions := (tl_sessions srv)[i := s]\<rparr>, out @ txt')"
| prog_other: "telnet_server_step srv e srv' \<Longrightarrow> \<forall>i d. e \<noteq> Tl_Session i (Telnet_Read d) \<Longrightarrow>
     program_step cbs (srv, out) e (srv', out)"

inductive program_run :: "telnet_callbacks \<Rightarrow> telnet_server \<times> string \<Rightarrow> telnet_server_event list \<Rightarrow> telnet_server \<times> string \<Rightarrow> bool"
  for cbs :: telnet_callbacks where
  prog_nil: "program_run cbs p [] p"
| prog_cons: "program_step cbs p e p' \<Longrightarrow> program_run cbs p' es p'' \<Longrightarrow> program_run cbs p (e # es) p''"

interpretation telnet_prog: event_machine "program_step cbs" "program_run cbs" for cbs
  by unfold_locales (auto elim: program_run.cases)

section \<open>The callbacks of \<open>main\<close>\<close>

lemma main_callbacks_reach: "cb_line (session_callbacks main_callbacks) = Some lineComplete"
  "cb_connected (session_callbacks main_callbacks) = Some clientConnected"
  by (simp_all add: session_callbacks_def main_callbacks_def setLineCompleteCB_def setConnectedCB_def default_callbacks_def
      session_setPrompt_def Let_def)

text \<open>With them, a session does what it does without, and prints one text for a line it completes.\<close>

lemma on_read_main:
  "on_read_with (session_callbacks main_callbacks) d s =
     bind_res (on_telnet_read d s) (\<lambda>s'. Inr (if t_state s = Interaction \<and> length d = 2 \<and> d ! 0 = CarriageReturn \<and> d ! 1 = NUL
       then fst (lineComplete s (t_buffer s)) else [], s'))"
  by (auto simp: on_read_with_def main_callbacks_reach lineComplete_def on_telnet_read_def on_interaction_def Let_def)

lemma program_step_server:
  "program_step main_callbacks (srv, out) e (srv', out') \<Longrightarrow> telnet_server_step srv e srv'"
proof (induction "(srv, out)" e "(srv', out')" rule: program_step.induct)
  case (prog_read i d txt' s)
  then have "on_telnet_read d (tl_sessions srv ! i) = Inr s"
    by (auto simp: on_read_main bind_res_eq_Inr)
  with prog_read have "telnet_step (tl_sessions srv ! i) (Telnet_Read d) s"
    by (intro telnet_read) simp_all
  with prog_read show ?case by (auto intro: tl_session)
qed simp


section \<open>The console\<close>

definition console_text :: "string list \<Rightarrow> string" where
  "console_text ls = concat (map (\<lambda>l. ''Complete line received: '' @ l @ [CHR 0x0A]) ls)"

lemma console_text_append [simp]: "console_text (ls @ ms) = console_text ls @ console_text ms" "console_text [] = []"
  by (simp_all add: console_text_def)

lemma printable_no_newline: "printable l \<Longrightarrow> CHR 0x0A \<notin> set l"
  by (auto simp: isprint_u8_def u8_of_char_def)

lemma console_lines: "\<forall>l \<in> set ls. printable l \<Longrightarrow> getline_split (CHR 0x0A) (console_text ls) = map (\<lambda>l. ''Complete line received: '' @ l) ls"
proof (induction ls)
  case (Cons l ls)
  then have "CHR 0x0A \<notin> set (''Complete line received: '' @ l)" using printable_no_newline [of l] by simp
  from getline_split_step [OF this, of "console_text ls"] Cons show ?case by (simp add: console_text_def)
qed simp

lemma read_lines:
  assumes "on_telnet_read d s = Inr s'"
  shows "t_lines s' = t_lines s @
    (if t_state s = Interaction \<and> length d = 2 \<and> d ! 0 = CarriageReturn \<and> d ! 1 = NUL then [t_buffer s] else [])"
proof -
  have "t_lines u = t_lines s" if "show_line pos s = Inr u" for pos u
    using that by (auto simp: show_line_def bind_res_eq_Inr)
  then show ?thesis using assms
    by (cases "t_state s")
      (auto simp: on_telnet_read_def on_negotiation_def on_authentication_def on_interaction_def startAuthentication_def
        startInteraction_def processEscapeSequence_def Let_def split: if_splits)
qed

lemma mset_concat_update:
  assumes "i < length xs" "f y = f (xs ! i) @ zs"
  shows "mset (concat (map f (xs[i := y]))) = mset (concat (map f xs)) + mset zs"
proof -
  have "mset (concat (map f xs)) = mset (concat (map f (take i xs))) + (mset (f (xs ! i)) + mset (concat (map f (drop (Suc i) xs))))"
    using assms(1) by (subst id_take_nth_drop [OF assms(1)]) simp
  then show ?thesis using assms by (simp add: upd_conv_take_nth_drop)
qed

text \<open>The state of the console: one text per completed line, every session's lines in their order.\<close>

definition reported :: "telnet_server \<times> string \<Rightarrow> bool" where
  "reported p \<longleftrightarrow> telnet_server_inv (fst p) \<and> (\<exists>ls. snd p = console_text ls
     \<and> mset ls = mset (concat (map t_lines (tl_sessions (fst p)))) \<and> (\<forall>s \<in> set (tl_sessions (fst p)). subseq (t_lines s) ls))"

lemma other_step_lines:
  assumes "telnet_server_step srv e srv'" "\<forall>i d. e \<noteq> Tl_Session i (Telnet_Read d)"
  shows "concat (map t_lines (tl_sessions srv')) = concat (map t_lines (tl_sessions srv))
    \<and> set (map t_lines (tl_sessions srv')) \<subseteq> insert [] (set (map t_lines (tl_sessions srv)))"
  using assms
proof (induction rule: telnet_server_step.induct)
  case (tl_accept srv oc)
  then show ?case by (auto simp: telnet_accept_def t_start_def new_telnet_session_def t_send_def split: accept_outcome.split)
next
  case (tl_session srv i e s)
  have l: "t_lines s = t_lines (tl_sessions srv ! i)"
    using tl_session.hyps(3) tl_session.prems by (cases rule: telnet_step.cases) (auto simp: on_option_written_def)
  have "map t_lines ((tl_sessions srv)[i := s]) = map t_lines (tl_sessions srv)"
    using l tl_session.hyps(2) by (simp add: map_update list_update_same_conv)
  then show ?case by (auto simp del: map_update)
qed (auto simp: telnet_shutdown_def)

lemma program_step_reported:
  assumes "program_step main_callbacks p e p'" "reported p"
  shows "reported p'"
  using assms
proof (induction rule: program_step.induct)
  case (prog_read srv i d txt' s out)
  let ?s = "tl_sessions srv ! i" and ?zs = "if t_state (tl_sessions srv ! i) = Interaction \<and> length d = 2
    \<and> d ! 0 = CarriageReturn \<and> d ! 1 = NUL then [t_buffer (tl_sessions srv ! i)] else []"
  let ?srv = "srv\<lparr>tl_sessions := (tl_sessions srv)[i := s]\<rparr>"
  have r: "on_telnet_read d ?s = Inr s" and out: "txt' = console_text ?zs"
    using prog_read.hyps(6) by (auto simp: on_read_main bind_res_eq_Inr lineComplete_def console_text_def)
  obtain ls where ls: "out = console_text ls" "mset ls = mset (concat (map t_lines (tl_sessions srv)))"
    "\<forall>s \<in> set (tl_sessions srv). subseq (t_lines s) ls" and inv: "telnet_server_inv srv"
    using prog_read.prems by (auto simp: reported_def)
  have step: "telnet_server_step srv (Tl_Session i (Telnet_Read d)) ?srv"
    using prog_read.hyps r by (intro tl_session telnet_read) simp_all
  have "mset (ls @ ?zs) = mset (concat (map t_lines ((tl_sessions srv)[i := s])))"
    using mset_concat_update [where f = t_lines, OF prog_read.hyps(2) read_lines [OF r]] ls(2) by simp
  moreover have "subseq (t_lines u) (ls @ ?zs)" if "u \<in> set ((tl_sessions srv)[i := s])" for u
  proof -
    from that consider "u = s" | "u \<in> set (tl_sessions srv)" by (meson insertE set_update_subset_insert subsetD)
    then show ?thesis
    proof cases
      case 1
      have "subseq (t_lines ?s) ls" using ls(3) prog_read.hyps(2) by simp
      then show ?thesis unfolding 1 read_lines [OF r] by (intro list_emb_append_mono) simp_all
    next
      case 2
      then have "subseq (t_lines u) ls" using ls(3) by blast
      then show ?thesis by (rule list_emb_prefix)
    qed
  qed
  moreover have "out @ txt' = console_text (ls @ ?zs)" unfolding ls(1) out console_text_append ..
  moreover have sess: "tl_sessions ?srv = (tl_sessions srv)[i := s]" by simp
  ultimately show ?case
    using telnet_server_step_inv [OF step inv] unfolding reported_def fst_conv snd_conv sess by blast
next
  case (prog_other srv e srv' out)
  then obtain ls where ls: "out = console_text ls" "mset ls = mset (concat (map t_lines (tl_sessions srv)))"
    "\<forall>s \<in> set (tl_sessions srv). subseq (t_lines s) ls" and inv: "telnet_server_inv srv"
    by (auto simp: reported_def)
  note o = other_step_lines [OF prog_other.hyps]
  have "subseq (t_lines u) ls" if "u \<in> set (tl_sessions srv')" for u
  proof -
    have "t_lines u \<in> insert [] (set (map t_lines (tl_sessions srv)))" using o that by (metis image_eqI image_set subsetD)
    then show ?thesis using ls(3) by auto
  qed
  then show ?case using telnet_server_step_inv [OF prog_other.hyps(1) inv] ls o unfolding reported_def fst_conv snd_conv
    by (intro conjI exI [of _ ls]) simp_all
qed


text \<open>C26: what the program's console says of its users' input: in every run, from any connections and any segments, the
  callbacks of \<open>main\<close> have printed exactly one line for each line a session has completed, every session's lines in
  the order they were typed, and nothing else. No input can break or forge a line of the console, since what is completed
  is printable. The welcome of \<open>clientConnected\<close>, though installed, is never printed.\<close>
theorem console_reports_lines:
  assumes "program_run main_callbacks (new_telnet_server, []) es (srv, out)"
  shows "\<exists>ls. getline_split (CHR 0x0A) out = map (\<lambda>l. ''Complete line received: '' @ l) ls
    \<and> out = concat (map (\<lambda>l. ''Complete line received: '' @ l @ [CHR 0x0A]) ls)
    \<and> mset ls = mset (concat (map t_lines (tl_sessions srv)))
    \<and> (\<forall>s \<in> set (tl_sessions srv). subseq (t_lines s) ls)"
proof -
  have "reported (new_telnet_server, [])"
    unfolding reported_def by (intro conjI exI [of _ "[]"]) (simp_all add: new_telnet_server_def telnet_server_inv_def)
  then have "reported (srv, out)"
    using telnet_prog.run_invariant [OF assms, where P = reported] program_step_reported by blast
  then obtain ls where ls: "telnet_server_inv srv" "out = console_text ls" "mset ls = mset (concat (map t_lines (tl_sessions srv)))"
    "\<forall>s \<in> set (tl_sessions srv). subseq (t_lines s) ls"
    by (auto simp: reported_def)
  have "set ls = (\<Union>s \<in> set (tl_sessions srv). set (t_lines s))"
    using arg_cong [OF ls(3), of set_mset] by simp
  then have "\<forall>l \<in> set ls. printable l" using ls(1) by (auto simp: telnet_server_inv_def telnet_inv_def)
  from console_lines [OF this] ls show ?thesis by (intro exI [of _ ls]) (simp add: console_text_def)
qed


section \<open>A session of the program\<close>

lemma program_run_append: "program_run cbs p es q \<Longrightarrow> program_run cbs q es' r \<Longrightarrow> program_run cbs p (es @ es') r"
  by (induction rule: program_run.induct) (auto intro: prog_cons)

lemma session_in_program:
  "telnet_run s es s' \<Longrightarrow> tl_running srv \<Longrightarrow> i < length (tl_sessions srv) \<Longrightarrow> tl_sessions srv ! i = s \<Longrightarrow>
    \<exists>out'. program_run main_callbacks (srv, out) (map (Tl_Session i) es) (srv\<lparr>tl_sessions := (tl_sessions srv)[i := s']\<rparr>, out')"
proof (induction arbitrary: srv out rule: telnet_run.induct)
  case (telnet_nil s)
  then show ?case using prog_nil [of main_callbacks "(srv, out)"] by auto
next
  case (telnet_cons s e s' es s'')
  let ?srv = "srv\<lparr>tl_sessions := (tl_sessions srv)[i := s']\<rparr>"
  obtain t where "program_step main_callbacks (srv, out) (Tl_Session i e) (?srv, t)"
    using telnet_cons.hyps(1)
  proof (cases rule: telnet_step.cases)
    case (telnet_read d)
    then show ?thesis using that telnet_cons.prems prog_read [of srv i d main_callbacks _ s' out]
      by (fastforce simp: on_read_main)
  next
    case (option_written k ok)
    then show ?thesis using that telnet_cons.prems telnet_cons.hyps(1) prog_other [OF tl_session, of srv i e s' main_callbacks out]
      by auto
  next
    case telnet_error
    then show ?thesis using that telnet_cons.prems telnet_cons.hyps(1) prog_other [OF tl_session, of srv i e s' main_callbacks out]
      by auto
  qed
  moreover obtain out' where "program_run main_callbacks (?srv, t) (map (Tl_Session i) es)
      (?srv\<lparr>tl_sessions := (tl_sessions ?srv)[i := s'']\<rparr>, out')"
    using telnet_cons.IH [of ?srv t] telnet_cons.prems by auto
  ultimately show ?case by (auto intro: prog_cons)
qed

text \<open>A user who confirms the options, logs in and types a line.\<close>

definition sample_typing :: "telnet_event list" where
  "sample_typing = [Option_Written True, Option_Written True, Option_Written True,
      Telnet_Read [IAC, DO, Echo, IAC, DO, SuppressGoAhead]]
    @ (typed ''testuser'' @ [enter] @ typed ''testpassword'' @ [enter]) @ [Telnet_Read [0x6C], enter]"

lemma sample_session: "\<exists>s'. telnet_run (t_start new_telnet_session) sample_typing s' \<and> t_lines s' = [''l'']"
proof -
  let ?s0 = "t_start new_telnet_session"
  obtain s1 where s1: "telnet_run ?s0 [Option_Written True, Option_Written True, Option_Written True] s1"
    "t_state s1 = Negotiation" "t_pending s1 = Receiving" "optionsToConfirm s1 = [Echo, SuppressGoAhead]" "t_lines s1 = []"
    by (simp add: telnet_run_cons telnet_run_nil telnet_step_written on_option_written_def t_start_def new_telnet_session_def)
  let ?d = "[IAC, DO, Echo, IAC, DO, SuppressGoAhead]"
  let ?s2 = "on_negotiation ?d s1"
  have c: "confirm_options ?d [Echo, SuppressGoAhead] = []" by (simp add: telnet_codes)
  have n: "?s2 = startAuthentication (s1\<lparr>optionsToConfirm := []\<rparr>)"
    unfolding on_negotiation_def Let_def s1(4) c by simp
  have s2: "t_state ?s2 = Authentication" "t_pending ?s2 = Receiving" "t_username ?s2 = []" "t_buffer ?s2 = []" "t_lines ?s2 = []"
    unfolding n using s1 by (simp_all add: startAuthentication_def)
  have r2: "telnet_run s1 [Telnet_Read ?d] ?s2"
    using s1 by (auto intro!: telnet_cons telnet_nil telnet_read simp: on_telnet_read_def)
  have p: "printable ''testuser''" "''testuser'' \<noteq> []" "printable ''testpassword''"
    by (simp_all add: isprint_u8_def u8_of_char_def)
  obtain s3 where s3: "telnet_run ?s2 (typed ''testuser'' @ [enter] @ typed ''testpassword'' @ [enter]) s3"
    "t_buffer s3 = []" "t_pending s3 = Receiving" "t_state s3 = Interaction" "t_lines s3 = []"
    using login_run [OF s2(1-4) p] s2(5) by auto
  let ?s4 = "t_send [0x6C] (s3\<lparr>t_buffer := ''l''\<rparr>)"
  let ?s5 = "sendEraseLine ((addToHistory ''l'' (?s4\<lparr>t_lines := [''l'']\<rparr>))\<lparr>t_buffer := []\<rparr>)"
  have k: "isprint_u8 0x6C" "char_of_u8 0x6C = CHR ''l''" by (simp_all add: isprint_u8_def char_of_u8_def char_of_def bit_simps)
  have "on_telnet_read [0x6C] s3 = Inr ?s4" "on_telnet_read [CarriageReturn, NUL] ?s4 = Inr ?s5"
    using s3 k by (simp_all add: on_telnet_read_def on_interaction_def Let_def)
  then have "telnet_run s3 [Telnet_Read [0x6C], enter] ?s5"
    using s3(3) by (auto intro!: telnet_cons telnet_nil telnet_read)
  then have "telnet_run ?s0 sample_typing ?s5"
    using telnet_run_append [OF telnet_run_append [OF s1(1) r2] telnet_run_append [OF s3(1)]] by (simp add: sample_typing_def)
  then show ?thesis by (intro exI [of _ ?s5]) simp
qed

theorem console_reports_lines_witness:
  "\<exists>srv out. program_run main_callbacks (new_telnet_server, []) (Tl_Accept Accepted # map (Tl_Session 0) sample_typing) (srv, out)
     \<and> out = ''Complete line received: l'' @ [CHR 0x0A]"
proof -
  let ?srv = "\<lparr>tl_sessions = [t_start new_telnet_session], tl_open = True, tl_running = True\<rparr>"
  obtain s where s: "telnet_run (t_start new_telnet_session) sample_typing s" "t_lines s = [''l'']"
    using sample_session by blast
  obtain out where out: "program_run main_callbacks (?srv, []) (map (Tl_Session 0) sample_typing) (?srv\<lparr>tl_sessions := [s]\<rparr>, out)"
    using session_in_program [OF s(1), of ?srv 0 "[]"] by auto
  have "telnet_server_step new_telnet_server (Tl_Accept Accepted) ?srv"
    using tl_accept [of new_telnet_server Accepted] by (simp add: new_telnet_server_def telnet_accept_def)
  then have run: "program_run main_callbacks (new_telnet_server, []) (Tl_Accept Accepted # map (Tl_Session 0) sample_typing)
      (?srv\<lparr>tl_sessions := [s]\<rparr>, out)"
    using out by (intro prog_cons [OF prog_other]) simp_all
  obtain ls where "out = concat (map (\<lambda>l. ''Complete line received: '' @ l @ [CHR 0x0A]) ls)" "mset ls = mset [''l'']"
    using console_reports_lines [OF run] s(2) by auto
  then show ?thesis using run by auto
qed

end
