(* ===== verification/Old_Telnet.thy ===== *)
theory Old_Telnet
  imports Std_String Machines
begin

text \<open>
  \<open>telnet-server\<close>, the older of the two Telnet servers: \<open>Server\<close>, \<open>Session\<close> and the callbacks of
  \<open>main.cpp\<close>. Session objects are shared pointers: they have an identity here, the set \<open>_sessions\<close>
  is the list \<open>live\<close>, and an object outlives its removal from it. All sessions read into one
  buffer: an operation fills it when it completes, the handler looks at it when it runs, and
  other operations may complete in between. The counters say how many reads and writes of an
  object are outstanding, \<open>ready\<close> holds the completed reads whose handlers have not run.
\<close>

section \<open>State\<close>

datatype AuthStatus = Guest | Authenticating | LoggedIn

record ts_session =
  ts_id :: u32
  ts_open :: bool
  ts_auth :: AuthStatus
  receivedData :: string
  ts_echoed :: "bytes list"

record ts_server =
  objects :: "nat \<Rightarrow> ts_session option"
  next_object :: nat
  live :: "nat list"
  ts_buffer :: bytes
  reads :: "nat \<Rightarrow> nat"
  ready :: "(nat \<times> nat) list"
  writes :: "nat \<Rightarrow> nat"
  ts_accepting :: bool
  ts_running :: bool

definition RECV_BUFFER_SIZE :: nat where
  "RECV_BUFFER_SIZE = 1024"

definition new_ts_session :: "u32 \<Rightarrow> ts_session" where
  "new_ts_session i = \<lparr>ts_id = i, ts_open = True, ts_auth = Guest, receivedData = [], ts_echoed = []\<rparr>"

definition new_ts_server :: "bytes \<Rightarrow> ts_server" where
  "new_ts_server junk = \<lparr>objects = (\<lambda>_. None), next_object = 0, live = [], ts_buffer = junk, reads = (\<lambda>_. 0),
     ready = [], writes = (\<lambda>_. 0), ts_accepting = True, ts_running = True\<rparr>"

section \<open>Sessions\<close>

definition setAuthStatus :: "AuthStatus \<Rightarrow> ts_session \<Rightarrow> ts_session" where
  "setAuthStatus st s = s\<lparr>ts_auth := st\<rparr>"

definition appendReceivedData :: "string \<Rightarrow> ts_session \<Rightarrow> ts_session" where
  "appendReceivedData d s = s\<lparr>receivedData := receivedData s @ d\<rparr>"

definition clearReceivedData :: "ts_session \<Rightarrow> ts_session" where
  "clearReceivedData s = s\<lparr>receivedData := []\<rparr>"

definition removeLastReceivedCharacter :: "ts_session \<Rightarrow> ts_session" where
  "removeLastReceivedCharacter s = s\<lparr>receivedData := take (length (receivedData s) - 1) (receivedData s)\<rparr>"

definition on_object :: "nat \<Rightarrow> (ts_session \<Rightarrow> ts_session) \<Rightarrow> ts_server \<Rightarrow> ts_server" where
  "on_object h f srv = srv\<lparr>objects := (objects srv)(h := map_option f (objects srv h))\<rparr>"

section \<open>The server's operations\<close>

text \<open>Three operations have empty bodies.\<close>

definition ts_sendMessageToAll :: "string \<Rightarrow> ts_server \<Rightarrow> ts_server" where
  "ts_sendMessageToAll message srv = srv"

definition ts_sendMessageToClient :: "nat \<Rightarrow> string \<Rightarrow> ts_server \<Rightarrow> ts_server" where
  "ts_sendMessageToClient h message srv = srv"

definition clearClientScreen :: "nat \<Rightarrow> ts_server \<Rightarrow> ts_server" where
  "clearClientScreen h srv = srv"

definition removeClient :: "nat \<Rightarrow> ts_server \<Rightarrow> ts_server" where
  "removeClient h srv = on_object h (\<lambda>s. s\<lparr>ts_open := False\<rparr>) (srv\<lparr>live := removeAll h (live srv)\<rparr>)"

definition receiveAsync :: "nat \<Rightarrow> ts_server \<Rightarrow> ts_server" where
  "receiveAsync h srv = srv\<lparr>reads := (reads srv)(h := reads srv h + 1)\<rparr>"

definition sendBytesToClient :: "nat \<Rightarrow> bytes \<Rightarrow> ts_server \<Rightarrow> ts_server" where
  "sendBytesToClient h d srv = on_object h (\<lambda>s. s\<lparr>ts_echoed := ts_echoed s @ [d]\<rparr>)
     (srv\<lparr>writes := (writes srv)(h := writes srv h + 1)\<rparr>)"

section \<open>The callbacks of \<open>main.cpp\<close>\<close>

definition logIn :: "nat \<Rightarrow> ts_session \<Rightarrow> string \<Rightarrow> ts_server \<Rightarrow> ts_server" where
  "logIn h s message srv =
     (case ts_auth s of
        Guest \<Rightarrow>
          if message = ''testuser''
          then on_object h (setAuthStatus Authenticating) (ts_sendMessageToClient h (CRLF @ ''Password: '') srv)
          else removeClient h srv
      | Authenticating \<Rightarrow>
          if message = ''testpassword''
          then on_object h (setAuthStatus LoggedIn)
                 (ts_sendMessageToClient h (''Successfully authenticated.'' @ CRLF @ '' > '') (clearClientScreen h srv))
          else removeClient h srv
      | LoggedIn \<Rightarrow> srv)"

definition onConnected :: "nat \<Rightarrow> ts_server \<Rightarrow> ts_server" where
  "onConnected h srv = ts_sendMessageToClient h (''Telnet Server'' @ CRLF @ ''Login:'') srv"

definition onMessageReceived :: "nat \<Rightarrow> ts_session \<Rightarrow> string \<Rightarrow> ts_server \<Rightarrow> ts_server" where
  "onMessageReceived h s message srv =
     (if ts_auth s \<noteq> LoggedIn then logIn h s message srv
      else if message = ''exit'' \<or> message = ''logout''
      then ts_sendMessageToClient h (CRLF @ '' > '') (removeClient h srv)
      else if message = ''clear'' then ts_sendMessageToClient h '' > '' (clearClientScreen h srv)
      else ts_sendMessageToClient h (CRLF @ '' > '') srv)"

section \<open>Handlers\<close>

text \<open>\<open>_sessions.size() + 1\<close> is the identifier.\<close>

definition handleConnection :: "ts_server \<Rightarrow> ts_server" where
  "handleConnection srv =
     (let h = next_object srv; s = new_ts_session (of_nat (length (live srv) + 1));
          srv = srv\<lparr>objects := (objects srv)(h \<mapsto> s), next_object := h + 1, live := live srv @ [h]\<rparr>
      in sendBytesToClient h [0xFF, 0xFD, 0x01, 0xFF, 0xFD, 0x21, 0xFF, 0xFB, 0x01, 0xFF, 0xFB, 0x03] (onConnected h srv))"

text \<open>The handler of a read of \<open>sz\<close> octets; \<open>char\<close> is signed, so the first comparison is one of integers.\<close>

definition on_ts_received :: "nat \<Rightarrow> ts_session \<Rightarrow> nat \<Rightarrow> ts_server \<Rightarrow> ts_server" where
  "on_ts_received h s sz srv =
     (let b0 = ts_buffer srv ! 0; b1 = ts_buffer srv ! 1; got = of_bytes (take sz (ts_buffer srv)) in
      if sz = 0 then removeClient h srv
      else if sint b0 < 0xF0
      then (if (b0 = 0x2E \<and> b1 = 0x0D \<and> receivedData s = []) \<or> (b0 = 0x0D \<and> b1 = 0x0A)
            then on_object h clearReceivedData (onMessageReceived h s (receivedData s @ got) srv)
            else if b0 = 0x08
            then (if receivedData s = [] then receiveAsync h srv
                  else sendBytesToClient h [0x08, 0x20, 0x08] (on_object h removeLastReceivedCharacter srv))
            else if b0 = 0x7F then receiveAsync h srv
            else receiveAsync h (sendBytesToClient h (if ts_auth s \<noteq> Authenticating then [b0] else to_bytes ''*'')
                   (on_object h (appendReceivedData got) srv)))
      else receiveAsync h srv)"

section \<open>Steps\<close>

text \<open>
  A connection (with whether \<open>remote_endpoint\<close> succeeds: if it throws, the exception ends the
  event loop), a failed accept, data arriving for an outstanding read, a handler of a completed
  read, a read that fails, a completed write, and the console's \<open>q\<close>.
\<close>

datatype ts_event = Ts_Connect bool | Ts_Accept_Failed | Ts_Fill nat bytes | Ts_Handle nat | Ts_Read_Failed nat
  | Ts_Write_Done nat bool | Ts_Stop

inductive ts_step :: "ts_server \<Rightarrow> ts_event \<Rightarrow> ts_server \<Rightarrow> bool" where
  ts_connect: "ts_running srv \<Longrightarrow> ts_accepting srv \<Longrightarrow>
     ts_step srv (Ts_Connect ok) (if ok then handleConnection srv else srv\<lparr>ts_running := False\<rparr>)"
| ts_accept_failed: "ts_running srv \<Longrightarrow> ts_accepting srv \<Longrightarrow> ts_step srv Ts_Accept_Failed (srv\<lparr>ts_accepting := False\<rparr>)"
| ts_fill: "ts_running srv \<Longrightarrow> 0 < reads srv h \<Longrightarrow> objects srv h = Some s \<Longrightarrow> ts_open s \<Longrightarrow> d \<noteq> [] \<Longrightarrow>
     length d \<le> RECV_BUFFER_SIZE \<Longrightarrow>
     ts_step srv (Ts_Fill h d) (srv\<lparr>ts_buffer := overwrite (ts_buffer srv) 0 d, reads := (reads srv)(h := reads srv h - 1),
       ready := ready srv @ [(h, length d)]\<rparr>)"
| ts_handle: "ts_running srv \<Longrightarrow> i < length (ready srv) \<Longrightarrow> ready srv ! i = (h, sz) \<Longrightarrow> objects srv h = Some s \<Longrightarrow>
     ts_step srv (Ts_Handle i) (on_ts_received h s sz (srv\<lparr>ready := take i (ready srv) @ drop (i + 1) (ready srv)\<rparr>))"
| ts_read_failed: "ts_running srv \<Longrightarrow> 0 < reads srv h \<Longrightarrow>
     ts_step srv (Ts_Read_Failed h) (srv\<lparr>reads := (reads srv)(h := reads srv h - 1)\<rparr>)"
| ts_write_done: "ts_running srv \<Longrightarrow> 0 < writes srv h \<Longrightarrow>
     ts_step srv (Ts_Write_Done h ok)
       (let srv = srv\<lparr>writes := (writes srv)(h := writes srv h - 1)\<rparr> in if ok then receiveAsync h srv else srv)"
| ts_stop: "ts_running srv \<Longrightarrow> ts_step srv Ts_Stop (srv\<lparr>ts_running := False, ts_accepting := False\<rparr>)"

inductive ts_run :: "ts_server \<Rightarrow> ts_event list \<Rightarrow> ts_server \<Rightarrow> bool" where
  ts_nil: "ts_run srv [] srv"
| ts_cons: "ts_step srv e srv' \<Longrightarrow> ts_run srv' es srv'' \<Longrightarrow> ts_run srv (e # es) srv''"

inductive_simps ts_run_nil: "ts_run srv [] srv'"
inductive_simps ts_run_cons: "ts_run srv (e # es) srv'"

interpretation ts: event_machine ts_step ts_run
  by unfold_locales (auto simp: ts_run_nil ts_run_cons)

lemma ts_run_append: "ts_run s es t \<Longrightarrow> ts_run t es' u \<Longrightarrow> ts_run s (es @ es') u"
  by (induction rule: ts_run.induct) (auto intro: ts_cons)

section \<open>Nobody logs in\<close>

text \<open>A signed octet is below 0xF0 whatever it is: the test for Telnet commands never fails.\<close>

lemma signed_octet: "sint (b :: u8) < 0xF0"
  using sint_lt [of b] by simp

definition ts_inv :: "ts_server \<Rightarrow> bool" where
  "ts_inv srv \<longleftrightarrow> (\<forall>h s. objects srv h = Some s \<longrightarrow> ts_auth s = Guest) \<and> length (ts_buffer srv) = RECV_BUFFER_SIZE
     \<and> (\<forall>(h, sz) \<in> set (ready srv). 0 < sz \<and> sz \<le> RECV_BUFFER_SIZE)"

lemma ts_inv_congs [simp]:
  "ts_inv (srv\<lparr>live := l\<rparr>) = ts_inv srv" "ts_inv (srv\<lparr>reads := r\<rparr>) = ts_inv srv" "ts_inv (srv\<lparr>writes := r\<rparr>) = ts_inv srv"
  "ts_inv (srv\<lparr>ts_running := b\<rparr>) = ts_inv srv" "ts_inv (srv\<lparr>ts_accepting := b\<rparr>) = ts_inv srv"
  "ts_inv (srv\<lparr>next_object := n\<rparr>) = ts_inv srv" "ts_inv (receiveAsync h srv) = ts_inv srv"
  by (simp_all add: ts_inv_def receiveAsync_def)

lemma ts_inv_on_object: "ts_inv srv \<Longrightarrow> (\<And>s. ts_auth (f s) = ts_auth s) \<Longrightarrow> ts_inv (on_object h f srv)"
  by (auto simp: ts_inv_def on_object_def)

lemma removeClient_inv: "ts_inv srv \<Longrightarrow> ts_inv (removeClient h srv)"
  unfolding removeClient_def by (rule ts_inv_on_object) simp_all

lemma sendBytes_inv: "ts_inv srv \<Longrightarrow> ts_inv (sendBytesToClient h d srv)"
  unfolding sendBytesToClient_def by (rule ts_inv_on_object) simp_all

lemma handleConnection_inv: "ts_inv srv \<Longrightarrow> ts_inv (handleConnection srv)"
  unfolding handleConnection_def Let_def onConnected_def ts_sendMessageToClient_def
  by (rule sendBytes_inv) (auto simp: ts_inv_def new_ts_session_def)

text \<open>A message ends in a segment that starts with a dot or a carriage return, so it is no name and no password.\<close>

lemma message_not_name:
  assumes "length buf = RECV_BUFFER_SIZE" "0 < sz" "buf ! 0 = 0x2E \<or> buf ! 0 = 0x0D"
  shows "old @ of_bytes (take sz buf) \<noteq> ''testuser''"
proof
  assume eq: "old @ of_bytes (take sz buf) = ''testuser''"
  have "buf ! 0 \<in> set (take sz buf)"
    using assms(1,2) by (cases buf; cases sz) (auto simp: RECV_BUFFER_SIZE_def)
  then have "char_of_u8 (buf ! 0) \<in> set ''testuser''" unfolding eq [symmetric] of_bytes_def by simp
  moreover have "char_of_u8 0x2E = CHR ''.''" "char_of_u8 0x0D = CHR 0x0D"
    by (simp_all add: char_of_u8_def char_of_def bit_simps)
  ultimately show False using assms(3) by auto
qed

lemma message_removes:
  assumes "ts_auth s = Guest" "message \<noteq> ''testuser''"
  shows "onMessageReceived h s message srv = removeClient h srv"
  using assms by (simp add: onMessageReceived_def logIn_def)

lemma on_ts_received_inv:
  assumes "ts_inv srv" "objects srv h = Some s" "0 < sz" "sz \<le> RECV_BUFFER_SIZE"
  shows "ts_inv (on_ts_received h s sz srv)"
proof -
  have g: "ts_auth s = Guest" and len: "length (ts_buffer srv) = RECV_BUFFER_SIZE" using assms(1,2) by (simp_all add: ts_inv_def)
  have msg: "onMessageReceived h s (receivedData s @ of_bytes (take sz (ts_buffer srv))) srv = removeClient h srv"
    if "ts_buffer srv ! 0 = 0x2E \<or> ts_buffer srv ! 0 = 0x0D"
    using message_removes [OF g message_not_name [OF len assms(3) that]] .
  have keep: "ts_auth (clearReceivedData t) = ts_auth t" "ts_auth (removeLastReceivedCharacter t) = ts_auth t"
    "ts_auth (appendReceivedData d t) = ts_auth t" for t d
    by (simp_all add: clearReceivedData_def removeLastReceivedCharacter_def appendReceivedData_def)
  show ?thesis
    using assms(1,3) msg keep
    by (auto simp: on_ts_received_def Let_def intro!: ts_inv_on_object removeClient_inv sendBytes_inv)
qed

lemma ts_step_inv: "ts_step srv e srv' \<Longrightarrow> ts_inv srv \<Longrightarrow> ts_inv srv'"
proof (induction rule: ts_step.induct)
  case (ts_connect srv ok)
  then show ?case
    by (simp add: handleConnection_inv)
next
  case (ts_fill srv h s d)
  then show ?case by (auto simp: ts_inv_def)
next
  case (ts_handle srv i h sz s)
  have "(h, sz) \<in> set (ready srv)" using ts_handle.hyps(2,3) by (metis nth_mem)
  then have sz: "0 < sz" "sz \<le> RECV_BUFFER_SIZE" using ts_handle.prems by (auto simp: ts_inv_def)
  have "ts_inv (srv\<lparr>ready := take i (ready srv) @ drop (i + 1) (ready srv)\<rparr>)"
    using ts_handle.prems set_take_subset [of i "ready srv"] set_drop_subset [of "i + 1" "ready srv"]
    by (auto simp: ts_inv_def)
  then show ?case using ts_handle.hyps(4) sz by (intro on_ts_received_inv) simp_all
qed (simp_all add: Let_def)

lemma ts_run_inv: "ts_run srv es srv' \<Longrightarrow> ts_inv srv \<Longrightarrow> ts_inv srv'"
  by (rule ts.run_invariant) (auto intro: ts_step_inv)

end
