(* ===== verification/Old_Telnet_Properties.thy ===== *)
theory Old_Telnet_Properties
  imports Old_Telnet
begin

text \<open>
  The properties of the server of \<open>telnet-server\<close>: nobody can log in, sessions read each other's
  input, and what the server loses track of.
\<close>

section \<open>Login\<close>

text \<open>C27: nobody ever logs in: in every reachable state every session object still has the status of a guest.\<close>
theorem login_never_succeeds:
  assumes "ts_run (new_ts_server junk) es srv" "length junk = RECV_BUFFER_SIZE" "objects srv h = Some s"
  shows "ts_auth s = Guest"
proof -
  have "ts_inv (new_ts_server junk)" using assms(2) by (simp add: ts_inv_def new_ts_server_def)
  from ts_run_inv [OF assms(1) this] assms(3) show ?thesis by (simp add: ts_inv_def)
qed

text \<open>A server with one connected client whose greeting has been written.\<close>

definition ts_ready :: "ts_server" where
  "ts_ready = \<lparr>objects = [0 \<mapsto> (new_ts_session 1)\<lparr>ts_echoed := [[0xFF, 0xFD, 0x01, 0xFF, 0xFD, 0x21, 0xFF, 0xFB, 0x01, 0xFF, 0xFB, 0x03]]\<rparr>],
     next_object = 1, live = [0], ts_buffer = replicate 1024 0, reads = (\<lambda>_. 0)(0 := 1), ready = [], writes = (\<lambda>_. 0),
     ts_accepting = True, ts_running = True\<rparr>"

lemma ts_ready_run: "ts_run (new_ts_server (replicate 1024 0)) [Ts_Connect True, Ts_Write_Done 0 True] ts_ready"
proof -
  let ?c = "handleConnection (new_ts_server (replicate 1024 0))"
  have "ts_step (new_ts_server (replicate 1024 0)) (Ts_Connect True) ?c"
    using ts_connect [of "new_ts_server (replicate 1024 0)" True] by (simp add: new_ts_server_def)
  moreover have "ts_step ?c (Ts_Write_Done 0 True) (let srv = ?c\<lparr>writes := (writes ?c)(0 := writes ?c 0 - 1)\<rparr>
      in if True then receiveAsync 0 srv else srv)"
    by (rule ts_write_done) (simp_all add: handleConnection_def new_ts_server_def onConnected_def ts_sendMessageToClient_def
      sendBytesToClient_def on_object_def Let_def)
  moreover have "(let srv = ?c\<lparr>writes := (writes ?c)(0 := writes ?c 0 - 1)\<rparr> in if True then receiveAsync 0 srv else srv) = ts_ready"
    by (simp add: handleConnection_def new_ts_server_def onConnected_def ts_sendMessageToClient_def sendBytesToClient_def
      on_object_def Let_def receiveAsync_def ts_ready_def new_ts_session_def fun_eq_iff)
  ultimately show ?thesis by (metis ts_cons ts_nil)
qed

theorem login_never_succeeds_witness:
  "objects ts_ready 0 \<noteq> None \<and> ts_auth (the (objects ts_ready 0)) = Guest"
proof -
  obtain s where s: "objects ts_ready 0 = Some s" by (simp add: ts_ready_def)
  from login_never_succeeds [OF ts_ready_run _ this] s show ?thesis by (simp add: RECV_BUFFER_SIZE_def)
qed

text \<open>The first complete line disconnects the client: when a segment that starts with CR LF is handled, the session is
  taken out of the set and its socket closed, whatever was typed before - the right user name too.\<close>
theorem first_line_disconnects:
  assumes "ts_inv srv" "ts_running srv" "i < length (ready srv)" "ready srv ! i = (h, sz)" "objects srv h = Some s"
    and "ts_buffer srv ! 0 = 0x0D" "ts_buffer srv ! 1 = 0x0A"
  shows "\<exists>srv' s'. ts_step srv (Ts_Handle i) srv' \<and> h \<notin> set (live srv') \<and> objects srv' h = Some s' \<and> \<not> ts_open s'"
proof -
  let ?srv = "srv\<lparr>ready := take i (ready srv) @ drop (i + 1) (ready srv)\<rparr>"
  have "(h, sz) \<in> set (ready srv)" using assms(3,4) by (metis nth_mem)
  then have sz: "0 < sz" and g: "ts_auth s = Guest" and len: "length (ts_buffer srv) = RECV_BUFFER_SIZE"
    using assms(1,5) by (auto simp: ts_inv_def)
  have "onMessageReceived h s (receivedData s @ of_bytes (take sz (ts_buffer srv))) ?srv = removeClient h ?srv"
    using message_removes [OF g message_not_name [OF len sz]] assms(6) by simp
  then have "on_ts_received h s sz ?srv = on_object h clearReceivedData (removeClient h ?srv)"
    using sz assms(6,7) by (simp add: on_ts_received_def Let_def)
  with ts_handle [OF assms(2-5)] have step: "ts_step srv (Ts_Handle i) (on_object h clearReceivedData (removeClient h ?srv))" by simp
  show ?thesis
    using step assms(5)
    by (intro exI [of _ "on_object h clearReceivedData (removeClient h ?srv)"] exI [of _ "clearReceivedData (s\<lparr>ts_open := False\<rparr>)"])
      (simp add: on_object_def removeClient_def clearReceivedData_def)
qed

theorem first_line_disconnects_witness:
  "\<exists>srv' s'. ts_step (ts_ready\<lparr>ts_buffer := [13, 10] @ replicate 1022 0, ready := [(0, 2)]\<rparr>) (Ts_Handle 0) srv' \<and> 0 \<notin> set (live srv')
    \<and> objects srv' 0 = Some s' \<and> \<not> ts_open s'"
  by (rule first_line_disconnects [where sz = 2 and s = "the (objects ts_ready 0)"])
    (simp_all add: ts_inv_def ts_ready_def new_ts_session_def RECV_BUFFER_SIZE_def)

section \<open>One buffer for all\<close>

definition ordinary :: "u8 \<Rightarrow> bool" where
  "ordinary b \<longleftrightarrow> b \<notin> {0x2E, 0x0D, 0x08, 0x7F}"

lemma handle_ordinary:
  assumes "ordinary (ts_buffer srv ! 0)" "0 < sz"
  shows "on_ts_received h s sz srv = receiveAsync h (sendBytesToClient h
      (if ts_auth s \<noteq> Authenticating then [ts_buffer srv ! 0] else to_bytes ''*'')
      (on_object h (appendReceivedData (of_bytes (take sz (ts_buffer srv)))) srv))"
  using assms signed_octet by (simp add: on_ts_received_def ordinary_def Let_def)

lemma final_object:
  assumes "ts_run srv es t" "objects t h = Some ((appendReceivedData d s)\<lparr>ts_echoed := ts_echoed s @ [x]\<rparr>)"
  shows "\<exists>t s'. ts_run srv es t \<and> objects t h = Some s' \<and> receivedData s' = receivedData s @ d \<and> ts_echoed s' = ts_echoed s @ [x]"
  using assms by (intro exI conjI) (assumption+, simp_all add: appendReceivedData_def)

text \<open>One client's input is taken for another's: if a character arrives for session \<open>k\<close> after one has arrived for session
  \<open>h\<close> and before the handler of \<open>h\<close> has run, that handler stores and echoes the character of \<open>k\<close>; the one
  the client of \<open>h\<close> typed is nowhere.\<close>
theorem sessions_share_input:
  assumes "ts_running srv" "ready srv = []" "length (ts_buffer srv) = RECV_BUFFER_SIZE" "h \<noteq> k" "0 < reads srv h" "0 < reads srv k"
    and "objects srv h = Some s" "ts_open s" "ts_auth s = Guest" "objects srv k = Some t" "ts_open t" "ordinary b"
  shows "\<exists>srv' s'. ts_run srv [Ts_Fill h [a], Ts_Fill k [b], Ts_Handle 0] srv' \<and> objects srv' h = Some s'
    \<and> receivedData s' = receivedData s @ [char_of_u8 b] \<and> ts_echoed s' = ts_echoed s @ [[b]]"
proof -
  let ?s1 = "srv\<lparr>ts_buffer := overwrite (ts_buffer srv) 0 [a], reads := (reads srv)(h := reads srv h - 1), ready := [(h, 1)]\<rparr>"
  let ?s2 = "srv\<lparr>ts_buffer := overwrite (ts_buffer srv) 0 [b],
    reads := (reads srv)(h := reads srv h - 1, k := reads srv k - 1), ready := [(h, 1), (k, 1)]\<rparr>"
  have 1: "ts_step srv (Ts_Fill h [a]) ?s1"
    using ts_fill [of srv h s "[a]"] assms(1,2,5,7,8) by (simp add: RECV_BUFFER_SIZE_def)
  have two: "overwrite (overwrite (ts_buffer srv) 0 [a]) 0 [b] = overwrite (ts_buffer srv) 0 [b]" by (simp add: overwrite_def)
  have 2: "ts_step ?s1 (Ts_Fill k [b]) ?s2"
    using ts_fill [of ?s1 k t "[b]"] assms(1,4,6,10,11) two by (simp add: RECV_BUFFER_SIZE_def)
  let ?s3 = "?s2\<lparr>ready := [(k, 1)]\<rparr>"
  have b0: "ts_buffer ?s3 ! 0 = b" "take 1 (ts_buffer ?s3) = [b]" by (simp_all add: overwrite_def)
  have 3: "ts_step ?s2 (Ts_Handle 0) (on_ts_received h s 1 ?s3)"
    using ts_handle [of ?s2 0 h 1 s] assms(1,7) by simp
  have e: "on_ts_received h s 1 ?s3 = receiveAsync h (sendBytesToClient h [b] (on_object h (appendReceivedData [char_of_u8 b]) ?s3))"
    using handle_ordinary [of ?s3 1 h s] assms(9,12) unfolding b0 by (simp add: of_bytes_def)
  have run: "ts_run srv [Ts_Fill h [a], Ts_Fill k [b], Ts_Handle 0] (on_ts_received h s 1 ?s3)"
    using 1 2 3 by (blast intro: ts_cons ts_nil)
  have "objects (on_ts_received h s 1 ?s3) h = Some ((appendReceivedData [char_of_u8 b] s)\<lparr>ts_echoed := ts_echoed s @ [[b]]\<rparr>)"
    unfolding e using assms(7) by (simp add: receiveAsync_def sendBytesToClient_def on_object_def appendReceivedData_def)
  with run show ?thesis by (blast intro: final_object)
qed

text \<open>The server of the first client after a second one has connected and been greeted.\<close>

definition greeted :: "u32 \<Rightarrow> ts_session" where
  "greeted i = (new_ts_session i)\<lparr>ts_echoed := [[0xFF, 0xFD, 0x01, 0xFF, 0xFD, 0x21, 0xFF, 0xFB, 0x01, 0xFF, 0xFB, 0x03]]\<rparr>"

definition two_clients :: ts_server where
  "two_clients = ts_ready\<lparr>objects := [0 \<mapsto> greeted 1, 1 \<mapsto> greeted 2], next_object := 2, live := [0, 1],
     reads := (\<lambda>_. 0)(0 := 1, 1 := 1)\<rparr>"

lemma two_clients_run:
  "ts_run (new_ts_server (replicate 1024 0)) [Ts_Connect True, Ts_Write_Done 0 True, Ts_Connect True, Ts_Write_Done 1 True] two_clients"
proof -
  let ?c = "handleConnection ts_ready"
  have "ts_step ts_ready (Ts_Connect True) ?c"
    using ts_connect [of ts_ready True] by (simp add: ts_ready_def)
  moreover have "ts_step ?c (Ts_Write_Done 1 True) (let srv = ?c\<lparr>writes := (writes ?c)(1 := writes ?c 1 - 1)\<rparr>
      in if True then receiveAsync 1 srv else srv)"
    by (rule ts_write_done) (simp_all add: handleConnection_def ts_ready_def onConnected_def ts_sendMessageToClient_def
      sendBytesToClient_def on_object_def Let_def)
  moreover have "(let srv = ?c\<lparr>writes := (writes ?c)(1 := writes ?c 1 - 1)\<rparr> in if True then receiveAsync 1 srv else srv) = two_clients"
    by (simp add: handleConnection_def ts_ready_def onConnected_def ts_sendMessageToClient_def sendBytesToClient_def
      on_object_def Let_def receiveAsync_def two_clients_def greeted_def new_ts_session_def fun_eq_iff)
  ultimately have "ts_run ts_ready [Ts_Connect True, Ts_Write_Done 1 True] two_clients" by (metis ts_cons ts_nil)
  from ts_run_append [OF ts_ready_run this] show ?thesis by simp
qed

theorem sessions_share_input_witness:
  "\<exists>srv' s'. ts_run two_clients [Ts_Fill 0 [0x61], Ts_Fill 1 [0x7A], Ts_Handle 0] srv' \<and> objects srv' 0 = Some s'
    \<and> receivedData s' = ''z''
    \<and> ts_run (new_ts_server (replicate 1024 0)) [Ts_Connect True, Ts_Write_Done 0 True, Ts_Connect True, Ts_Write_Done 1 True] two_clients"
proof -
  have pre: "ts_running two_clients" "ready two_clients = []" "length (ts_buffer two_clients) = RECV_BUFFER_SIZE" "(0::nat) \<noteq> 1"
    "0 < reads two_clients 0" "0 < reads two_clients 1" "objects two_clients 0 = Some (greeted 1)" "ts_open (greeted 1)"
    "ts_auth (greeted 1) = Guest" "objects two_clients 1 = Some (greeted 2)" "ts_open (greeted 2)"
    "ordinary 0x7A"
    by (simp_all add: two_clients_def ts_ready_def greeted_def new_ts_session_def RECV_BUFFER_SIZE_def ordinary_def)
  have "receivedData (greeted 1) = []" "char_of_u8 0x7A = CHR ''z''"
    by (simp_all add: greeted_def new_ts_session_def char_of_u8_def char_of_def bit_simps)
  with sessions_share_input [where a = "0x61", OF pre] two_clients_run show ?thesis by auto
qed

section \<open>Reads pile up\<close>

text \<open>What the client of \<open>h\<close> and the server do for one typed character.\<close>

definition keystroke :: "nat \<Rightarrow> u8 \<Rightarrow> ts_event list" where
  "keystroke h b = [Ts_Fill h [b], Ts_Handle 0, Ts_Write_Done h True]"

lemma keystroke_run:
  assumes "ts_running srv" "ready srv = []" "0 < reads srv h" "objects srv h = Some s" "ts_open s" "ordinary b"
  shows "\<exists>srv' s'. ts_run srv (keystroke h b) srv' \<and> ts_running srv' \<and> ready srv' = [] \<and> reads srv' h = Suc (reads srv h)
    \<and> objects srv' h = Some s' \<and> ts_open s' \<and> receivedData s' = receivedData s @ [char_of_u8 b]"
proof -
  define s1 where "s1 = srv\<lparr>ts_buffer := overwrite (ts_buffer srv) 0 [b], reads := (reads srv)(h := reads srv h - 1), ready := [(h, 1)]\<rparr>"
  define s2 where "s2 = s1\<lparr>ready := []\<rparr>"
  define s3 where "s3 = receiveAsync h (sendBytesToClient h (if ts_auth s \<noteq> Authenticating then [b] else to_bytes ''*'')
      (on_object h (appendReceivedData [char_of_u8 b]) s2))"
  define s4 where "s4 = receiveAsync h (s3\<lparr>writes := (writes s3)(h := writes s3 h - 1)\<rparr>)"
  have 1: "ts_step srv (Ts_Fill h [b]) s1"
    using ts_fill [of srv h s "[b]"] assms(1-5) by (simp add: RECV_BUFFER_SIZE_def s1_def)
  have b0: "ts_buffer s2 ! 0 = b" "take 1 (ts_buffer s2) = [b]" by (simp_all add: s1_def s2_def overwrite_def)
  have "on_ts_received h s 1 s2 = s3"
    using handle_ordinary [of s2 1 h s] assms(6) unfolding b0 s3_def by (simp add: of_bytes_def)
  moreover have "ts_step s1 (Ts_Handle 0) (on_ts_received h s 1 s2)"
    using ts_handle [of s1 0 h 1 s] assms(1,4) by (simp add: s1_def s2_def)
  ultimately have 2: "ts_step s1 (Ts_Handle 0) s3" by simp
  have "0 < writes s3 h" "ts_running s3"
    using assms(1) by (simp_all add: s3_def s2_def s1_def receiveAsync_def sendBytesToClient_def on_object_def)
  from ts_write_done [OF this(2,1), of True] have 3: "ts_step s3 (Ts_Write_Done h True) s4" by (simp add: s4_def Let_def)
  have run: "ts_run srv (keystroke h b) s4" unfolding keystroke_def using 1 2 3 by (blast intro: ts_cons ts_nil)
  show ?thesis
    using run assms(1,3,4,5)
    by (intro exI [of _ s4] exI [of _ "(appendReceivedData [char_of_u8 b] s)\<lparr>ts_echoed := ts_echoed s
        @ [if ts_auth s \<noteq> Authenticating then [b] else to_bytes ''*'']\<rparr>"])
      (simp add: s4_def s3_def s2_def s1_def receiveAsync_def sendBytesToClient_def on_object_def appendReceivedData_def)
qed

text \<open>Every typed character adds a read: handling it starts one read directly and one when its echo is written, so
  after \<open>n\<close> characters the session has \<open>n\<close> more reads outstanding than before.\<close>
theorem reads_pile_up:
  assumes "ts_running srv" "ready srv = []" "0 < reads srv h" "objects srv h = Some s" "ts_open s" "\<forall>b \<in> set bs. ordinary b"
  shows "\<exists>srv' s'. ts_run srv (concat (map (keystroke h) bs)) srv' \<and> reads srv' h = reads srv h + length bs
    \<and> objects srv' h = Some s' \<and> receivedData s' = receivedData s @ of_bytes bs"
  using assms
proof (induction bs arbitrary: srv s)
  case Nil
  then show ?case by (auto intro: ts_nil)
next
  case (Cons b bs)
  obtain t s1 where 1: "ts_run srv (keystroke h b) t" "ts_running t" "ready t = []" "reads t h = Suc (reads srv h)"
    "objects t h = Some s1" "ts_open s1" "receivedData s1 = receivedData s @ [char_of_u8 b]"
    using keystroke_run [OF Cons.prems(1-5), of b] Cons.prems(6) by auto
  have "0 < reads t h" "\<forall>b \<in> set bs. ordinary b" using 1(4) Cons.prems(6) by simp_all
  from Cons.IH [OF 1(2,3) this(1) 1(5,6) this(2)] obtain u s2 where
    2: "ts_run t (concat (map (keystroke h) bs)) u" "reads u h = reads t h + length bs" "objects u h = Some s2"
      "receivedData s2 = receivedData s1 @ of_bytes bs" by blast
  from ts_run_append [OF 1(1) 2(1)] 2 1(4,7) show ?case
    by (intro exI [of _ u] exI [of _ s2]) (simp add: of_bytes_def)
qed

theorem reads_pile_up_witness:
  "\<exists>srv'. ts_run ts_ready (concat (map (keystroke 0) [0x61, 0x62, 0x63])) srv' \<and> reads srv' 0 = 4"
proof -
  have pre: "ts_running ts_ready" "ready ts_ready = []" "0 < reads ts_ready 0"
    "objects ts_ready 0 = Some (the (objects ts_ready 0))" "ts_open (the (objects ts_ready 0))"
    "\<forall>b \<in> set [0x61, 0x62, 0x63 :: u8]. ordinary b" "reads ts_ready 0 = 1"
    by (simp_all add: ts_ready_def new_ts_session_def ordinary_def)
  from reads_pile_up [OF pre(1-6)] pre(7) show ?thesis by auto
qed

section \<open>The whole server\<close>

text \<open>A connection that is gone when it is accepted stops the server: \<open>remote_endpoint\<close> throws out of the event loop, and
  no event is ever handled again, of any session.\<close>
theorem reset_connection_stops_server:
  assumes "ts_running srv" "ts_accepting srv"
  shows "\<exists>srv'. ts_step srv (Ts_Connect False) srv' \<and> (\<forall>es srv''. ts_run srv' es srv'' \<longrightarrow> es = [])"
proof -
  let ?srv = "srv\<lparr>ts_running := False\<rparr>"
  have "ts_step srv (Ts_Connect False) ?srv" using ts_connect [OF assms, of False] by simp
  moreover have "\<not> ts_step ?srv e srv''" for e srv'' by (auto elim: ts_step.cases)
  ultimately show ?thesis by (intro exI [of _ ?srv]) (auto elim: ts_run.cases)
qed

theorem reset_connection_stops_server_witness:
  "\<exists>srv'. ts_step ts_ready (Ts_Connect False) srv' \<and> (\<forall>es srv''. ts_run srv' es srv'' \<longrightarrow> es = [])"
  by (rule reset_connection_stops_server) (simp_all add: ts_ready_def)

end
