(* ===== verification/Old_Telnet_Console.thy ===== *)
theory Old_Telnet_Console
  imports Old_Telnet Server_Lifecycle
begin

text \<open>
  The rest of \<open>telnet-server\<close>: the texts of dates and sessions (\<open>date_time_utils.cpp\<close>,
  \<open>Session::toString\<close>), construction, \<open>start\<close> and \<open>stop\<close> of \<open>Server\<close>, and the console loop of
  \<open>main\<close>, which decides when the server stops.
\<close>

section \<open>Dates\<close>

text \<open>The members of \<open>struct tm\<close> that are used; what \<open>localtime_r\<close> stores for a time is a parameter.\<close>

record tm =
  tm_year :: int
  tm_mon :: nat
  tm_mday :: nat
  tm_hour :: nat
  tm_min :: nat
  tm_sec :: nat

definition two_digits :: "nat \<Rightarrow> string" where
  "two_digits n = zero_pad 2 (dec_of_nat n)"

definition dec_of_int :: "int \<Rightarrow> string" where
  "dec_of_int i = (if i < 0 then CHR ''-'' # dec_of_nat (nat (- i)) else dec_of_nat (nat i))"

definition timeLocalToString :: "(int \<Rightarrow> tm) \<Rightarrow> int \<Rightarrow> string" where
  "timeLocalToString localtime t =
     (let bt = localtime t in
      dec_of_int (tm_year bt + 1900) @ ''-'' @ two_digits (tm_mon bt + 1) @ ''-'' @ two_digits (tm_mday bt)
      @ '' '' @ two_digits (tm_hour bt) @ '':'' @ two_digits (tm_min bt) @ '':'' @ two_digits (tm_sec bt))"

definition currTimeLocalToString :: "(int \<Rightarrow> tm) \<Rightarrow> int \<Rightarrow> string" where
  "currTimeLocalToString localtime now = timeLocalToString localtime now"

section \<open>Sessions as text\<close>

record described_session = ts_session +
  remoteEp :: "string \<times> nat"
  connectionTime :: int

definition new_described_session :: "u32 \<Rightarrow> string \<times> nat \<Rightarrow> int \<Rightarrow> described_session" where
  "new_described_session i ep now = ts_session.extend (new_ts_session i) \<lparr>remoteEp = ep, connectionTime = now\<rparr>"

definition authStatusToString :: "AuthStatus \<Rightarrow> string" where
  "authStatusToString st =
     (case st of Guest \<Rightarrow> ''Guest'' | Authenticating \<Rightarrow> ''Authenticating'' | LoggedIn \<Rightarrow> ''LoggedIn'')"

definition session_toString :: "(int \<Rightarrow> tm) \<Rightarrow> described_session \<Rightarrow> string" where
  "session_toString localtime s =
     '' session #'' @ dec_of_nat (unat (ts_id s)) @ '' (from '' @ fst (remoteEp s) @ '':'' @ dec_of_nat (snd (remoteEp s))
     @ ''), auth status '' @ authStatusToString (ts_auth s) @ '', connected at ''
     @ timeLocalToString localtime (connectionTime s)"

definition onDisconnected :: "(int \<Rightarrow> tm) \<Rightarrow> described_session \<Rightarrow> string" where
  "onDisconnected localtime s = ''Disconnected: '' @ session_toString localtime s @ [CHR 0x0A]"

definition onBlocked :: "(int \<Rightarrow> tm) \<Rightarrow> int \<Rightarrow> string \<Rightarrow> nat \<Rightarrow> string" where
  "onBlocked localtime now addr port =
     ''Blocked: '' @ addr @ '':'' @ dec_of_nat port @ '' at '' @ currTimeLocalToString localtime now @ [CHR 0x0A]"

section \<open>Construction, start and stop\<close>

text \<open>The acceptor's constructor opens, binds and listens, or throws out of the static initialisation.\<close>

definition old_server_new :: "start_env \<Rightarrow> server_io option" where
  "old_server_new env = (if all_granted env then Some (new_server_io\<lparr>io_sock := Sock_Listening\<rparr>) else None)"

definition old_server_start :: "server_io \<Rightarrow> server_io" where
  "old_server_start io = restart_and_run (async_start io)"

definition old_server_stop :: "server_io \<Rightarrow> server_io" where
  "old_server_stop io = context_stop (close_sock io)"

text \<open>An accept that ended with an error is not followed by another one.\<close>

definition old_accept_ended :: "server_io \<Rightarrow> server_io" where
  "old_accept_ended io = (if io_running io \<and> 0 < io_ended io then io\<lparr>io_ended := io_ended io - 1\<rparr> else io)"

section \<open>The console\<close>

text \<open>\<open>char x = std::cin.get()\<close>: at the end of the input this is \<open>EOF\<close>, converted to a \<open>char\<close>.\<close>

fun cin_get :: "string \<Rightarrow> char \<times> string" where
  "cin_get [] = (CHR 0xFF, [])"
| "cin_get (c # inp) = (c, inp)"

definition cin_getline :: "string \<Rightarrow> string \<times> string" where
  "cin_getline inp =
     (case find_char (CHR 0x0A) inp of Some p \<Rightarrow> (take p inp, drop (p + 1) inp) | None \<Rightarrow> (inp, []))"

definition console_turn :: "char \<Rightarrow> string \<times> ts_server \<Rightarrow> string \<times> ts_server" where
  "console_turn x st =
     (case st of (inp, srv) \<Rightarrow>
        if x = CHR ''b'' \<or> x = CHR ''B''
        then let (line, inp) = cin_getline inp in (inp, ts_sendMessageToAll line srv)
        else (inp, srv))"

text \<open>The loop may never end: then its value is \<open>None\<close>.\<close>

partial_function (option) console_loop :: "char \<Rightarrow> string \<times> ts_server \<Rightarrow> ts_server option" where
  "console_loop x st =
     (case console_turn x st of (inp, srv) \<Rightarrow>
      case cin_get inp of (x, inp) \<Rightarrow>
        if x \<noteq> CHR ''q'' \<and> x \<noteq> CHR ''Q'' then console_loop x (inp, srv) else Some srv)"

text \<open>The console's part of \<open>main\<close>, from the first character to the state when the server is stopped.\<close>

definition console_main :: "string \<Rightarrow> ts_server \<Rightarrow> ts_server option" where
  "console_main inp srv = (case cin_get inp of (x, inp) \<Rightarrow> console_loop x (inp, srv))"

text \<open>The whole of \<open>main\<close> after the server was constructed: its status and the server it leaves. The console does not
  look at what the worker thread does meanwhile, so the steps of that thread are left out.\<close>

definition old_telnet_main :: "string \<Rightarrow> server_io \<Rightarrow> ts_server \<Rightarrow> (int \<times> server_io \<times> ts_server) option" where
  "old_telnet_main inp io srv =
     (let io = old_server_start io in
      case console_main inp srv of
        None \<Rightarrow> None
      | Some srv \<Rightarrow> Some (0, old_server_stop io, srv))"

section \<open>When the console ends\<close>

lemma cin_getline_length: "length (snd (cin_getline cs)) \<le> length cs"
  by (simp add: cin_getline_def split: option.split)

text \<open>The characters the loop looks at: all of them except the rest of a line behind a \<open>b\<close>.\<close>

function console_keys :: "string \<Rightarrow> string" where
  "console_keys [] = []"
| "console_keys (c # cs) = c # console_keys (if c = CHR ''b'' \<or> c = CHR ''B'' then snd (cin_getline cs) else cs)"
  by pat_completeness auto
termination
  by (relation "measure length") (auto simp: le_imp_less_Suc cin_getline_length)

definition quits :: "string \<Rightarrow> bool" where
  "quits ks \<longleftrightarrow> CHR ''q'' \<in> set ks \<or> CHR ''Q'' \<in> set ks"

definition after_turn :: "char \<Rightarrow> string \<Rightarrow> string" where
  "after_turn x inp = (if x = CHR ''b'' \<or> x = CHR ''B'' then snd (cin_getline inp) else inp)"

lemma console_turn_eq: "console_turn x (inp, srv) = (after_turn x inp, srv)"
  by (simp add: console_turn_def after_turn_def ts_sendMessageToAll_def Let_def split: prod.split)

lemma console_loop_unfold:
  "console_loop x (inp, srv) = (case after_turn x inp of
     [] \<Rightarrow> console_loop (CHR 0xFF) ([], srv)
   | c # cs \<Rightarrow> if c = CHR ''q'' \<or> c = CHR ''Q'' then Some srv else console_loop c (cs, srv))"
  by (subst console_loop.simps) (auto simp: console_turn_eq split: list.split)

text \<open>Behind the end of the input the loop spins.\<close>

lemma console_loop_eof_aux:
  assumes "console_loop x st = Some r"
  shows "after_turn x (fst st) \<noteq> []"
proof (rule console_loop.raw_induct [where P = "\<lambda>x st r. after_turn x (fst st) \<noteq> []" and xa = "(x, st)", simplified])
  fix rec x st r
  assume IH: "\<And>x b y. rec x b = Some y \<Longrightarrow> after_turn x (fst b) \<noteq> []"
    and eq: "(case console_turn x st of (inp, srv) \<Rightarrow> case cin_get inp of (x, inp) \<Rightarrow>
        if x \<noteq> CHR ''q'' \<and> x \<noteq> CHR ''Q'' then rec x (inp, srv) else Some srv) = Some (r :: ts_server)"
  obtain inp srv where st: "st = (inp, srv)" by (cases st)
  show "after_turn x (fst st) \<noteq> []"
  proof
    assume e: "after_turn x (fst st) = []"
    then have "rec (CHR 0xFF) ([], srv) = Some r" using eq by (simp add: st console_turn_eq)
    from IH [OF this] show False by (simp add: after_turn_def)
  qed
qed (rule assms)

lemma console_loop_eof: "after_turn x inp = [] \<Longrightarrow> console_loop x (inp, srv) = None"
  using console_loop_eof_aux [of x "(inp, srv)"] by (cases "console_loop x (inp, srv)") auto

lemma after_turn_length: "length (after_turn x inp) \<le> length inp"
  by (simp add: after_turn_def cin_getline_length)

lemma console_loop_keys:
  "console_loop x (inp, srv) = (if quits (console_keys (after_turn x inp)) then Some srv else None)"
proof (induction "length inp" arbitrary: x inp rule: less_induct)
  case less
  show ?case
  proof (cases "after_turn x inp")
    case Nil
    then show ?thesis by (simp add: console_loop_eof quits_def)
  next
    case (Cons c cs)
    then have "length cs < length inp" using after_turn_length [of x inp] by simp
    from less [OF this, of c] Cons show ?thesis
      by (subst console_loop_unfold) (auto simp: quits_def after_turn_def)
  qed
qed

text \<open>C38: the console ends exactly if a q or Q is among the characters it looks at, the first one excepted, and
  then hands the server to \<open>stop\<close> as it was: lines behind a b are not sent to anybody. So a q typed first is
  ignored, one inside any other line counts, one behind a b does not, and when the input ends without one the loop
  never returns and the server is never stopped. The status of the program is always 0.\<close>
theorem console_ends:
  "console_main inp srv = (if quits (tl (console_keys inp)) then Some srv else None)
   \<and> old_telnet_main inp io srv =
      (if quits (tl (console_keys inp)) then Some (0, old_server_stop (old_server_start io), srv) else None)"
proof -
  have "console_main inp srv = (if quits (tl (console_keys inp)) then Some srv else None)"
    by (cases inp) (simp_all add: console_main_def console_loop_keys after_turn_def quits_def cin_getline_def)
  then show ?thesis by (simp add: old_telnet_main_def)
qed

lemma console_examples:
  "console_main (''q'' @ [CHR 0x0A]) srv = None" "console_main (CHR 0x0A # ''queue'') srv = Some srv"
  "console_main (''bq'' @ [CHR 0x0A] @ ''bye'') srv = None"
  by (simp_all add: console_main_def console_loop_keys after_turn_def quits_def cin_getline_def find_char_def)

section \<open>Starting again\<close>

lemma old_accept_ended_pending: "io_pending ((old_accept_ended ^^ n) io) = io_pending io"
  by (induction n) (simp_all add: old_accept_ended_def)

text \<open>After the construction one accept is outstanding; after a stop the accept of the next start fails on the closed
  acceptor, and none follows it.\<close>

lemma old_server_starts_once:
  "old_server_new env = Some io \<Longrightarrow> io_pending (old_server_start io) = 1"
  "io_pending ((old_accept_ended ^^ n) (old_server_start (old_server_stop io))) = 0"
  by (auto simp: old_server_new_def old_server_start_def old_server_stop_def old_accept_ended_pending io_defs new_server_io_def
      split: if_splits)

section \<open>Dates fit their buffer\<close>

lemma length_dec_of_nat: "n < 10 ^ k \<Longrightarrow> 0 < k \<Longrightarrow> length (dec_of_nat n) \<le> k"
proof (induction n arbitrary: k rule: dec_of_nat.induct)
  case (1 n)
  show ?case
  proof (cases "n < 10")
    case False
    then obtain k' where k: "k = Suc k'" "0 < k'" using 1(2,3) by (cases k; cases "k - 1") auto
    then have "n div 10 < 10 ^ k'" using 1(2) by (simp add: less_mult_imp_div_less mult.commute)
    from 1(1) [OF False this k(2)] False k show ?thesis by (subst dec_of_nat.simps) simp
  qed (use 1(3) in \<open>simp add: dec_of_nat.simps\<close>)
qed

text \<open>\<open>strftime\<close> is given 128 octets; the text never needs more than 26, so it is never cut.\<close>

lemma date_fits:
  assumes "\<bar>tm_year (local t) + 1900\<bar> < 10 ^ 10" "tm_mon (local t) < 12" "tm_mday (local t) < 32" "tm_hour (local t) < 24"
    and "tm_min (local t) < 60" "tm_sec (local t) < 61"
  shows "length (timeLocalToString local t) \<le> 26"
proof -
  have two: "length (two_digits n) \<le> 2" if "n < 100" for n
    using that length_dec_of_nat [of n 2] by (simp add: two_digits_def zero_pad_def)
  have "length (dec_of_int (tm_year (local t) + 1900)) \<le> 11"
    using assms(1) length_dec_of_nat [of "nat (tm_year (local t) + 1900)" 10]
      length_dec_of_nat [of "nat (- (tm_year (local t) + 1900))" 10]
    by (auto simp: dec_of_int_def nat_less_iff)
  then show ?thesis
    using assms(2-6) two [of "tm_mon (local t) + 1"] two [of "tm_mday (local t)"] two [of "tm_hour (local t)"]
      two [of "tm_min (local t)"] two [of "tm_sec (local t)"]
    by (simp add: timeLocalToString_def Let_def)
qed

end
