(* ===== verification/Spec2Isabelle.thy ===== *)
theory Spec2Isabelle
  imports DNS_Programs DNS_Language DNS_Trails TFTP_Program TFTP_Bounds TFTP_Adversary SMTP_Machine SMTP_Bounds SMTP_Helpers FTP_Concurrency FTP_Replies Telnet_Properties
    Telnet_Program Server_Programs Old_Telnet_Properties Old_Telnet_Console Server_Lifecycle
begin

text \<open>
  Verification of the network protocol programs of this repository: a DNS resolver with its server
  and client (\<open>dns/\<close>), a TFTP server and client (\<open>tftp/\<close>), an SMTP server (\<open>smtp/\<close>), an FTP server
  (\<open>ftp/\<close>) and two Telnet servers (\<open>telnet/server\<close>, \<open>telnet-server\<close>). All are C++ programs on the
  networking library Asio; they share nothing but that library and a few string helpers. The
  definitions are translations of the code, with its names where Isabelle allows them.

  How the programs are modelled. An asynchronous server is a state and steps: each step is one
  completion handler, run when the operation it belongs to completes; what the operation delivers
  (octets, an error, the answer of a system call) is part of the event or of an environment record.
  A blocking program (the TFTP and DNS clients, an FTP session's thread) is a function of what its
  calls return. A handler is a function that gives a value or a \<open>fault\<close>: a C++ exception, a failed
  assertion, a read or write outside an object, an overflow of \<open>int\<close>. Integers have the width of the
  code (\<open>u8\<close>, \<open>u16\<close>, \<open>u32\<close>), the machine is little-endian, \<open>char\<close> is signed and text is in the "C"
  locale. Files are maps from paths to contents.

  The theories.

  \<open>Prelude\<close>: word types, \<open>fault\<close> and its result type, bounds-checked reads, byte order.
  \<open>Std_String\<close>, \<open>File_System\<close>: what the sources use of the standard library.
  \<open>Wire_Codec\<close>: locales for binary encodings (\<open>wire_codec\<close>, \<open>positional_codec\<close>), interpreted for the
  DNS header, names, queries, questions and records.
  \<open>Machines\<close>: locales for machines and their runs (\<open>event_machine\<close>, \<open>fault_machine\<close>, \<open>simulation\<close>),
  interpreted for every server and for the Telnet line editor.

  DNS. \<open>DNS_Message\<close>, \<open>DNS_Name\<close>, \<open>DNS_Query\<close>, \<open>DNS_Response\<close> model \<open>dns/common\<close>: the flag word and its
  accessors, names with compression pointers, both codecs. \<open>DNS_Resolver\<close> and \<open>DNS_Server\<close> model
  \<open>dns/server\<close> (the records file, \<open>process\<close>, the handlers as \<open>dns_step\<close>; the locale \<open>answering\<close> is what the
  server relies on in a resolver), \<open>DNS_Client\<close> models \<open>dns/client\<close>. \<open>DNS_Properties\<close>: queries and
  responses survive encoding and decoding, compressed names decode, decoding ends when pointers go
  backwards and need not end otherwise, a query sent to the server is answered, and the answers.
  \<open>DNS_Output\<close> models what is printed: the \<open>dump\<close> functions as insertions into a stream with format flags,
  the client's \<open>resolve\<close> and the loop of its \<open>main\<close>; \<open>DNS_Client_Properties\<close> has the exact text for a response and
  what happens to the number base. \<open>DNS_Programs\<close> has the server's \<open>main\<close> and follows a records file through
  server and client to the screen. \<open>DNS_Language\<close>: the language of the query decoder, so what the server does with any
  datagram and which ones make it leave its buffer. \<open>DNS_Trails\<close>: whether a name with pointers is ever read is decided
  by the message, within as many pointers as it has octets.

  TFTP. \<open>TFTP_Common\<close> has what both programs have (message formats, cutting a file into blocks with the
  locale \<open>block_source\<close>), \<open>TFTP_Sessions\<close> and \<open>TFTP_Server\<close> model \<open>tftp/tftp-server.cpp\<close> (both session
  classes, the table of sessions, \<open>tftp_step\<close>), \<open>TFTP_Client\<close> models \<open>tftp/tftp-client.cpp\<close>.
  \<open>TFTP_Transfer\<close> runs the two against each other. \<open>TFTP_Properties\<close>: downloads and uploads complete and
  are right over a network that loses nothing, the block loop against the file, isolation of the
  sessions, what is never overwritten, and what goes wrong when datagrams are repeated or too short.
  \<open>TFTP_Program\<close> has the client's \<open>main\<close>: the program copies a file in either direction when it is given
  the datagrams that the server's steps produce, and its exit status. \<open>TFTP_Bounds\<close>: exactly which datagrams
  make the server read outside its buffer. \<open>TFTP_Adversary\<close>: what has arrived and what has been sent when the client
  reports success, whoever the peer is and whatever octets it sends, datagrams without a whole header included.

  SMTP. \<open>SMTP_Session\<close> and \<open>SMTP_Server\<close> model \<open>smtp/server\<close>: commands, message text, delivery to
  mailboxes, \<open>smtp_step\<close> and the interleaved \<open>server_step\<close>. \<open>SMTP_Dialogue\<close> has the effect of each command.
  \<open>SMTP_Properties\<close>: a whole mail transaction delivers the message to every recipient, the invariant of
  the sessions, isolation of their message files, and the states a session does not leave.
  \<open>SMTP_Machine\<close>: an abstract machine on command lines, and the proof that a session implements it for any lines in
  any order. \<open>SMTP_Bounds\<close>: exactly which segments make a session read outside its buffer.
  \<open>SMTP_Helpers\<close>: the template and the string function that the server does not call.

  FTP. \<open>FTP_Users\<close>, \<open>FTP_Session\<close>, \<open>FTP_Commands\<close> and \<open>FTP_Server\<close> model \<open>ftp/server\<close>: the user database, every
  command handler, the transfers, \<open>executeCommand\<close>, the worker's loop and the interleaved turns of all
  sessions. \<open>FTP_Properties\<close> and \<open>FTP_Dialogue\<close>: transfers send and store what they should, a whole session
  works, passwords, and how a session leaves its root directory. \<open>FTP_Concurrency\<close>: two sessions and the one data
  port. \<open>FTP_Directories\<close>: which path a command may change, directories made, entered and removed, listings.
  \<open>FTP_Replies\<close>: the reply codes of every command, when there is no reply, and exactly which lines make a session
  leave its memory. Both use the case rule \<open>executeCommand_cases\<close> for the dispatcher.

  Telnet. \<open>Telnet_Session\<close> and \<open>Telnet_Server\<close> model \<open>telnet/server\<close>; \<open>Telnet_Editor\<close> has the abstract line
  editor and the proof that a session implements it. \<open>Telnet_Properties\<close>: that refinement over whole runs,
  well-formedness of every reachable session, the login dialogue, ends of lines. \<open>Telnet_Program\<close>: the callbacks of
  \<open>main.cpp\<close>, how they reach the sessions, and what the program prints for the lines its users type.
  \<open>Old_Telnet\<close> and \<open>Old_Telnet_Properties\<close>: the older server in \<open>telnet-server\<close>, with its one receive buffer for
  all sessions and the reads and writes that are outstanding. \<open>Old_Telnet_Console\<close>: its texts, its construction,
  \<open>start\<close> and \<open>stop\<close>, and its \<open>main\<close> with the exact condition under which the console loop ends.

  \<open>Server_Lifecycle\<close>: \<open>start\<close>, \<open>stop\<close> and \<open>waitSignal\<close> of the five servers that have a \<open>start\<close> of their own, as
  what they do to the listening socket and the I/O context. The locales \<open>startable\<close> and \<open>restartable\<close> say what
  such functions promise; they are interpreted for the servers, the first alone for DNS. The theorems
  below rest on these interpretations. \<open>Server_Programs\<close>: the \<open>main\<close> functions of the SMTP, TFTP, Telnet and FTP
  servers around it, and their exit status for any answers to \<open>start\<close> and any events of the loop, with the exceptions that
  each accept handler catches or lets through.

  Loops and bounds. All loops are recursive functions with a measure or over a list, but two partial functions to an
  option, where \<open>None\<close> is not returning: following compression pointers (\<open>follow_pointers\<close>) is proved to return where
  pointers go backwards and to return or not according to the first pointers of a message, and the older Telnet server's console (\<open>console_loop\<close>) where a q is typed. The clients' loops are over the
  list of what arrives; a list that ends is a call that blocks. \<open>download\<close> and \<open>upload\<close> take a number of turns, and
  the number of blocks of the file is proved to be enough. The buffers keep their sizes: TFTP 516 octets with 512 of
  data, SMTP commands 512, mail recipients 100, FTP blocks 512 in and 1024 out, Telnet 80 lines of history,
  the older Telnet server's buffer 1024.

  Not modelled. Asio itself, which the repository does not define: only when its calls complete and what they
  return, as its documentation has it. The console output of the servers (\<open>log.h\<close>, traces) and the error lines of
  the TFTP client; of the Telnet program only what its callbacks print. The thread of the TFTP client, which runs an
  I/O context without work, and the steps of the older Telnet server's thread while its console runs. The lifetime of buffers handed to \<open>async_write\<close>; buffering inside file streams (a write is in the file at once) and writes that
  a full disk refuses; two spellings of one path; the
  interleaving of FTP threads within a command. The file system's answers (permissions, status queries, removals,
  \<open>in_avail\<close>, directory iterators and formatted times, the time zone) are arguments. A \<open>char\<close> is signed and an \<open>int\<close> has 32 bits. Where C++ leaves the
  order of two evaluations open and it matters (\<open>FTPSession::handlePort\<close>), the order is an argument. Sessions survive a \<open>stop\<close> in
  the code and are not part of \<open>Server_Lifecycle\<close>.
\<close>

section \<open>Starting and stopping\<close>

text \<open>When every call of \<open>start\<close> is granted.\<close>

definition granted :: start_env where
  "granted = \<lparr>a_address = True, a_open = True, a_option = True, a_bind = True, a_listen = True\<rparr>"

lemma all_granted_sample [simp]: "all_granted granted"
  by (simp add: all_granted_def granted_def)

lemma dns_never_started_again:
  assumes "io_sock io \<noteq> Sock_Closed" "\<And>threw io. io_sock (rearm threw io) = io_sock io"
  shows "started dns_server_start dns_server_stop rearm es io = 0"
  using assms(1)
proof (induction es arbitrary: io)
  case (Cons e es)
  have "\<exists>x. dns_server_start env io = (Some x, io)" for env
    by (rule dns_life.start_busy [OF Cons.prems])
  then have busy: "fst (dns_server_start env io) \<noteq> None" "snd (dns_server_start env io) = io" for env
    by (metis fst_conv option.distinct(1), metis snd_conv)
  have "io_sock (io_step dns_server_start dns_server_stop rearm e io) \<noteq> Sock_Closed"
    using Cons.prems assms(2) busy(2)
    by (cases e) (auto simp: on_io_signal_def dns_server_stop_def context_stop_def Let_def)
  from Cons.IH [OF this] show ?case using busy by (cases e) auto
qed simp

text \<open>C40: the TFTP, SMTP, FTP and Telnet servers can be stopped in any state and started again: when the calls of
  \<open>start\<close> are granted it does not throw, the socket is bound, handlers run and one more operation is
  outstanding. The DNS server cannot: once a start has got past opening the socket, no later call of
  \<open>start\<close> succeeds, whatever happens in between, because \<open>stop\<close> leaves the socket open.\<close>
theorem restart_after_stop:
  assumes "all_granted env" "io_sock (snd (dns_server_start env1 d)) \<noteq> Sock_Closed" "\<forall>threw io. io_sock (rearm threw io) = io_sock io"
  shows "(\<exists>io'. tftp_server_start reuse env (tftp_server_stop io) = (None, io') \<and> serving (tftp_server_stop io) io')
    \<and> (\<exists>io'. smtp_server_start env (smtp_server_stop io) = (None, io') \<and> serving (smtp_server_stop io) io')
    \<and> (\<exists>io'. ftp_server_start env (ftp_server_stop io) = (None, io') \<and> serving (ftp_server_stop io) io')
    \<and> (\<exists>io'. telnet_server_start env (telnet_server_stop io) = (None, io') \<and> serving (telnet_server_stop io) io')
    \<and> started dns_server_start dns_server_stop rearm es (snd (dns_server_start env1 d)) = 0"
  using tftp_life.stop_then_start [OF assms(1)] smtp_life.stop_then_start [OF assms(1)] ftp_life.stop_then_start [OF assms(1)]
    telnet_life.stop_then_start [OF assms(1)] dns_never_started_again [OF assms(2)] assms(3)
  by blast

theorem restart_after_stop_witness:
  "(\<exists>io'. smtp_server_start granted (smtp_server_stop new_server_io) = (None, io') \<and> serving (smtp_server_stop new_server_io) io')
    \<and> started dns_server_start dns_server_stop (\<lambda>threw io. io) [Io_Signal True, Start granted] (snd (dns_server_start granted new_server_io)) = 0"
proof -
  have "io_sock (snd (dns_server_start granted new_server_io)) \<noteq> Sock_Closed"
    by (simp add: dns_server_start_def new_server_io_def granted_def io_defs)
  note start = restart_after_stop [where rearm = "\<lambda>threw io. io" and io = new_server_io and es = "[Io_Signal True, Start granted]",
      OF all_granted_sample this]
  have "\<forall>threw io. io_sock ((\<lambda>(threw :: bool) (io :: server_io). io) threw io) = io_sock io" by simp
  from start [OF this] show ?thesis by blast
qed

text \<open>Starting again adds a loop of accepts or receives to the old ones: as long as no exception leaves the handler of an
  accept, the operations on the listening socket - outstanding, or ended with their handlers still queued - are as
  many as the calls of \<open>start\<close> that went through. The handlers of the operations that \<open>stop\<close> ended run after the next
  \<open>start\<close>, find the socket open and start new ones; for the TFTP server this makes two receives into one buffer.\<close>
theorem restarts_add_up:
  assumes "Accept_Threw \<notin> set es"
  shows "operations (io_run (tftp_server_start reuse) tftp_server_stop rearm_always es new_server_io)
        = started (tftp_server_start reuse) tftp_server_stop rearm_always es new_server_io
    \<and> operations (io_run smtp_server_start smtp_server_stop rearm_always es new_server_io)
        = started smtp_server_start smtp_server_stop rearm_always es new_server_io
    \<and> operations (io_run ftp_server_start ftp_server_stop rearm_if_open es new_server_io)
        = started ftp_server_start ftp_server_stop rearm_if_open es new_server_io
    \<and> operations (io_run telnet_server_start telnet_server_stop rearm_if_open es new_server_io)
        = started telnet_server_start telnet_server_stop rearm_if_open es new_server_io"
proof -
  have new: "open_while_running new_server_io" "operations new_server_io = 0"
    by (simp_all add: open_while_running_def operations_def new_server_io_def)
  note runs = tftp_life.run_operations smtp_life.run_operations ftp_life.run_operations telnet_life.run_operations
  show ?thesis by (intro conjI) (simp_all only: runs [OF new(1) assms] new(2) add_0_right)
qed

theorem restarts_add_up_witness:
  "operations (io_run (tftp_server_start False) tftp_server_stop rearm_always [Start granted, Io_Signal True, Start granted, Ended] new_server_io) = 2"
  using restarts_add_up [of "[Start granted, Io_Signal True, Start granted, Ended]" False]
  by (simp add: tftp_server_start_def tftp_server_stop_def on_io_signal_def new_server_io_def granted_def io_defs)

end
